theory Spec2Isabelle
  imports Complex_Main
begin

section \<open>Configuration constants of assignment_2.py\<close>

definition GAME_GRID_WIDTH :: int where
  "GAME_GRID_WIDTH = 10"

definition GAME_GRID_HEIGHT :: int where
  "GAME_GRID_HEIGHT = GAME_GRID_WIDTH"

definition NUM_SPACES :: int where
  "NUM_SPACES = GAME_GRID_WIDTH * GAME_GRID_HEIGHT"

definition DEFAULT_TERRAIN_DIFFICULTY :: int where
  "DEFAULT_TERRAIN_DIFFICULTY = 1"

definition SCENT_STACKING :: bool where
  "SCENT_STACKING = True"

definition DEATH_PENALTY :: bool where
  "DEATH_PENALTY = True"

definition ENERGY_PER_FOOD :: int where
  "ENERGY_PER_FOOD = 20"

definition FOOD_PER_ROUND :: int where
  "FOOD_PER_ROUND = 20"

definition MAX_ENERGY :: int where
  "MAX_ENERGY = 100"

definition MAX_SAVED_GAME_STATES :: int where
  "MAX_SAVED_GAME_STATES = MAX_ENERGY"

definition MAX_NUM_FOOD_ON_GRID :: nat where
  "MAX_NUM_FOOD_ON_GRID = 2"

definition USE_DIAGONAL_SCENT :: bool where
  "USE_DIAGONAL_SCENT = False"

section \<open>Data model\<close>

text \<open>
  The \<open>type\<close> attribute of a GridSpace is \<open>None\<close>, \<open>"Player"\<close> or \<open>"Food"\<close>.
  Colours only serve the drawing code and are left out of every record.
\<close>

datatype kind = Player | Food

record GridSpace =
  tile_type :: "kind option"
  difficulty :: int
  tile_x :: int
  tile_y :: int

record Player =
  tile :: GridSpace
  food_eaten :: int
  max_energy :: int
  energy :: int
  alive :: bool
  smell_matrix :: "real list list"
  score :: int

record GameGrid =
  width :: int
  height :: int
  smell_grid :: "real list list"
  occupied_grid :: "int list list"
  occupied_spaces :: "GridSpace list"
  player :: Player

record GameState =
  player_loc_x :: int
  player_loc_y :: int
  player_energy :: int
  player_food_eaten :: int
  player_score :: int
  foods_loc :: "(int \<times> int) list"

record GameManager =
  game_grid :: GameGrid
  round_no :: int
  paused :: bool
  game_states :: "GameState list"
  round_scores :: "int list"

text \<open>
  What a call can end in besides a value: an \<open>IndexError\<close> of Python or numpy, the
  \<open>ValueError\<close> of \<open>random.randint\<close> on an empty range, the \<open>exit(9)\<close> of
  randEmptySpace, and \<open>Exhausted\<close> when the finite supply of random draws handed to
  the model ran out while the code was still asking for more (the rejection loop of
  randEmptySpace has no bound of its own).
\<close>

datatype error = IndexError | ValueError | SystemExit int | Exhausted

definition bindE :: "error + 'a \<Rightarrow> ('a \<Rightarrow> error + 'b) \<Rightarrow> error + 'b" where
  "bindE m f = (case m of Inl e \<Rightarrow> Inl e | Inr v \<Rightarrow> f v)"

section \<open>numpy and random\<close>

definition np_zeros :: "nat \<Rightarrow> nat \<Rightarrow> 'a::zero list list" where
  "np_zeros w h = replicate w (replicate h 0)"

text \<open>An index into an axis of length \<open>n\<close>: negative indices count from the end.\<close>

definition np_index :: "nat \<Rightarrow> int \<Rightarrow> nat option" where
  "np_index n i =
     (if 0 \<le> i \<and> i < int n then Some (nat i)
      else if - int n \<le> i \<and> i < 0 then Some (nat (i + int n))
      else None)"

definition set2 :: "'a list list \<Rightarrow> nat \<Rightarrow> nat \<Rightarrow> 'a \<Rightarrow> 'a list list" where
  "set2 a r c v = a[r := (a ! r)[c := v]]"

text \<open>
  One draw of the random source is a natural number; \<open>random.randint(a, b)\<close> maps it
  into \<open>a..b\<close> (both ends included) and \<open>random.choice(seq)\<close> into the indices of
  \<open>seq\<close>. Each value of the range is the image of the draws of one residue class.
\<close>

definition randint :: "int \<Rightarrow> int \<Rightarrow> nat \<Rightarrow> int" where
  "randint a b r = a + int (r mod nat (b - a + 1))"

definition choice :: "'a list \<Rightarrow> nat list \<Rightarrow> error + ('a \<times> nat list)" where
  "choice xs rnd =
     (if xs = [] then Inl IndexError
      else case rnd of [] \<Rightarrow> Inl Exhausted
           | r # rs \<Rightarrow> Inr (xs ! (r mod length xs), rs))"

section \<open>GridSpace and Player\<close>

definition GridSpace_init :: "int \<Rightarrow> int \<Rightarrow> GridSpace" where
  "GridSpace_init x y =
     \<lparr>tile_type = None, difficulty = DEFAULT_TERRAIN_DIFFICULTY, tile_x = x, tile_y = y\<rparr>"

definition setPlayer :: "GridSpace \<Rightarrow> GridSpace" where
  "setPlayer t = t\<lparr>tile_type := Some Player\<rparr>"

definition setFood :: "GridSpace \<Rightarrow> GridSpace" where
  "setFood t = t\<lparr>tile_type := Some Food\<rparr>"

definition Player_init :: "int \<Rightarrow> int \<Rightarrow> Player" where
  "Player_init x y =
     \<lparr>tile = setPlayer (GridSpace_init x y), food_eaten = 0, max_energy = MAX_ENERGY,
      energy = MAX_ENERGY, alive = True, smell_matrix = np_zeros 3 3, score = 0\<rparr>"

definition teleport :: "Player \<Rightarrow> int \<Rightarrow> int \<Rightarrow> Player" where
  "teleport p x y = p\<lparr>tile := (tile p)\<lparr>tile_x := x, tile_y := y\<rparr>\<rparr>"

definition die :: "Player \<Rightarrow> Player" where
  "die p = p\<lparr>alive := False\<rparr>"

definition useEnergy :: "Player \<Rightarrow> int \<Rightarrow> Player" where
  "useEnergy p amnt =
     (let p1 = p\<lparr>energy := energy p - amnt\<rparr>
      in if energy p1 < 0 then die p1 else p1)"

text \<open>The position change of \<open>Player.move\<close>, before the energy is spent.\<close>

definition step_tile :: "GridSpace \<Rightarrow> int \<Rightarrow> GridSpace" where
  "step_tile t direction =
     (if direction = 0 then (if tile_y t > 0 then t\<lparr>tile_y := tile_y t - 1\<rparr> else t)
      else if direction = 1 then
        (if tile_y t < GAME_GRID_HEIGHT - 1 then t\<lparr>tile_y := tile_y t + 1\<rparr> else t)
      else if direction = 2 then (if tile_x t > 0 then t\<lparr>tile_x := tile_x t - 1\<rparr> else t)
      else if direction = 3 then
        (if tile_x t < GAME_GRID_WIDTH - 1 then t\<lparr>tile_x := tile_x t + 1\<rparr> else t)
      else t)"

definition move :: "Player \<Rightarrow> int \<Rightarrow> int \<Rightarrow> Player \<times> (int \<times> int)" where
  "move p direction difficulty' =
     (let p' = (if alive p
                then useEnergy (p\<lparr>tile := step_tile (tile p) direction\<rparr>) difficulty'
                else p)
      in (p', (tile_x (tile p'), tile_y (tile p'))))"

definition eatFood :: "Player \<Rightarrow> Player" where
  "eatFood p =
     (let p1 = p\<lparr>food_eaten := food_eaten p + 1\<rparr>;
          p2 = p1\<lparr>score := score p1 + energy p1\<rparr>;
          p3 = p2\<lparr>energy := energy p2 + ENERGY_PER_FOOD\<rparr>
      in if energy p3 > max_energy p3 then p3\<lparr>energy := max_energy p3\<rparr> else p3)"

section \<open>GameGrid: occupancy\<close>

text \<open>
  The arrays \<open>smell_grid\<close> and \<open>occupied_grid\<close> are allocated by \<open>reset\<close> with the
  shape (width, height), and the program builds its one GameGrid with GAME_GRID_WIDTH
  and GAME_GRID_HEIGHT. The reads below (\<open>!\<close>) stand for numpy reads that are in
  range on arrays of that shape; the writes of \<open>addTile\<close>, which the check of
  \<open>genTile\<close> lets through for a coordinate equal to the grid size, raise IndexError.
\<close>

definition reset :: "GameGrid \<Rightarrow> GameGrid" where
  "reset g =
     g\<lparr>smell_grid := np_zeros (nat (width g)) (nat (height g)),
       occupied_grid := np_zeros (nat (width g)) (nat (height g)),
       occupied_spaces := [],
       player := Player_init 0 0\<rparr>"

definition GameGrid_init :: "int \<Rightarrow> int \<Rightarrow> GameGrid" where
  "GameGrid_init w h =
     reset \<lparr>width = w, height = h, smell_grid = [], occupied_grid = [],
            occupied_spaces = [], player = Player_init 0 0\<rparr>"

definition checkValidTile :: "int \<Rightarrow> int \<Rightarrow> bool" where
  "checkValidTile x y =
     (if x \<ge> 0 \<and> y \<ge> 0 then (if x < GAME_GRID_WIDTH \<and> y < GAME_GRID_HEIGHT then True else False)
      else False)"

definition checkOccupied :: "GameGrid \<Rightarrow> int \<Rightarrow> int \<Rightarrow> bool" where
  "checkOccupied g x y =
     (if checkValidTile x y then (if occupied_grid g ! nat x ! nat y = 1 then True else False)
      else False)"

definition getTile :: "GameGrid \<Rightarrow> int \<Rightarrow> int \<Rightarrow> GridSpace option" where
  "getTile g x y =
     (if \<not> checkValidTile x y then None
      else find (\<lambda>t. tile_x t = x \<and> tile_y t = y) (occupied_spaces g))"

definition addTile :: "GameGrid \<Rightarrow> GridSpace \<Rightarrow> error + GameGrid" where
  "addTile g t =
     (let g1 = g\<lparr>occupied_spaces := occupied_spaces g @ [t]\<rparr>
      in case np_index (length (occupied_grid g1)) (tile_x t) of
           None \<Rightarrow> Inl IndexError
         | Some r \<Rightarrow>
             (case np_index (length (occupied_grid g1 ! r)) (tile_y t) of
                None \<Rightarrow> Inl IndexError
              | Some c \<Rightarrow> Inr (g1\<lparr>occupied_grid := set2 (occupied_grid g1) r c 1\<rparr>)))"

text \<open>
  The loop of \<open>removeTile\<close> removes from the list it iterates over: after a removal
  the iterator's index has moved on while the rest of the list has moved up, so the
  tile that followed the removed one is not visited.
\<close>

fun remove_loop :: "int \<Rightarrow> int \<Rightarrow> GridSpace list \<Rightarrow> kind option \<Rightarrow> GridSpace list \<times> kind option" where
  "remove_loop x y [] tt = ([], tt)"
| "remove_loop x y [t] tt =
     (if tile_x t = x \<and> tile_y t = y then ([], tile_type t) else ([t], tt))"
| "remove_loop x y (t # u # us) tt =
     (if tile_x t = x \<and> tile_y t = y
      then (let r = remove_loop x y us (tile_type t) in (u # fst r, snd r))
      else (let r = remove_loop x y (u # us) tt in (t # fst r, snd r)))"

definition removeTile :: "GameGrid \<Rightarrow> int \<Rightarrow> int \<Rightarrow> GameGrid \<times> kind option" where
  "removeTile g x y =
     (if checkOccupied g x y
      then (let g1 = g\<lparr>occupied_grid := set2 (occupied_grid g) (nat x) (nat y) 0\<rparr>;
                r = remove_loop x y (occupied_spaces g1) None
            in (g1\<lparr>occupied_spaces := fst r\<rparr>, snd r))
      else (g, None))"

section \<open>GameGrid: the scent field\<close>

text \<open>
  The scent values are Python floats; the model computes with real numbers, so that
  \<open>distance.euclidean\<close> is the exact root and \<open>round(v, 5)\<close> rounds the exact value
  (to the nearest multiple of 10^-5, a tie to the even one).
\<close>

definition euclidean :: "real \<times> real \<Rightarrow> real \<times> real \<Rightarrow> real" where
  "euclidean u v = sqrt ((fst u - fst v)\<^sup>2 + (snd u - snd v)\<^sup>2)"

definition round_half_even :: "real \<Rightarrow> int" where
  "round_half_even v =
     (let f = \<lfloor>v\<rfloor>; d = v - of_int f
      in if d < 1 / 2 then f else if d > 1 / 2 then f + 1 else if even f then f else f + 1)"

definition py_round :: "real \<Rightarrow> nat \<Rightarrow> real" where
  "py_round v n = of_int (round_half_even (v * 10 ^ n)) / 10 ^ n"

text \<open>The body of the two inner loops of \<open>calcSmellMatrix\<close> at row \<open>i\<close>, column \<open>j\<close>.\<close>

definition smell_cell :: "bool \<Rightarrow> GridSpace \<Rightarrow> real list list \<Rightarrow> nat \<Rightarrow> nat \<Rightarrow> real list list" where
  "smell_cell stacking t sg i j =
     (let dist = euclidean (real i, real j) (of_int (tile_x t), of_int (tile_y t)) + 1;
          dist = 1 / dist
      in if stacking = False
         then (if sg ! j ! i < py_round dist 5 then set2 sg j i (py_round dist 5) else sg)
         else (if int j = tile_x t \<and> int i = tile_y t
               then set2 sg j i (py_round dist 5)
               else set2 sg j i (sg ! j ! i + py_round dist 5)))"

definition smell_tile :: "bool \<Rightarrow> nat \<Rightarrow> nat \<Rightarrow> real list list \<Rightarrow> GridSpace \<Rightarrow> real list list" where
  "smell_tile stacking w h sg t =
     foldl (\<lambda>sg i. foldl (\<lambda>sg j. smell_cell stacking t sg i j) sg [0..<w])
       (set2 sg (nat (tile_x t)) (nat (tile_y t)) 1) [0..<h]"

definition smell_field :: "bool \<Rightarrow> nat \<Rightarrow> nat \<Rightarrow> GridSpace list \<Rightarrow> real list list" where
  "smell_field stacking w h ts = foldl (smell_tile stacking w h) (np_zeros w h) ts"

definition calcSmellMatrix :: "GameGrid \<Rightarrow> GameGrid" where
  "calcSmellMatrix g =
     g\<lparr>smell_grid :=
         smell_field SCENT_STACKING (nat (width g)) (nat (height g)) (occupied_spaces g)\<rparr>"

text \<open>\<open>np.pad(a, pad_width=1)\<close> on a two-dimensional array, and a slice \<open>xs[lo:hi]\<close>.\<close>

definition np_pad :: "real list list \<Rightarrow> real list list" where
  "np_pad a =
     (let cols = (case a of [] \<Rightarrow> 0 | row # _ \<Rightarrow> length row);
          border = replicate (cols + 2) 0
      in border # map (\<lambda>row. 0 # row @ [0]) a @ [border])"

definition py_bound :: "nat \<Rightarrow> int \<Rightarrow> nat" where
  "py_bound n i = (if i < 0 then nat (max 0 (int n + i)) else min n (nat i))"

definition py_slice :: "'a list \<Rightarrow> int \<Rightarrow> int \<Rightarrow> 'a list" where
  "py_slice xs lo hi = take (py_bound (length xs) hi - py_bound (length xs) lo)
                         (drop (py_bound (length xs) lo) xs)"

definition calcPlayerSense :: "GameGrid \<Rightarrow> GameGrid" where
  "calcPlayerSense g =
     (let padded_grid = np_pad (smell_grid g);
          x = tile_x (tile (player g));
          y = tile_y (tile (player g))
      in g\<lparr>player := (player g)
            \<lparr>smell_matrix := map (\<lambda>row. py_slice row x (x + 3)) (py_slice padded_grid y (y + 3))\<rparr>\<rparr>)"

section \<open>GameGrid: placement\<close>

fun rejection :: "int list list \<Rightarrow> nat list \<Rightarrow> error + ((int \<times> int) \<times> nat list)" where
  "rejection og (rx # ry # rs) =
     (let x = randint 0 (GAME_GRID_WIDTH - 1) rx;
          y = randint 0 (GAME_GRID_HEIGHT - 1) ry
      in if og ! nat x ! nat y = 0 then Inr ((x, y), rs) else rejection og rs)"
| "rejection og rs = Inl Exhausted"

text \<open>
  One pass of the counting scan over the cells in loop order. \<open>Inl\<close> is the cell the
  pass returned; \<open>Inr\<close> is the count with which the pass ran to its end.
\<close>

fun scan :: "int list list \<Rightarrow> int \<Rightarrow> (nat \<times> nat) list \<Rightarrow> int \<Rightarrow> (int \<times> int) + int" where
  "scan og chosen [] count = Inr count"
| "scan og chosen ((i, j) # cells) count =
     (if og ! i ! j = 0
      then (if count \<ge> chosen then Inl (int i, int j) else scan og chosen cells (count + 1))
      else scan og chosen cells count)"

definition grid_cells :: "nat \<Rightarrow> nat \<Rightarrow> (nat \<times> nat) list" where
  "grid_cells h w = concat (map (\<lambda>i. map (\<lambda>j. (i, j)) [0..<w]) [0..<h])"

definition randEmptySpace :: "GameGrid \<Rightarrow> nat list \<Rightarrow> error + ((int \<times> int) \<times> nat list)" where
  "randEmptySpace g rnd =
     (if 2 * int (length (occupied_spaces g)) < NUM_SPACES
      then rejection (occupied_grid g) rnd
      else (let empty_left = NUM_SPACES - int (length (occupied_spaces g))
            in if empty_left < 0 then Inl ValueError
               else case rnd of
                 [] \<Rightarrow> Inl Exhausted
               | r # rs \<Rightarrow>
                   (let chosen = randint 0 empty_left r;
                        cells = grid_cells (nat (height g)) (nat (width g))
                    in case scan (occupied_grid g) chosen cells 0 of
                         Inl c \<Rightarrow> Inr (c, rs)
                       | Inr count \<Rightarrow>
                           (case scan (occupied_grid g) chosen cells count of
                              Inl c \<Rightarrow> Inr (c, rs)
                            | Inr count' \<Rightarrow> Inl (SystemExit 9)))))"

definition genTile :: "GameGrid \<Rightarrow> int \<Rightarrow> int \<Rightarrow> nat list \<Rightarrow> error + (GridSpace option \<times> nat list)" where
  "genTile g x y rnd =
     (if NUM_SPACES \<le> int (length (occupied_spaces g)) then Inr (None, rnd)
      else if x < 0 \<or> x > GAME_GRID_WIDTH \<or> y < 0 \<or> y > GAME_GRID_HEIGHT
      then bindE (randEmptySpace g rnd)
             (\<lambda>(c, rnd'). Inr (Some (GridSpace_init (fst c) (snd c)), rnd'))
      else Inr (Some (GridSpace_init x y), rnd))"

definition addPlayer :: "GameGrid \<Rightarrow> int \<Rightarrow> int \<Rightarrow> nat list \<Rightarrow> error + (GameGrid \<times> nat list)" where
  "addPlayer g x y rnd =
     bindE (genTile g x y rnd)
       (\<lambda>(temp_tile, rnd').
          case temp_tile of
            None \<Rightarrow> Inr (g, rnd')
          | Some t \<Rightarrow> bindE (addTile g (setPlayer t)) (\<lambda>g'. Inr (g', rnd')))"

definition addFood :: "GameGrid \<Rightarrow> int \<Rightarrow> int \<Rightarrow> nat list \<Rightarrow> error + (GameGrid \<times> nat list)" where
  "addFood g x y rnd =
     bindE (genTile g x y rnd)
       (\<lambda>(temp_tile, rnd').
          case temp_tile of
            None \<Rightarrow> Inr (calcSmellMatrix g, rnd')
          | Some t \<Rightarrow> bindE (addTile g (setFood t)) (\<lambda>g'. Inr (calcSmellMatrix g', rnd')))"

section \<open>GameGrid: movement and adjacency\<close>

definition movePlayer :: "GameGrid \<Rightarrow> int \<Rightarrow> GameGrid" where
  "movePlayer g direction =
     (let m = move (player g) direction 1;
          g1 = g\<lparr>player := fst m\<rparr>;
          r = removeTile g1 (fst (snd m)) (snd (snd m))
      in if snd r = Some Food
         then calcSmellMatrix ((fst r)\<lparr>player := eatFood (player (fst r))\<rparr>)
         else fst r)"

definition checkForFood :: "GameGrid \<Rightarrow> int \<Rightarrow> int \<Rightarrow> bool" where
  "checkForFood g x y =
     (if checkOccupied g x y
      then (case getTile g x y of None \<Rightarrow> False | Some t \<Rightarrow> tile_type t = Some Food)
      else False)"

definition NORTH :: int where "NORTH = 0"
definition SOUTH :: int where "SOUTH = 1"
definition WEST :: int where "WEST = 2"
definition EAST :: int where "EAST = 3"

definition isPlayerNext2Food :: "GameGrid \<Rightarrow> int list option" where
  "isPlayerNext2Food g =
     (let x = tile_x (tile (player g));
          y = tile_y (tile (player g));
          food_tiles = (if checkForFood g (x - 1) y then [WEST] else [])
                     @ (if checkForFood g (x + 1) y then [EAST] else [])
                     @ (if checkForFood g x (y - 1) then [NORTH] else [])
                     @ (if checkForFood g x (y + 1) then [SOUTH] else [])
      in if food_tiles \<noteq> [] then Some food_tiles else None)"

section \<open>The decision policy\<close>

definition simple_mouse :: "nat list \<Rightarrow> error + (int \<times> nat list)" where
  "simple_mouse rnd = choice [0, 1, 2, 3] rnd"

definition np_any :: "real list list \<Rightarrow> bool" where
  "np_any m = list_ex (list_ex (\<lambda>v. v \<noteq> 0)) m"

definition py_max :: "real list \<Rightarrow> real" where
  "py_max xs = foldl max (hd xs) (tl xs)"

text \<open>
  \<open>smart_mouse\<close> reads the global game manager's grid for the adjacency test; the
  model takes that grid as its first argument.
\<close>

definition smart_mouse :: "GameGrid \<Rightarrow> real list list \<Rightarrow> nat list \<Rightarrow> error + (int \<times> nat list)" where
  "smart_mouse g scent_matrix rnd =
     (if \<not> np_any scent_matrix then simple_mouse rnd
      else
        (let north = (if USE_DIAGONAL_SCENT then sum_list (scent_matrix ! 0)
                      else scent_matrix ! 0 ! 1);
             south = (if USE_DIAGONAL_SCENT then sum_list (scent_matrix ! 2)
                      else scent_matrix ! 2 ! 1);
             west = (if USE_DIAGONAL_SCENT then sum_list (map (\<lambda>row. row ! 0) scent_matrix)
                     else scent_matrix ! 1 ! 0);
             east = (if USE_DIAGONAL_SCENT then sum_list (map (\<lambda>row. row ! 2) scent_matrix)
                     else scent_matrix ! 1 ! 2);
             movement_array = [north, south, west, east];
             nearby_food = isPlayerNext2Food g
         in case nearby_food of
              Some foods \<Rightarrow> choice foods rnd
            | None \<Rightarrow>
                (let indexes = map (\<lambda>i. int i)
                       (filter (\<lambda>i. movement_array ! i = py_max movement_array)
                          [0..<length movement_array])
                 in choice indexes rnd)))"

section \<open>GameState and GameManager\<close>

definition GameState_init :: "GameGrid \<Rightarrow> GameState" where
  "GameState_init g =
     \<lparr>player_loc_x = tile_x (tile (player g)),
      player_loc_y = tile_y (tile (player g)),
      player_energy = energy (player g),
      player_food_eaten = food_eaten (player g),
      player_score = score (player g),
      foods_loc = map (\<lambda>t. (tile_x t, tile_y t))
                    (filter (\<lambda>t. tile_type t = Some Food) (occupied_spaces g))\<rparr>"

definition restorePlayer :: "GameState \<Rightarrow> Player" where
  "restorePlayer s =
     (Player_init (player_loc_x s) (player_loc_y s))
       \<lparr>energy := player_energy s, food_eaten := player_food_eaten s, score := player_score s\<rparr>"

definition GameManager_init :: "int \<Rightarrow> int \<Rightarrow> nat list \<Rightarrow> error + (GameManager \<times> nat list)" where
  "GameManager_init w h rnd =
     bindE (addFood (GameGrid_init h w) (-1) (-1) rnd)
       (\<lambda>(g, rnd').
          Inr (\<lparr>game_grid = g, round_no = 0, paused = False, game_states = [],
                round_scores = []\<rparr>, rnd'))"

definition GameManager_reset :: "GameManager \<Rightarrow> GameManager" where
  "GameManager_reset gm = gm\<lparr>game_states := []\<rparr>"

definition endRound :: "GameManager \<Rightarrow> GameManager" where
  "endRound gm =
     (let gm1 = gm\<lparr>round_scores := round_scores gm @ [score (player (game_grid gm))]\<rparr>;
          gm2 = gm1\<lparr>game_grid := reset (game_grid gm1)\<rparr>;
          gm3 = gm2\<lparr>round_no := round_no gm2 + 1\<rparr>
      in GameManager_reset gm3)"

definition checkEndStates :: "GameManager \<Rightarrow> GameManager" where
  "checkEndStates gm =
     (if food_eaten (player (game_grid gm)) \<ge> FOOD_PER_ROUND then endRound gm
      else if \<not> alive (player (game_grid gm))
      then endRound (if DEATH_PENALTY
                     then gm\<lparr>game_grid := (game_grid gm)
                            \<lparr>player := (player (game_grid gm))\<lparr>score := 0\<rparr>\<rparr>\<rparr>
                     else gm)
      else gm)"

definition saveGameState :: "GameManager \<Rightarrow> GameManager" where
  "saveGameState gm =
     (let gm1 = (if int (length (game_states gm)) \<ge> MAX_SAVED_GAME_STATES
                 then gm\<lparr>game_states := drop 1 (game_states gm)\<rparr> else gm)
      in gm1\<lparr>game_states := game_states gm1 @ [GameState_init (game_grid gm1)]\<rparr>)"

fun add_foods :: "GameGrid \<Rightarrow> (int \<times> int) list \<Rightarrow> nat list \<Rightarrow> error + (GameGrid \<times> nat list)" where
  "add_foods g [] rnd = Inr (g, rnd)"
| "add_foods g (food # foods) rnd =
     bindE (addFood g (fst food) (snd food) rnd) (\<lambda>(g', rnd'). add_foods g' foods rnd')"

definition restoreGameState :: "GameManager \<Rightarrow> GameState \<Rightarrow> nat list \<Rightarrow> error + (GameManager \<times> nat list)" where
  "restoreGameState gm game_state rnd =
     (let g1 = reset (game_grid gm);
          g2 = g1\<lparr>player := restorePlayer game_state\<rparr>
      in bindE (add_foods g2 (foods_loc game_state) rnd)
           (\<lambda>(g3, rnd'). Inr (gm\<lparr>game_grid := g3\<rparr>, rnd')))"

text \<open>
  \<open>game_states[:-num_to_rewind]\<close> is the slice from 0 to \<open>-num_to_rewind\<close>, and
  \<open>game_states[-1]\<close> raises IndexError on an empty list.
\<close>

definition rewindGameState :: "GameManager \<Rightarrow> int \<Rightarrow> nat list \<Rightarrow> error + (GameManager \<times> nat list)" where
  "rewindGameState gm num_to_rewind rnd =
     (if length (game_states gm) \<le> 1 then Inr (gm, rnd)
      else
        (let n = (if num_to_rewind \<ge> int (length (game_states gm))
                  then int (length (game_states gm)) - 1 else num_to_rewind);
             gm1 = gm\<lparr>game_states := py_slice (game_states gm) 0 (- n)\<rparr>
         in if game_states gm1 = [] then Inl IndexError
            else restoreGameState gm1 (last (game_states gm1)) rnd))"

fun replenish :: "nat \<Rightarrow> GameGrid \<Rightarrow> nat list \<Rightarrow> error + (GameGrid \<times> nat list)" where
  "replenish 0 g rnd = Inr (g, rnd)"
| "replenish (Suc k) g rnd =
     bindE (addFood g (-1) (-1) rnd) (\<lambda>(g', rnd'). replenish k g' rnd')"

definition logicTick :: "GameManager \<Rightarrow> nat list \<Rightarrow> error + (GameManager \<times> nat list)" where
  "logicTick gm rnd =
     bindE (if occupied_spaces (game_grid gm) = []
            then replenish MAX_NUM_FOOD_ON_GRID (game_grid gm) rnd
            else Inr (game_grid gm, rnd))
       (\<lambda>(g1, rnd1).
          (let g2 = calcSmellMatrix g1;
               g3 = calcPlayerSense g2
           in bindE (smart_mouse g3 (smell_matrix (player g3)) rnd1)
                (\<lambda>(movement, rnd2).
                   (let g4 = movePlayer g3 movement;
                        gm1 = checkEndStates (gm\<lparr>game_grid := g4\<rparr>)
                    in Inr (saveGameState gm1, rnd2)))))"

section \<open>Predicates and concrete states used in the statements\<close>

text \<open>The sensed window is a 3 by 3 array.\<close>

definition window_shape :: "real list list \<Rightarrow> bool" where
  "window_shape m = (length m = 3 \<and> list_all (\<lambda>row. length row = 3) m)"

text \<open>The agent at (5, 5) with one food tile at (5, 4), the tile directly north.\<close>

definition north_food_grid :: GameGrid where
  "north_food_grid =
     (GameGrid_init GAME_GRID_WIDTH GAME_GRID_HEIGHT)
       \<lparr>occupied_spaces := [setFood (GridSpace_init 5 4)],
        occupied_grid := set2 (np_zeros 10 10) 5 4 1,
        player := Player_init 5 5\<rparr>"

text \<open>A manager whose history holds two snapshots.\<close>

definition two_snapshots :: GameManager where
  "two_snapshots =
     saveGameState (saveGameState
       \<lparr>game_grid = GameGrid_init GAME_GRID_WIDTH GAME_GRID_HEIGHT, round_no = 0,
        paused = False, game_states = [], round_scores = []\<rparr>)"

text \<open>A living agent at (2, 3) with no energy left and a food tile at (2, 2).\<close>

definition starving_grid :: GameGrid where
  "starving_grid =
     (GameGrid_init GAME_GRID_WIDTH GAME_GRID_HEIGHT)
       \<lparr>occupied_spaces := [setFood (GridSpace_init 2 2)],
        occupied_grid := set2 (np_zeros 10 10) 2 2 1,
        player := (Player_init 2 3)\<lparr>energy := 0\<rparr>\<rparr>"

text \<open>A grid with 98 food tiles: every cell but (0, 0) and (0, 1) is occupied.\<close>

definition crowded_grid :: GameGrid where
  "crowded_grid =
     (GameGrid_init GAME_GRID_WIDTH GAME_GRID_HEIGHT)
       \<lparr>occupied_spaces :=
          map (\<lambda>c. setFood (GridSpace_init (int (fst c)) (int (snd c))))
            (drop 2 (grid_cells 10 10)),
        occupied_grid :=
          map (\<lambda>i. map (\<lambda>j. if i = 0 \<and> j < 2 then 0 else 1) [0..<10]) [0..<10]\<rparr>"

text \<open>A manager with an empty history.\<close>

definition empty_history :: GameManager where
  "empty_history =
     \<lparr>game_grid = GameGrid_init GAME_GRID_WIDTH GAME_GRID_HEIGHT, round_no = 0,
      paused = False, game_states = [], round_scores = []\<rparr>"

text \<open>
  The positions of the food tiles of a grid, in the order of \<open>occupied_spaces\<close>: what a
  snapshot records as \<open>foods_loc\<close>.
\<close>

definition food_positions :: "GameGrid \<Rightarrow> (int \<times> int) list" where
  "food_positions g =
     map (\<lambda>t. (tile_x t, tile_y t))
       (filter (\<lambda>t. tile_type t = Some Food) (occupied_spaces g))"

definition foods_on_grid :: "GameGrid \<Rightarrow> bool" where
  "foods_on_grid g =
     (list_all (\<lambda>c. checkValidTile (fst c) (snd c)) (food_positions g) \<and>
      int (length (food_positions g)) \<le> NUM_SPACES)"

text \<open>An array of the shape (GAME_GRID_WIDTH, GAME_GRID_HEIGHT).\<close>

definition grid_shape :: "'a list list \<Rightarrow> bool" where
  "grid_shape a =
     (length a = nat GAME_GRID_WIDTH \<and>
      list_all (\<lambda>row. length row = nat GAME_GRID_HEIGHT) a)"

text \<open>
  Saving one snapshot per grid of a list: the live grid is whatever the ticks made of
  it by the time of each \<open>saveGameState\<close>.
\<close>

fun push_snapshots :: "GameManager \<Rightarrow> GameGrid list \<Rightarrow> GameManager" where
  "push_snapshots gm [] = gm"
| "push_snapshots gm (g # gs) = push_snapshots (saveGameState (gm\<lparr>game_grid := g\<rparr>)) gs"

text \<open>
  The grid the program maintains: the configured size, every tile on the grid, no two
  tiles at one position, and \<open>occupied_grid\<close> holding 1 exactly at the positions of
  the tiles of \<open>occupied_spaces\<close>.
\<close>

definition positions :: "GridSpace list \<Rightarrow> (int \<times> int) list" where
  "positions ts = map (\<lambda>t. (tile_x t, tile_y t)) ts"

definition marks_agree :: "GameGrid \<Rightarrow> bool" where
  "marks_agree g =
     list_all
       (\<lambda>c. occupied_grid g ! fst c ! snd c =
              (if (int (fst c), int (snd c)) \<in> set (positions (occupied_spaces g)) then 1 else 0))
       (grid_cells (nat GAME_GRID_WIDTH) (nat GAME_GRID_HEIGHT))"

definition valid_grid :: "GameGrid \<Rightarrow> bool" where
  "valid_grid g =
     (width g = GAME_GRID_WIDTH \<and> height g = GAME_GRID_HEIGHT \<and>
      grid_shape (occupied_grid g) \<and>
      list_all (\<lambda>t. checkValidTile (tile_x t) (tile_y t)) (occupied_spaces g) \<and>
      distinct (positions (occupied_spaces g)) \<and>
      marks_agree g)"

text \<open>
  The managers a run can be in between two ticks: the one \<open>GameManager.__init__\<close>
  builds, and whatever \<open>logicTick\<close> returns from one of them, for any random draws.
\<close>

inductive reachable :: "GameManager \<Rightarrow> bool" where
  fresh: "GameManager_init GAME_GRID_WIDTH GAME_GRID_HEIGHT rnd = Inr (gm, rnd') \<Longrightarrow> reachable gm"
| tick: "reachable gm \<Longrightarrow> logicTick gm rnd = Inr (gm', rnd') \<Longrightarrow> reachable gm'"

text \<open>What holds of the agent, and of the manager, between two ticks.\<close>

definition agent_ok :: "Player \<Rightarrow> bool" where
  "agent_ok p =
     (alive p \<and> 0 \<le> energy p \<and> energy p \<le> MAX_ENERGY \<and> max_energy p = MAX_ENERGY \<and>
      0 \<le> score p \<and> 0 \<le> food_eaten p)"

definition tick_inv :: "GameManager \<Rightarrow> bool" where
  "tick_inv gm =
     (valid_grid (game_grid gm) \<and>
      list_all (\<lambda>t. tile_type t = Some Food) (occupied_spaces (game_grid gm)) \<and>
      length (occupied_spaces (game_grid gm)) \<le> MAX_NUM_FOOD_ON_GRID \<and>
      checkValidTile (tile_x (tile (player (game_grid gm)))) (tile_y (tile (player (game_grid gm)))) \<and>
      agent_ok (player (game_grid gm)))"

text \<open>
  The manager \<open>GameManager.__init__\<close> builds when its first food lands on (x, y), and
  the manager one tick after the one whose food lies at (0, 1), south of the agent.
\<close>

definition fresh_with_food :: "int \<Rightarrow> int \<Rightarrow> GameManager" where
  "fresh_with_food x y =
     \<lparr>game_grid = calcSmellMatrix ((GameGrid_init GAME_GRID_HEIGHT GAME_GRID_WIDTH)
        \<lparr>occupied_spaces := [setFood (GridSpace_init x y)],
         occupied_grid :=
           set2 (occupied_grid (GameGrid_init GAME_GRID_HEIGHT GAME_GRID_WIDTH)) (nat x) (nat y) 1\<rparr>),
      round_no = 0, paused = False, game_states = [], round_scores = []\<rparr>"

definition after_one_tick :: GameManager where
  "after_one_tick =
     saveGameState (checkEndStates ((fresh_with_food 0 1)
       \<lparr>game_grid :=
          movePlayer (calcPlayerSense (calcSmellMatrix (game_grid (fresh_with_food 0 1)))) SOUTH\<rparr>))"

text \<open>
  For the scent field: an array of shape (w, h); the rounded contribution
  \<open>round(dist, 5)\<close> that the loop body of \<open>calcSmellMatrix\<close> computes for the tile
  \<open>t\<close> at the loop indices \<open>i\<close>, \<open>j\<close>; what one tile does to the value \<open>v\<close> of the
  cell \<open>smell_grid[a][b]\<close> in stacking mode; and what a list of tiles does to it.
\<close>

definition shaped :: "nat \<Rightarrow> nat \<Rightarrow> 'a list list \<Rightarrow> bool" where
  "shaped w h a = (length a = w \<and> list_all (\<lambda>row. length row = h) a)"

definition scent :: "GridSpace \<Rightarrow> nat \<Rightarrow> nat \<Rightarrow> real" where
  "scent t i j =
     py_round (1 / (euclidean (real i, real j) (of_int (tile_x t), of_int (tile_y t)) + 1)) 5"

definition stack_step :: "GridSpace \<Rightarrow> real \<Rightarrow> nat \<Rightarrow> nat \<Rightarrow> real" where
  "stack_step t v a b =
     (if int a = tile_x t \<and> int b = tile_y t then scent t b a else v + scent t b a)"

fun stack_cell :: "real \<Rightarrow> GridSpace list \<Rightarrow> nat \<Rightarrow> nat \<Rightarrow> real" where
  "stack_cell v [] a b = v"
| "stack_cell v (t # ts) a b = stack_cell (stack_step t v a b) ts a b"

text \<open>The grid with food tiles at the given positions, in that order.\<close>

definition grid_with_foods :: "(int \<times> int) list \<Rightarrow> GameGrid" where
  "grid_with_foods ps =
     (GameGrid_init GAME_GRID_WIDTH GAME_GRID_HEIGHT)
       \<lparr>occupied_spaces := map (\<lambda>c. setFood (GridSpace_init (fst c) (snd c))) ps,
        occupied_grid :=
          foldl (\<lambda>a c. set2 a (nat (fst c)) (nat (snd c)) 1)
            (occupied_grid (GameGrid_init GAME_GRID_WIDTH GAME_GRID_HEIGHT)) ps\<rparr>"

section \<open>An explicit store: the objects of the live grid and of a snapshot\<close>

text \<open>
  The records above are values: a tile held twice and two equal tiles are the same
  record. Whether a snapshot and the live grid have an object in common is a question
  about the objects themselves, so the methods that save and restore are modelled once
  more on a store. The store is the list of the objects allocated so far, an address
  is an index into it, and an allocation appends. Integers, booleans and the type
  string of a tile are immutable and stand inside the object that holds them; what
  refers to a mutable object (a GridSpace, a Player, a list, a numpy array, a
  GameState, the GameGrid) is an address. An element of a list is an integer or a
  reference. The arguments of a constructor are the attributes of the class in the
  order of the records above: \<open>PlayerO tile food_eaten max_energy energy alive
  smell_matrix score\<close>, \<open>GameStateO player_loc_x player_loc_y player_energy
  player_food_eaten player_score foods_loc\<close>, \<open>GameGridO width height smell_grid
  occupied_grid occupied_spaces player\<close>.
\<close>

type_synonym addr = nat

datatype val = IntV int | RefV addr

datatype obj =
    GridSpaceO GridSpace
  | PlayerO addr int int int bool addr int
  | ListO "val list"
  | FloatArrayO "real list list"
  | IntArrayO "int list list"
  | GameStateO int int int int int addr
  | GameGridO int int addr addr addr addr

type_synonym store = "obj list"

text \<open>
  A call on the store ends in one of the errors above or, where an attribute holds an
  object of another class than the code reads from it, in \<open>IllFormed\<close>: no run of the
  program gets there, an attribute holding what was assigned to it.
\<close>

datatype fault = Raises error | IllFormed

definition bindF :: "fault + 'a \<Rightarrow> ('a \<Rightarrow> fault + 'b) \<Rightarrow> fault + 'b" where
  "bindF m f = (case m of Inl e \<Rightarrow> Inl e | Inr v \<Rightarrow> f v)"

definition deref :: "store \<Rightarrow> addr \<Rightarrow> obj option" where
  "deref h a = (if a < length h then Some (h ! a) else None)"

definition alloc :: "store \<Rightarrow> obj \<Rightarrow> addr \<times> store" where
  "alloc h v = (length h, h @ [v])"

text \<open>
  Of the GameManager the two attributes that refer to mutable objects matter here:
  \<open>game_grid\<close>, which is assigned once, and \<open>game_states\<close>.
\<close>

record Manager_st =
  grid_at :: addr
  states_at :: addr

text \<open>
  What the objects of a GameGrid, and of a GameState, amount to as a value of the records
  above. Where the source only reads (the attributes a constructor copies, the tests
  of \<open>genTile\<close>, the scent field) the store functions read through these views.
\<close>

fun tiles_at :: "store \<Rightarrow> val list \<Rightarrow> GridSpace list option" where
  "tiles_at h [] = Some []"
| "tiles_at h (RefV a # vs) =
     (case deref h a of
        Some (GridSpaceO t) \<Rightarrow> map_option (Cons t) (tiles_at h vs)
      | _ \<Rightarrow> None)"
| "tiles_at h (IntV i # vs) = None"

definition player_view :: "store \<Rightarrow> addr \<Rightarrow> Player option" where
  "player_view h a =
     (case deref h a of
        Some (PlayerO t fe me e al sm sc) \<Rightarrow>
          (case deref h t of
             Some (GridSpaceO tv) \<Rightarrow>
               (case deref h sm of
                  Some (FloatArrayO m) \<Rightarrow>
                    Some \<lparr>tile = tv, food_eaten = fe, max_energy = me, energy = e, alive = al,
                          smell_matrix = m, score = sc\<rparr>
                | _ \<Rightarrow> None)
           | _ \<Rightarrow> None)
      | _ \<Rightarrow> None)"

definition grid_view :: "store \<Rightarrow> addr \<Rightarrow> GameGrid option" where
  "grid_view h g =
     (case deref h g of
        Some (GameGridO w ht sm oc ls pl) \<Rightarrow>
          (case deref h sm of
             Some (FloatArrayO s) \<Rightarrow>
               (case deref h oc of
                  Some (IntArrayO occ) \<Rightarrow>
                    (case deref h ls of
                       Some (ListO vs) \<Rightarrow>
                         (case tiles_at h vs of
                            Some ts \<Rightarrow>
                              (case player_view h pl of
                                 Some p \<Rightarrow>
                                   Some \<lparr>width = w, height = ht, smell_grid = s,
                                         occupied_grid = occ, occupied_spaces = ts, player = p\<rparr>
                               | None \<Rightarrow> None)
                          | None \<Rightarrow> None)
                     | _ \<Rightarrow> None)
                | _ \<Rightarrow> None)
           | _ \<Rightarrow> None)
      | _ \<Rightarrow> None)"

fun pairs_at :: "store \<Rightarrow> val list \<Rightarrow> (int \<times> int) list option" where
  "pairs_at h [] = Some []"
| "pairs_at h (RefV a # vs) =
     (case deref h a of
        Some (ListO [IntV x, IntV y]) \<Rightarrow> map_option (Cons (x, y)) (pairs_at h vs)
      | _ \<Rightarrow> None)"
| "pairs_at h (IntV i # vs) = None"

definition snapshot_view :: "store \<Rightarrow> addr \<Rightarrow> GameState option" where
  "snapshot_view h s =
     (case deref h s of
        Some (GameStateO x y e fe sc fl) \<Rightarrow>
          (case deref h fl of
             Some (ListO vs) \<Rightarrow>
               (case pairs_at h vs of
                  Some ps \<Rightarrow>
                    Some \<lparr>player_loc_x = x, player_loc_y = y, player_energy = e,
                          player_food_eaten = fe, player_score = sc, foods_loc = ps\<rparr>
                | None \<Rightarrow> None)
           | _ \<Rightarrow> None)
      | _ \<Rightarrow> None)"

text \<open>
  The references an object holds, and the objects that can be reached from an address
  by following references. Two objects share mutable structure when some object can
  be reached from both.
\<close>

fun refs :: "val list \<Rightarrow> addr list" where
  "refs [] = []"
| "refs (RefV a # vs) = a # refs vs"
| "refs (IntV i # vs) = refs vs"

definition object_refs :: "obj \<Rightarrow> addr list" where
  "object_refs v =
     (case v of
        PlayerO t fe me e al sm sc \<Rightarrow> [t, sm]
      | ListO vs \<Rightarrow> refs vs
      | GameStateO x y e fe sc fl \<Rightarrow> [fl]
      | GameGridO w ht sm oc ls pl \<Rightarrow> [sm, oc, ls, pl]
      | _ \<Rightarrow> [])"

inductive reaches :: "store \<Rightarrow> addr \<Rightarrow> addr \<Rightarrow> bool" for h :: store and a :: addr where
  here: "reaches h a a"
| follow: "reaches h a b \<Longrightarrow> deref h b = Some v \<Longrightarrow> c \<in> set (object_refs v) \<Longrightarrow> reaches h a c"

code_pred reaches .

definition shares :: "store \<Rightarrow> addr \<Rightarrow> addr \<Rightarrow> bool" where
  "shares h a b = (\<exists>c. reaches h a c \<and> reaches h b c)"

text \<open>
  The objects of a snapshot and of a grid, by the attributes of their classes.
\<close>

definition snapshot_addrs :: "store \<Rightarrow> addr \<Rightarrow> addr set" where
  "snapshot_addrs h s =
     (case deref h s of
        Some (GameStateO x y e fe sc fl) \<Rightarrow>
          insert s (insert fl
            (case deref h fl of Some (ListO vs) \<Rightarrow> set (refs vs) | _ \<Rightarrow> {}))
      | _ \<Rightarrow> {s})"

definition grid_addrs :: "store \<Rightarrow> addr \<Rightarrow> addr set" where
  "grid_addrs h g =
     (case deref h g of
        Some (GameGridO w ht sm oc ls pl) \<Rightarrow>
          {g, sm, oc, ls, pl} \<union>
          (case deref h ls of Some (ListO vs) \<Rightarrow> set (refs vs) | _ \<Rightarrow> {}) \<union>
          (case deref h pl of Some (PlayerO t fe me e al psm sc) \<Rightarrow> {t, psm} | _ \<Rightarrow> {})
      | _ \<Rightarrow> {g})"

text \<open>
  The methods that save and restore, on the store. A constructor call, a list display
  and \<open>np.zeros\<close> allocate; an attribute assignment, an \<open>append\<close> and an indexed write
  update in place the object they are applied to. A constructor allocates the objects
  of its attributes before the object itself: addresses are names, and nothing depends
  on their order.
\<close>

definition list_append :: "store \<Rightarrow> addr \<Rightarrow> val \<Rightarrow> fault + store" where
  "list_append h a v =
     (case deref h a of
        Some (ListO vs) \<Rightarrow> Inr (h[a := ListO (vs @ [v])])
      | _ \<Rightarrow> Inl IllFormed)"

definition Player_new :: "store \<Rightarrow> int \<Rightarrow> int \<Rightarrow> addr \<times> store" where
  "Player_new h x y =
     (let (t, h1) = alloc h (GridSpaceO (GridSpace_init x y));
          h2 = h1[t := GridSpaceO (setPlayer (GridSpace_init x y))];
          (sm, h3) = alloc h2 (FloatArrayO (np_zeros 3 3))
      in alloc h3 (PlayerO t 0 MAX_ENERGY MAX_ENERGY True sm 0))"

definition reset_st :: "store \<Rightarrow> addr \<Rightarrow> fault + store" where
  "reset_st h g =
     (case deref h g of
        Some (GameGridO w ht sm0 oc0 ls0 pl0) \<Rightarrow>
          (let (sm, h1) = alloc h (FloatArrayO (np_zeros (nat w) (nat ht)));
               (oc, h2) = alloc h1 (IntArrayO (np_zeros (nat w) (nat ht)));
               (ls, h3) = alloc h2 (ListO []);
               (pl, h4) = Player_new h3 0 0
           in Inr (h4[g := GameGridO w ht sm oc ls pl]))
      | _ \<Rightarrow> Inl IllFormed)"

text \<open>
  \<open>GameState.__init__\<close> copies five integers of the agent and, for each food tile,
  appends a new two-element list of its coordinates to a new list.
\<close>

fun capture_foods :: "store \<Rightarrow> addr \<Rightarrow> GridSpace list \<Rightarrow> fault + store" where
  "capture_foods h fl [] = Inr h"
| "capture_foods h fl (t # ts) =
     (if tile_type t = Some Food
      then (let (l, h1) = alloc h (ListO [IntV (tile_x t), IntV (tile_y t)])
            in bindF (list_append h1 fl (RefV l)) (\<lambda>h2. capture_foods h2 fl ts))
      else capture_foods h fl ts)"

definition GameState_new :: "store \<Rightarrow> addr \<Rightarrow> fault + (addr \<times> store)" where
  "GameState_new h g =
     (case grid_view h g of
        None \<Rightarrow> Inl IllFormed
      | Some gv \<Rightarrow>
          (let (fl, h1) = alloc h (ListO [])
           in bindF (capture_foods h1 fl (occupied_spaces gv))
                (\<lambda>h2. Inr (alloc h2
                   (GameStateO (tile_x (tile (player gv))) (tile_y (tile (player gv)))
                      (energy (player gv)) (food_eaten (player gv)) (score (player gv)) fl)))))"

text \<open>
  \<open>restorePlayer\<close> builds a new Player from the two coordinates and assigns it the three
  saved integers.
\<close>

definition restorePlayer_st :: "store \<Rightarrow> addr \<Rightarrow> fault + (addr \<times> store)" where
  "restorePlayer_st h s =
     (case deref h s of
        Some (GameStateO x y e fe sc fl) \<Rightarrow>
          (let (pl, h1) = Player_new h x y
           in case deref h1 pl of
                Some (PlayerO t fe0 me e0 al sm sc0) \<Rightarrow>
                  Inr (pl, h1[pl := PlayerO t fe me e al sm sc])
              | _ \<Rightarrow> Inl IllFormed)
      | _ \<Rightarrow> Inl IllFormed)"

text \<open>
  \<open>addTile\<close> appends the reference of the tile to the list of the grid and writes to the
  array of the grid; \<open>calcSmellMatrix\<close> assigns a new array; \<open>addFood\<close> places the new tile
  \<open>genTile\<close> returns.
\<close>

definition addTile_st :: "store \<Rightarrow> addr \<Rightarrow> addr \<Rightarrow> fault + store" where
  "addTile_st h g a =
     (case deref h g of
        Some (GameGridO w ht sm oc ls pl) \<Rightarrow>
          (case deref h a of
             Some (GridSpaceO t) \<Rightarrow>
               bindF (list_append h ls (RefV a))
                 (\<lambda>h1. case deref h1 oc of
                          Some (IntArrayO occ) \<Rightarrow>
                            (case np_index (length occ) (tile_x t) of
                               None \<Rightarrow> Inl (Raises IndexError)
                             | Some r \<Rightarrow>
                                 (case np_index (length (occ ! r)) (tile_y t) of
                                    None \<Rightarrow> Inl (Raises IndexError)
                                  | Some c \<Rightarrow> Inr (h1[oc := IntArrayO (set2 occ r c 1)])))
                        | _ \<Rightarrow> Inl IllFormed)
           | _ \<Rightarrow> Inl IllFormed)
      | _ \<Rightarrow> Inl IllFormed)"

definition calcSmellMatrix_st :: "store \<Rightarrow> addr \<Rightarrow> fault + store" where
  "calcSmellMatrix_st h g =
     (case grid_view h g of
        None \<Rightarrow> Inl IllFormed
      | Some gv \<Rightarrow>
          (case deref h g of
             Some (GameGridO w ht sm0 oc ls pl) \<Rightarrow>
               (let (sm, h1) = alloc h (FloatArrayO (smell_grid (calcSmellMatrix gv)))
                in Inr (h1[g := GameGridO w ht sm oc ls pl]))
           | _ \<Rightarrow> Inl IllFormed))"

definition addFood_st :: "store \<Rightarrow> addr \<Rightarrow> int \<Rightarrow> int \<Rightarrow> nat list \<Rightarrow> fault + (store \<times> nat list)" where
  "addFood_st h g x y rnd =
     (case grid_view h g of
        None \<Rightarrow> Inl IllFormed
      | Some gv \<Rightarrow>
          (case genTile gv x y rnd of
             Inl e \<Rightarrow> Inl (Raises e)
           | Inr (temp_tile, rnd') \<Rightarrow>
               (case temp_tile of
                  None \<Rightarrow> bindF (calcSmellMatrix_st h g) (\<lambda>h'. Inr (h', rnd'))
                | Some t \<Rightarrow>
                    (let (a, h1) = alloc h (GridSpaceO t);
                         h2 = h1[a := GridSpaceO (setFood t)]
                     in bindF (addTile_st h2 g a)
                          (\<lambda>h3. bindF (calcSmellMatrix_st h3 g) (\<lambda>h4. Inr (h4, rnd')))))))"

fun add_foods_st :: "store \<Rightarrow> addr \<Rightarrow> (int \<times> int) list \<Rightarrow> nat list \<Rightarrow> fault + (store \<times> nat list)" where
  "add_foods_st h g [] rnd = Inr (h, rnd)"
| "add_foods_st h g (food # foods) rnd =
     bindF (addFood_st h g (fst food) (snd food) rnd)
       (\<lambda>(h', rnd'). add_foods_st h' g foods rnd')"

text \<open>
  \<open>restoreGameState\<close>. The loop over \<open>foods_loc\<close> takes the two integers of each element;
  \<open>addFood\<close> writes to the objects of the grid, which \<open>reset\<close> has just allocated, so the
  list is read once.
\<close>

definition restoreGameState_st ::
  "store \<Rightarrow> Manager_st \<Rightarrow> addr \<Rightarrow> nat list \<Rightarrow> fault + ((store \<times> Manager_st) \<times> nat list)" where
  "restoreGameState_st h m s rnd =
     bindF (reset_st h (grid_at m))
       (\<lambda>h1. bindF (restorePlayer_st h1 s)
          (\<lambda>(pl, h2).
             case deref h2 (grid_at m) of
               Some (GameGridO w ht sm oc ls pl0) \<Rightarrow>
                 (let h3 = h2[grid_at m := GameGridO w ht sm oc ls pl]
                  in case snapshot_view h3 s of
                       None \<Rightarrow> Inl IllFormed
                     | Some sv \<Rightarrow>
                         bindF (add_foods_st h3 (grid_at m) (foods_loc sv) rnd)
                           (\<lambda>(h4, rnd'). Inr ((h4, m), rnd')))
             | _ \<Rightarrow> Inl IllFormed))"

text \<open>
  \<open>saveGameState\<close> and \<open>rewindGameState\<close>: a slice is a new list of the same references.
\<close>

definition saveGameState_st :: "store \<Rightarrow> Manager_st \<Rightarrow> fault + (store \<times> Manager_st)" where
  "saveGameState_st h m =
     (case deref h (states_at m) of
        Some (ListO ss) \<Rightarrow>
          (let (h1, m1) =
                 (if int (length ss) \<ge> MAX_SAVED_GAME_STATES
                  then (let (a, h') = alloc h (ListO (drop 1 ss)) in (h', m\<lparr>states_at := a\<rparr>))
                  else (h, m))
           in bindF (GameState_new h1 (grid_at m1))
                (\<lambda>(s, h2). bindF (list_append h2 (states_at m1) (RefV s))
                   (\<lambda>h3. Inr (h3, m1))))
      | _ \<Rightarrow> Inl IllFormed)"

definition rewindGameState_st ::
  "store \<Rightarrow> Manager_st \<Rightarrow> int \<Rightarrow> nat list \<Rightarrow> fault + ((store \<times> Manager_st) \<times> nat list)" where
  "rewindGameState_st h m num_to_rewind rnd =
     (case deref h (states_at m) of
        Some (ListO ss) \<Rightarrow>
          (if length ss \<le> 1 then Inr ((h, m), rnd)
           else
             (let n = (if num_to_rewind \<ge> int (length ss) then int (length ss) - 1
                       else num_to_rewind);
                  (a, h1) = alloc h (ListO (py_slice ss 0 (- n)));
                  m1 = m\<lparr>states_at := a\<rparr>
              in case py_slice ss 0 (- n) of
                   [] \<Rightarrow> Inl (Raises IndexError)
                 | _ \<Rightarrow>
                     (case last (py_slice ss 0 (- n)) of
                        RefV s \<Rightarrow> restoreGameState_st h1 m1 s rnd
                      | IntV i \<Rightarrow> Inl IllFormed)))
      | _ \<Rightarrow> Inl IllFormed)"

text \<open>
  The live grid as the ticks since the last save left it: any grid, held in objects of
  its own, under the GameGrid object the manager keeps. Saving one snapshot per grid
  of a list, as \<open>push_snapshots\<close> does on the records.
\<close>

fun alloc_tiles :: "store \<Rightarrow> GridSpace list \<Rightarrow> val list \<times> store" where
  "alloc_tiles h [] = ([], h)"
| "alloc_tiles h (t # ts) =
     (let (a, h1) = alloc h (GridSpaceO t);
          (vs, h2) = alloc_tiles h1 ts
      in (RefV a # vs, h2))"

definition install_grid :: "store \<Rightarrow> addr \<Rightarrow> GameGrid \<Rightarrow> store" where
  "install_grid h g gv =
     (let (vs, h1) = alloc_tiles h (occupied_spaces gv);
          (ls, h2) = alloc h1 (ListO vs);
          (sm, h3) = alloc h2 (FloatArrayO (smell_grid gv));
          (oc, h4) = alloc h3 (IntArrayO (occupied_grid gv));
          (t, h5) = alloc h4 (GridSpaceO (tile (player gv)));
          (psm, h6) = alloc h5 (FloatArrayO (smell_matrix (player gv)));
          (pl, h7) = alloc h6 (PlayerO t (food_eaten (player gv)) (max_energy (player gv))
                       (energy (player gv)) (alive (player gv)) psm (score (player gv)))
      in h7[g := GameGridO (width gv) (height gv) sm oc ls pl])"

fun push_snapshots_st :: "store \<Rightarrow> Manager_st \<Rightarrow> GameGrid list \<Rightarrow> fault + (store \<times> Manager_st)" where
  "push_snapshots_st h m [] = Inr (h, m)"
| "push_snapshots_st h m (gv # gvs) =
     bindF (saveGameState_st (install_grid h (grid_at m) gv) m)
       (\<lambda>(h', m'). push_snapshots_st h' m' gvs)"

text \<open>
  An agent at (5, 5) that has eaten twice, with energy 57 and score 30, and one food
  tile at (5, 4); and the store of a manager that has saved nothing yet: its GameGrid
  at address 0, its empty history at address 7.
\<close>

definition fed_grid :: GameGrid where
  "fed_grid =
     north_food_grid\<lparr>player := (Player_init 5 5)\<lparr>energy := 57, food_eaten := 2, score := 30\<rparr>\<rparr>"

definition start_store :: store where
  "start_store =
     [GameGridO GAME_GRID_WIDTH GAME_GRID_HEIGHT 1 2 3 4,
      FloatArrayO (np_zeros 10 10), IntArrayO (np_zeros 10 10), ListO [],
      PlayerO 5 0 MAX_ENERGY MAX_ENERGY True 6 0,
      GridSpaceO (setPlayer (GridSpace_init 0 0)), FloatArrayO (np_zeros 3 3),
      ListO []]"

definition start_manager :: Manager_st where
  "start_manager = \<lparr>grid_at = 0, states_at = 7\<rparr>"

section \<open>Basic facts\<close>

lemmas config_defs =
  GAME_GRID_WIDTH_def GAME_GRID_HEIGHT_def NUM_SPACES_def MAX_ENERGY_def ENERGY_PER_FOOD_def
  FOOD_PER_ROUND_def MAX_SAVED_GAME_STATES_def DEFAULT_TERRAIN_DIFFICULTY_def
  MAX_NUM_FOOD_ON_GRID_def NORTH_def SOUTH_def WEST_def EAST_def

lemmas tile_defs =
  checkForFood_def checkOccupied_def checkValidTile_def getTile_def Player_init_def
  GridSpace_init_def setFood_def setPlayer_def GameGrid_init_def reset_def set2_def np_zeros_def

lemma bindE_simps [simp]:
  "bindE (Inl e) f = Inl e"
  "bindE (Inr v) f = f v"
  by (simp_all add: bindE_def)

lemma bindE_eq_Inr: "bindE m f = Inr r \<longleftrightarrow> (\<exists>v. m = Inr v \<and> f v = Inr r)"
  by (cases m) simp_all

lemma calcSmellMatrix_fields [simp]:
  "occupied_spaces (calcSmellMatrix g) = occupied_spaces g"
  "occupied_grid (calcSmellMatrix g) = occupied_grid g"
  "player (calcSmellMatrix g) = player g"
  "width (calcSmellMatrix g) = width g"
  "height (calcSmellMatrix g) = height g"
  by (simp_all add: calcSmellMatrix_def)

lemma upt_10: "[0..<10] = [0, 1, 2, 3, 4, 5, 6, 7, 8, 9::nat]"
  by (simp add: upt_conv_Cons)

section \<open>The decision policy: adjacency and the all-zero window\<close>

text \<open>
  C1, as stated, fails. \<open>smart_mouse\<close> tests the window first: on an all-zero window
  it returns \<open>simple_mouse()\<close> before it looks at the neighbouring tiles. With the
  agent at (5, 5), food at (5, 4) and an all-zero window, the draw 1 sends it South.
\<close>

theorem smart_mouse_zero_window_ignores_food:
  "tile_x (tile (player north_food_grid)) = 5 \<and> tile_y (tile (player north_food_grid)) = 5 \<and>
   checkForFood north_food_grid 5 4 \<and> \<not> np_any (np_zeros 3 3) \<and>
   smart_mouse north_food_grid (np_zeros 3 3) [1] = Inr (SOUTH, [])"
proof -
  have p: "tile_x (tile (player north_food_grid)) = 5 \<and>
      tile_y (tile (player north_food_grid)) = 5"
    by (simp add: north_food_grid_def tile_defs)
  have f: "checkForFood north_food_grid 5 4"
    by (simp add: north_food_grid_def tile_defs config_defs eval_nat_numeral)
  have z: "\<not> np_any (np_zeros 3 3)"
    by (simp add: np_any_def np_zeros_def eval_nat_numeral)
  have "smart_mouse north_food_grid (np_zeros 3 3) [1] = Inr (SOUTH, [])"
    using z by (simp add: smart_mouse_def simple_mouse_def choice_def SOUTH_def)
  with p f z show ?thesis by blast
qed

text \<open>
  C1, amended. When the sensed window is not all zeros and the tile directly north of
  the agent is the only orthogonally adjacent tile that holds food, \<open>smart_mouse\<close>
  returns North for every outcome of the random source.
\<close>

theorem smart_mouse_adjacent_north:
  assumes "window_shape m" and "np_any m"
    and "checkForFood g (tile_x (tile (player g))) (tile_y (tile (player g)) - 1)"
    and "\<not> checkForFood g (tile_x (tile (player g)) - 1) (tile_y (tile (player g)))"
    and "\<not> checkForFood g (tile_x (tile (player g)) + 1) (tile_y (tile (player g)))"
    and "\<not> checkForFood g (tile_x (tile (player g))) (tile_y (tile (player g)) + 1)"
  shows "smart_mouse g m (r # rs) = Inr (NORTH, rs)"
  using assms by (simp add: smart_mouse_def isPlayerNext2Food_def choice_def Let_def)

theorem smart_mouse_adjacent_north_witness:
  "window_shape [[0, 1, 0], [0, 0, 0], [0, 0, 0]] \<and> np_any [[0, 1, 0], [0, 0, 0], [0, 0, 0]] \<and>
   checkForFood north_food_grid 5 4 \<and> \<not> checkForFood north_food_grid 4 5 \<and>
   \<not> checkForFood north_food_grid 6 5 \<and> \<not> checkForFood north_food_grid 5 6 \<and>
   smart_mouse north_food_grid [[0, 1, 0], [0, 0, 0], [0, 0, 0]] [1] = Inr (NORTH, [])"
proof -
  have p: "tile_x (tile (player north_food_grid)) = 5"
    "tile_y (tile (player north_food_grid)) = 5"
    by (simp_all add: north_food_grid_def tile_defs)
  have w: "window_shape [[0, 1, 0], [0, 0, 0], [0, 0, 0]]"
    "np_any [[0, 1, 0], [0, 0, 0], [0, 0, 0]]"
    by (simp_all add: window_shape_def np_any_def)
  have f: "checkForFood north_food_grid 5 4" "\<not> checkForFood north_food_grid 4 5"
    "\<not> checkForFood north_food_grid 6 5" "\<not> checkForFood north_food_grid 5 6"
    by (simp_all add: north_food_grid_def tile_defs config_defs eval_nat_numeral)
  show ?thesis
    using smart_mouse_adjacent_north
      [of "[[0, 1, 0], [0, 0, 0], [0, 0, 0]]" north_food_grid 1 "[]"] w f
    by (simp add: p)
qed

section \<open>Rewinding by zero\<close>

text \<open>
  C2. With two or more snapshots in the history, \<open>rewindGameState(0)\<close> does not leave
  the state as it is: the slice \<open>game_states[:-0]\<close> is \<open>game_states[:0]\<close>, the empty
  list, and the read \<open>game_states[-1]\<close> that follows raises IndexError.
\<close>

theorem rewind_zero_raises:
  "2 \<le> length (game_states gm) \<Longrightarrow> rewindGameState gm 0 rnd = Inl IndexError"
  by (simp add: rewindGameState_def py_slice_def py_bound_def Let_def)

theorem rewind_zero_raises_witness:
  "2 \<le> length (game_states two_snapshots) \<and>
   rewindGameState two_snapshots 0 [] = Inl IndexError"
proof -
  have h: "2 \<le> length (game_states two_snapshots)"
    by (simp add: two_snapshots_def saveGameState_def Let_def config_defs)
  from h rewind_zero_raises [OF h, of "[]"] show ?thesis
    by (rule conjI)
qed

section \<open>The counting scan of randEmptySpace\<close>

lemma crowded_grid_length: "length (occupied_spaces crowded_grid) = 98"
  by (simp add: crowded_grid_def grid_cells_def upt_10)

lemma crowded_grid_dims: "width crowded_grid = 10" "height crowded_grid = 10"
  by (simp_all add: crowded_grid_def GameGrid_init_def reset_def config_defs)

lemma crowded_grid_scan:
  "scan (occupied_grid crowded_grid) 0 (grid_cells 10 10) 0 = Inl (0, 0)"
  "scan (occupied_grid crowded_grid) 1 (grid_cells 10 10) 0 = Inl (0, 1)"
  "scan (occupied_grid crowded_grid) 2 (grid_cells 10 10) 0 = Inr 2"
  "scan (occupied_grid crowded_grid) 2 (grid_cells 10 10) 2 = Inl (0, 0)"
  by (simp_all add: crowded_grid_def grid_cells_def upt_10)

text \<open>
  C5. On a grid that is at least half full the scan draws \<open>randint(0, empty_left)\<close>,
  one value more than there are empty cells. With the two empty cells (0, 0) and
  (0, 1) the three equally likely values 0, 1, 2 give (0, 0), (0, 1), (0, 0): the
  largest value is not reached in the first pass, and the second pass returns the
  first empty cell again. The first empty cell is drawn twice as often as the other.
\<close>

theorem randEmptySpace_scan_not_uniform:
  "occupied_grid crowded_grid ! 0 ! 0 = 0 \<and> occupied_grid crowded_grid ! 0 ! 1 = 0 \<and>
   NUM_SPACES - int (length (occupied_spaces crowded_grid)) = 2 \<and>
   randEmptySpace crowded_grid (r # rs) = Inr (if r mod 3 = 1 then (0, 1) else (0, 0), rs)"
proof -
  have "r mod 3 = 0 \<or> r mod 3 = 1 \<or> r mod 3 = 2" by arith
  then have "randEmptySpace crowded_grid (r # rs)
      = Inr (if r mod 3 = 1 then (0, 1) else (0, 0), rs)"
    by (auto simp add: randEmptySpace_def crowded_grid_length crowded_grid_dims config_defs
        randint_def Let_def crowded_grid_scan)
  moreover have "occupied_grid crowded_grid ! 0 ! 0 = 0" "occupied_grid crowded_grid ! 0 ! 1 = 0"
    by (simp_all add: crowded_grid_def upt_10)
  ultimately show ?thesis
    by (simp add: crowded_grid_length config_defs)
qed

section \<open>Feeding a dead agent\<close>

text \<open>
  C7. Only \<open>Player.move\<close> tests \<open>alive\<close>; \<open>eatFood\<close> and \<open>useEnergy\<close> do not, and
  \<open>movePlayer\<close> calls \<open>eatFood\<close> whatever \<open>move\<close> did. A living agent with energy 0
  that steps north onto food dies in \<open>useEnergy\<close> (energy -1) and is fed all the same:
  the dead agent ends with food_eaten 1, score -1 and energy 19.
\<close>

theorem movePlayer_feeds_dead_agent:
  "alive (player starving_grid) \<and> energy (player starving_grid) = 0 \<and>
   \<not> alive (fst (move (player starving_grid) NORTH 1)) \<and>
   \<not> alive (player (movePlayer starving_grid NORTH)) \<and>
   food_eaten (player (movePlayer starving_grid NORTH)) = 1 \<and>
   score (player (movePlayer starving_grid NORTH)) = - 1 \<and>
   energy (player (movePlayer starving_grid NORTH)) = 19"
  by (simp add: starving_grid_def movePlayer_def move_def useEnergy_def die_def step_tile_def
      removeTile_def eatFood_def tile_defs config_defs Let_def eval_nat_numeral)

section \<open>Saving and rewinding\<close>

lemma grid_shape_set2: "grid_shape a \<Longrightarrow> grid_shape (set2 a r c v)"
proof (cases "r < length a")
  case True
  assume "grid_shape a"
  with True show ?thesis
    unfolding grid_shape_def set2_def list_all_length
    by (simp add: nth_list_update)
next
  case False
  assume "grid_shape a"
  with False show ?thesis
    by (simp add: set2_def list_update_beyond)
qed

lemma grid_shape_zeros: "grid_shape (np_zeros (nat GAME_GRID_WIDTH) (nat GAME_GRID_HEIGHT))"
  by (simp add: grid_shape_def np_zeros_def list_all_iff)

lemma grid_shape_row: "grid_shape a \<Longrightarrow> r < nat GAME_GRID_WIDTH \<Longrightarrow> length (a ! r) = nat GAME_GRID_HEIGHT"
  by (simp add: grid_shape_def list_all_length)

lemma np_index_in_range: "0 \<le> i \<Longrightarrow> i < int n \<Longrightarrow> np_index n i = Some (nat i)"
  by (simp add: np_index_def)

lemma addTile_on_grid:
  assumes "grid_shape (occupied_grid g)" and "checkValidTile (tile_x t) (tile_y t)"
  shows "addTile g t = Inr (g\<lparr>occupied_spaces := occupied_spaces g @ [t],
            occupied_grid := set2 (occupied_grid g) (nat (tile_x t)) (nat (tile_y t)) 1\<rparr>)"
proof -
  from assms(2) have x: "0 \<le> tile_x t" "tile_x t < GAME_GRID_WIDTH"
    and y: "0 \<le> tile_y t" "tile_y t < GAME_GRID_HEIGHT"
    by (simp_all add: checkValidTile_def split: if_splits)
  from x assms(1) have r: "np_index (length (occupied_grid g)) (tile_x t) = Some (nat (tile_x t))"
    by (simp add: np_index_in_range grid_shape_def)
  from x have "nat (tile_x t) < nat GAME_GRID_WIDTH" by simp
  with assms(1) have "length (occupied_grid g ! nat (tile_x t)) = nat GAME_GRID_HEIGHT"
    by (rule grid_shape_row)
  with y have c: "np_index (length (occupied_grid g ! nat (tile_x t))) (tile_y t) = Some (nat (tile_y t))"
    by (simp add: np_index_in_range)
  show ?thesis
    by (simp add: addTile_def Let_def r c)
qed

lemma genTile_given:
  assumes "int (length (occupied_spaces g)) < NUM_SPACES" and "checkValidTile x y"
  shows "genTile g x y rnd = Inr (Some (GridSpace_init x y), rnd)"
  using assms by (simp add: genTile_def checkValidTile_def split: if_splits)

lemma addFood_given:
  assumes "grid_shape (occupied_grid g)" and "int (length (occupied_spaces g)) < NUM_SPACES"
    and "checkValidTile x y"
  shows "addFood g x y rnd = Inr (calcSmellMatrix (g\<lparr>occupied_spaces := occupied_spaces g @ [setFood (GridSpace_init x y)],
            occupied_grid := set2 (occupied_grid g) (nat x) (nat y) 1\<rparr>), rnd)"
proof -
  have "checkValidTile (tile_x (setFood (GridSpace_init x y))) (tile_y (setFood (GridSpace_init x y)))"
    using assms(3) by (simp add: setFood_def GridSpace_init_def)
  from addTile_on_grid [OF assms(1) this] show ?thesis
    by (simp add: addFood_def genTile_given [OF assms(2,3)] setFood_def GridSpace_init_def)
qed

lemma add_foods_given:
  assumes "grid_shape (occupied_grid g)"
    and "int (length (occupied_spaces g)) + int (length ps) \<le> NUM_SPACES"
    and "list_all (\<lambda>c. checkValidTile (fst c) (snd c)) ps"
  shows "\<exists>g'. add_foods g ps rnd = Inr (g', rnd) \<and>
           occupied_spaces g' = occupied_spaces g @ map (\<lambda>c. setFood (GridSpace_init (fst c) (snd c))) ps \<and>
           player g' = player g \<and> grid_shape (occupied_grid g')"
  using assms
proof (induction ps arbitrary: g)
  case Nil
  then show ?case by simp
next
  case (Cons c ps)
  let ?g1 = "calcSmellMatrix (g\<lparr>occupied_spaces := occupied_spaces g @ [setFood (GridSpace_init (fst c) (snd c))],
            occupied_grid := set2 (occupied_grid g) (nat (fst c)) (nat (snd c)) 1\<rparr>)"
  from Cons.prems have a: "addFood g (fst c) (snd c) rnd = Inr (?g1, rnd)"
    by (intro addFood_given) simp_all
  have s: "grid_shape (occupied_grid ?g1)"
    using Cons.prems(1) by (simp add: grid_shape_set2)
  have l: "int (length (occupied_spaces ?g1)) + int (length ps) \<le> NUM_SPACES"
    using Cons.prems(2) by simp
  have v: "list_all (\<lambda>c. checkValidTile (fst c) (snd c)) ps"
    using Cons.prems(3) by simp
  from Cons.IH [OF s l v] obtain g' where
    "add_foods ?g1 ps rnd = Inr (g', rnd)"
    "occupied_spaces g' = occupied_spaces ?g1 @ map (\<lambda>c. setFood (GridSpace_init (fst c) (snd c))) ps"
    "player g' = player ?g1" "grid_shape (occupied_grid g')"
    by blast
  then show ?case
    by (simp add: a)
qed

lemma saveGameState_no_eviction:
  "int (length (game_states gm)) < MAX_SAVED_GAME_STATES \<Longrightarrow>
   saveGameState gm = gm\<lparr>game_states := game_states gm @ [GameState_init (game_grid gm)]\<rparr>"
  by (simp add: saveGameState_def)

lemma push_snapshots_states:
  "int (length (game_states gm)) + int (length gs) \<le> MAX_SAVED_GAME_STATES \<Longrightarrow>
   game_states (push_snapshots gm gs) = game_states gm @ map GameState_init gs"
proof (induction gs arbitrary: gm)
  case Nil
  then show ?case by simp
next
  case (Cons g gs)
  let ?gm1 = "saveGameState (gm\<lparr>game_grid := g\<rparr>)"
  from Cons.prems have "int (length (game_states (gm\<lparr>game_grid := g\<rparr>))) < MAX_SAVED_GAME_STATES"
    by simp
  then have e: "?gm1 = gm\<lparr>game_grid := g, game_states := game_states gm @ [GameState_init g]\<rparr>"
    by (simp add: saveGameState_no_eviction)
  with Cons.prems have "int (length (game_states ?gm1)) + int (length gs) \<le> MAX_SAVED_GAME_STATES"
    by simp
  from Cons.IH [OF this] show ?case
    by (simp add: e)
qed

lemma saveGameState_grid [simp]: "game_grid (saveGameState gm) = game_grid gm"
  by (simp add: saveGameState_def Let_def)

lemma push_snapshots_grid:
  "gs \<noteq> [] \<Longrightarrow> game_grid (push_snapshots gm gs) = last gs"
proof (induction gs arbitrary: gm)
  case Nil
  then show ?case by simp
next
  case (Cons g gs)
  then show ?case by (cases gs) simp_all
qed

lemma py_slice_all_but_first:
  "2 \<le> length xs \<Longrightarrow> py_slice xs 0 (1 - int (length xs)) = [hd xs]"
  by (cases xs) (auto simp add: py_slice_def py_bound_def)

lemma food_positions_of_foods:
  "occupied_spaces g = map (\<lambda>c. setFood (GridSpace_init (fst c) (snd c))) ps \<Longrightarrow>
   food_positions g = ps"
  by (simp add: food_positions_def setFood_def GridSpace_init_def filter_map comp_def)

lemma restoreGameState_given:
  assumes "width (game_grid gm) = GAME_GRID_WIDTH" and "height (game_grid gm) = GAME_GRID_HEIGHT"
    and "list_all (\<lambda>c. checkValidTile (fst c) (snd c)) (foods_loc s)"
    and "int (length (foods_loc s)) \<le> NUM_SPACES"
  shows "\<exists>g'. restoreGameState gm s rnd = Inr (gm\<lparr>game_grid := g'\<rparr>, rnd) \<and>
           player g' = restorePlayer s \<and> food_positions g' = foods_loc s"
proof -
  let ?g2 = "(reset (game_grid gm))\<lparr>player := restorePlayer s\<rparr>"
  have sh: "grid_shape (occupied_grid ?g2)"
    using assms(1,2) by (simp add: reset_def grid_shape_zeros)
  have len: "int (length (occupied_spaces ?g2)) + int (length (foods_loc s)) \<le> NUM_SPACES"
    using assms(4) by (simp add: reset_def)
  from add_foods_given [OF sh len assms(3), of rnd] obtain g' where
    g': "add_foods ?g2 (foods_loc s) rnd = Inr (g', rnd)"
      "occupied_spaces g' = occupied_spaces ?g2 @ map (\<lambda>c. setFood (GridSpace_init (fst c) (snd c))) (foods_loc s)"
      "player g' = player ?g2"
    by blast
  from g'(2) have "occupied_spaces g' = map (\<lambda>c. setFood (GridSpace_init (fst c) (snd c))) (foods_loc s)"
    by (simp add: reset_def)
  then have "food_positions g' = foods_loc s"
    by (rule food_positions_of_foods)
  with g'(1,3) show ?thesis
    by (intro exI [of _ g']) (simp add: restoreGameState_def Let_def)
qed

text \<open>
  On the records: from an empty history, N saves and \<open>rewindGameState(N - 1)\<close> give back
  the agent and the food positions of the first saved grid, and the history is the
  first snapshot.
\<close>

lemma rewind_restores_values:
  assumes "game_states gm = []" and "2 \<le> length gs"
    and "int (length gs) \<le> MAX_SAVED_GAME_STATES"
    and "foods_on_grid (hd gs)"
    and "width (last gs) = GAME_GRID_WIDTH" and "height (last gs) = GAME_GRID_HEIGHT"
  shows "\<exists>gm'. rewindGameState (push_snapshots gm gs) (int (length gs) - 1) rnd = Inr (gm', rnd) \<and>
           tile_x (tile (player (game_grid gm'))) = tile_x (tile (player (hd gs))) \<and>
           tile_y (tile (player (game_grid gm'))) = tile_y (tile (player (hd gs))) \<and>
           energy (player (game_grid gm')) = energy (player (hd gs)) \<and>
           score (player (game_grid gm')) = score (player (hd gs)) \<and>
           food_eaten (player (game_grid gm')) = food_eaten (player (hd gs)) \<and>
           food_positions (game_grid gm') = food_positions (hd gs) \<and>
           game_states gm' = [GameState_init (hd gs)]"
proof -
  let ?gm = "push_snapshots gm gs"
  let ?s = "GameState_init (hd gs)"
  from assms(2) have ne: "gs \<noteq> []" by auto
  have st: "game_states ?gm = map GameState_init gs"
    using push_snapshots_states [of gm gs] assms(1,3) by simp
  have gr: "game_grid ?gm = last gs"
    using ne by (rule push_snapshots_grid)
  have len: "length (game_states ?gm) = length gs"
    by (simp add: st)
  have sl: "py_slice (game_states ?gm) 0 (1 - int (length gs)) = [?s]"
    using py_slice_all_but_first [of "game_states ?gm"] assms(2) ne
    by (simp add: len) (simp add: st hd_map)
  let ?gm1 = "?gm\<lparr>game_states := [?s]\<rparr>"
  have rw: "rewindGameState ?gm (int (length gs) - 1) rnd = restoreGameState ?gm1 ?s rnd"
    using assms(2) by (simp add: rewindGameState_def Let_def len sl)
  have fl: "foods_loc ?s = food_positions (hd gs)"
    by (simp add: GameState_init_def food_positions_def)
  from assms(4) have v: "list_all (\<lambda>c. checkValidTile (fst c) (snd c)) (foods_loc ?s)"
    and n: "int (length (foods_loc ?s)) \<le> NUM_SPACES"
    by (simp_all add: foods_on_grid_def fl)
  have w: "width (game_grid ?gm1) = GAME_GRID_WIDTH" "height (game_grid ?gm1) = GAME_GRID_HEIGHT"
    using assms(5,6) by (simp_all add: gr)
  from restoreGameState_given [OF w v n, of rnd] obtain g' where
    g': "restoreGameState ?gm1 ?s rnd = Inr (?gm1\<lparr>game_grid := g'\<rparr>, rnd)"
      "player g' = restorePlayer ?s" "food_positions g' = foods_loc ?s"
    by blast
  have "rewindGameState ?gm (int (length gs) - 1) rnd = Inr (?gm1\<lparr>game_grid := g'\<rparr>, rnd)"
    by (simp add: rw g'(1))
  moreover have "tile_x (tile (player g')) = tile_x (tile (player (hd gs)))"
    "tile_y (tile (player g')) = tile_y (tile (player (hd gs)))"
    "energy (player g') = energy (player (hd gs))"
    "score (player g') = score (player (hd gs))"
    "food_eaten (player g') = food_eaten (player (hd gs))"
    by (simp_all add: g'(2) restorePlayer_def GameState_init_def Player_init_def setPlayer_def
        GridSpace_init_def)
  moreover have "food_positions g' = food_positions (hd gs)"
    by (simp add: g'(3) fl)
  ultimately show ?thesis
    by (intro exI [of _ "?gm1\<lparr>game_grid := g'\<rparr>"]) simp
qed

subsection \<open>The same on the store\<close>

text \<open>
  What a read finds at an address after an allocation and after a write, and the
  views of objects that were not written to.
\<close>

lemma bindF_simps [simp]:
  "bindF (Inl e) f = Inl e"
  "bindF (Inr v) f = f v"
  by (simp_all add: bindF_def)

lemma deref_snoc: "deref (h @ [v]) a = (if a = length h then Some v else deref h a)"
  by (auto simp add: deref_def nth_append)

lemma deref_update: "deref (h[a := v]) b = (if b = a \<and> a < length h then Some v else deref h b)"
  by (auto simp add: deref_def)

lemma deref_lt: "deref h a = Some v \<Longrightarrow> a < length h"
  by (simp add: deref_def split: if_splits)

lemma tiles_at_cong:
  "(\<And>a. a \<in> set (refs vs) \<Longrightarrow> deref h' a = deref h a) \<Longrightarrow> tiles_at h' vs = tiles_at h vs"
  by (induction h vs rule: tiles_at.induct) (auto split: option.splits obj.splits)

lemma tiles_at_refs:
  "tiles_at h vs = Some ts \<Longrightarrow> a \<in> set (refs vs) \<Longrightarrow> \<exists>t. deref h a = Some (GridSpaceO t)"
  by (induction h vs arbitrary: ts rule: tiles_at.induct)
    (auto split: option.splits obj.splits)

lemma tiles_at_snoc:
  "tiles_at h vs = Some ts \<Longrightarrow> deref h a = Some (GridSpaceO t) \<Longrightarrow>
   tiles_at h (vs @ [RefV a]) = Some (ts @ [t])"
  by (induction h vs arbitrary: ts rule: tiles_at.induct)
    (auto split: option.splits obj.splits)

lemma pairs_at_cong:
  "(\<And>a. a \<in> set (refs vs) \<Longrightarrow> deref h' a = deref h a) \<Longrightarrow> pairs_at h' vs = pairs_at h vs"
  by (induction h vs rule: pairs_at.induct)
    (auto split: option.splits obj.splits list.splits val.splits)

lemma pairs_at_snoc:
  "pairs_at h vs = Some ps \<Longrightarrow> deref h a = Some (ListO [IntV x, IntV y]) \<Longrightarrow>
   pairs_at h (vs @ [RefV a]) = Some (ps @ [(x, y)])"
  by (induction h vs arbitrary: ps rule: pairs_at.induct)
    (auto split: option.splits obj.splits list.splits val.splits)

lemma refs_snoc [simp]: "refs (vs @ [RefV a]) = refs vs @ [a]"
  by (induction vs rule: refs.induct) simp_all

lemma snapshot_view_cong:
  assumes "\<And>a. a \<in> snapshot_addrs h s \<Longrightarrow> deref h' a = deref h a"
  shows "snapshot_view h' s = snapshot_view h s \<and> snapshot_addrs h' s = snapshot_addrs h s"
proof -
  have s: "deref h' s = deref h s"
    by (rule assms) (simp add: snapshot_addrs_def split: option.splits obj.splits)
  show ?thesis
  proof (cases "\<exists>x y e fe sc fl. deref h s = Some (GameStateO x y e fe sc fl)")
    case False
    then show ?thesis
      using s by (auto simp add: snapshot_view_def snapshot_addrs_def split: option.splits obj.splits)
  next
    case True
    then obtain x y e fe sc fl where d: "deref h s = Some (GameStateO x y e fe sc fl)"
      by blast
    have f: "deref h' fl = deref h fl"
      by (rule assms) (simp add: snapshot_addrs_def d)
    have ad: "snapshot_addrs h' s = snapshot_addrs h s"
      by (simp add: snapshot_addrs_def d s f)
    have "snapshot_view h' s = snapshot_view h s"
    proof (cases "\<exists>vs. deref h fl = Some (ListO vs)")
      case False
      then show ?thesis
        using s f d by (auto simp add: snapshot_view_def split: option.splits obj.splits)
    next
      case True
      then obtain vs where l: "deref h fl = Some (ListO vs)"
        by blast
      have "pairs_at h' vs = pairs_at h vs"
        by (rule pairs_at_cong, rule assms) (simp add: snapshot_addrs_def d l)
      then show ?thesis
        by (simp add: snapshot_view_def d s f l)
    qed
    with ad show ?thesis
      by simp
  qed
qed

lemma grid_view_parts:
  assumes "grid_view h g = Some gv"
  obtains sm oc ls pl vs t psm where
    "deref h g = Some (GameGridO (width gv) (height gv) sm oc ls pl)"
    "deref h sm = Some (FloatArrayO (smell_grid gv))"
    "deref h oc = Some (IntArrayO (occupied_grid gv))"
    "deref h ls = Some (ListO vs)"
    "tiles_at h vs = Some (occupied_spaces gv)"
    "deref h pl = Some (PlayerO t (food_eaten (player gv)) (max_energy (player gv))
       (energy (player gv)) (alive (player gv)) psm (score (player gv)))"
    "deref h t = Some (GridSpaceO (tile (player gv)))"
    "deref h psm = Some (FloatArrayO (smell_matrix (player gv)))"
  using assms
  by (auto simp add: grid_view_def player_view_def split: option.splits obj.splits)

lemma grid_view_build:
  assumes "deref h g = Some (GameGridO w ht sm oc ls pl)"
    "deref h sm = Some (FloatArrayO s)"
    "deref h oc = Some (IntArrayO occ)"
    "deref h ls = Some (ListO vs)"
    "tiles_at h vs = Some ts"
    "deref h pl = Some (PlayerO t fe me e al psm sc)"
    "deref h t = Some (GridSpaceO tv)"
    "deref h psm = Some (FloatArrayO m)"
  shows "grid_view h g = Some \<lparr>width = w, height = ht, smell_grid = s, occupied_grid = occ,
           occupied_spaces = ts,
           player = \<lparr>tile = tv, food_eaten = fe, max_energy = me, energy = e, alive = al,
                     smell_matrix = m, score = sc\<rparr>\<rparr>"
    and "grid_addrs h g = {g, sm, oc, ls, pl} \<union> set (refs vs) \<union> {t, psm}"
  using assms by (auto simp add: grid_view_def player_view_def grid_addrs_def)

text \<open>
  Saving. The snapshot \<open>GameState.__init__\<close> builds consists of new objects and holds
  the values of the live grid; of the older objects \<open>saveGameState\<close> writes to the
  history list alone.
\<close>

lemma pairs_at_refs:
  "pairs_at h vs = Some ps \<Longrightarrow> a \<in> set (refs vs) \<Longrightarrow> a < length h"
  by (induction h vs arbitrary: ps rule: pairs_at.induct)
    (auto split: option.splits obj.splits list.splits val.splits dest: deref_lt)

lemma capture_foods_props:
  assumes "deref h fl = Some (ListO vs)" and "pairs_at h vs = Some ps" and "fl \<notin> set (refs vs)"
  shows "\<exists>h' vs'. capture_foods h fl ts = Inr h' \<and> length h \<le> length h' \<and>
           (\<forall>a. a < length h \<and> a \<noteq> fl \<longrightarrow> deref h' a = deref h a) \<and>
           deref h' fl = Some (ListO vs') \<and>
           pairs_at h' vs' = Some (ps @ map (\<lambda>t. (tile_x t, tile_y t))
                                       (filter (\<lambda>t. tile_type t = Some Food) ts)) \<and>
           set (refs vs') \<subseteq> set (refs vs) \<union> {a. length h \<le> a \<and> a < length h'} \<and>
           fl \<notin> set (refs vs')"
  using assms
proof (induction ts arbitrary: h vs ps)
  case Nil
  then show ?case
    by (intro exI [of _ h] exI [of _ vs]) simp
next
  case (Cons t ts)
  show ?case
  proof (cases "tile_type t = Some Food")
    case False
    from Cons.IH [OF Cons.prems] False show ?thesis
      by simp
  next
    case True
    define l where "l = length h"
    define h1 where "h1 = h @ [ListO [IntV (tile_x t), IntV (tile_y t)]]"
    define h2 where "h2 = h1[fl := ListO (vs @ [RefV l])]"
    from Cons.prems(1) have fl: "fl < length h"
      by (rule deref_lt)
    then have fl1: "fl < length h1" "fl \<noteq> l"
      by (simp_all add: h1_def l_def)
    have d1: "deref h1 fl = Some (ListO vs)"
      using Cons.prems(1) fl by (simp add: h1_def deref_snoc)
    have la: "list_append h1 fl (RefV l) = Inr h2"
      by (simp add: list_append_def d1 h2_def)
    have d2: "deref h2 fl = Some (ListO (vs @ [RefV l]))"
      using fl1 by (simp add: h2_def deref_update)
    have fr: "deref h2 a = deref h a" if "a < length h" "a \<noteq> fl" for a
      using that by (simp add: h2_def h1_def deref_update deref_snoc)
    have dl: "deref h2 l = Some (ListO [IntV (tile_x t), IntV (tile_y t)])"
      using fl1 by (simp add: h2_def h1_def deref_update deref_snoc l_def)
    have "pairs_at h2 vs = pairs_at h vs"
    proof (rule pairs_at_cong)
      fix a assume a: "a \<in> set (refs vs)"
      with Cons.prems(2) have "a < length h"
        by (rule pairs_at_refs)
      moreover from a Cons.prems(3) have "a \<noteq> fl"
        by auto
      ultimately show "deref h2 a = deref h a"
        by (rule fr)
    qed
    with Cons.prems(2) have "pairs_at h2 vs = Some ps"
      by simp
    from pairs_at_snoc [OF this dl]
    have p2: "pairs_at h2 (vs @ [RefV l]) = Some (ps @ [(tile_x t, tile_y t)])" .
    have n2: "fl \<notin> set (refs (vs @ [RefV l]))"
      using Cons.prems(3) fl1 by simp
    from Cons.IH [OF d2 p2 n2] obtain h' vs' where r:
      "capture_foods h2 fl ts = Inr h'" "length h2 \<le> length h'"
      "\<forall>a. a < length h2 \<and> a \<noteq> fl \<longrightarrow> deref h' a = deref h2 a"
      "deref h' fl = Some (ListO vs')"
      "pairs_at h' vs' = Some ((ps @ [(tile_x t, tile_y t)]) @ map (\<lambda>t. (tile_x t, tile_y t))
                                       (filter (\<lambda>t. tile_type t = Some Food) ts))"
      "set (refs vs') \<subseteq> set (refs (vs @ [RefV l])) \<union> {a. length h2 \<le> a \<and> a < length h'}"
      "fl \<notin> set (refs vs')"
      by blast
    have len2: "length h2 = Suc (length h)"
      by (simp add: h2_def h1_def)
    have c: "capture_foods h fl (t # ts) = Inr h'"
      using True la r(1) by (simp add: alloc_def l_def h1_def)
    have f: "\<forall>a. a < length h \<and> a \<noteq> fl \<longrightarrow> deref h' a = deref h a"
      using r(3) fr len2 by auto
    have s: "set (refs vs') \<subseteq> set (refs vs) \<union> {a. length h \<le> a \<and> a < length h'}"
      using r(6) r(2) len2 by (auto simp add: l_def)
    from c r(2) len2 f r(4) r(5) s r(7) True show ?thesis
      by (intro exI [of _ h'] exI [of _ vs']) simp
  qed
qed

lemma GameState_new_props:
  assumes "grid_view h g = Some gv"
  shows "\<exists>h' s. GameState_new h g = Inr (s, h') \<and> length h \<le> s \<and> s < length h' \<and>
           (\<forall>a. a < length h \<longrightarrow> deref h' a = deref h a) \<and>
           snapshot_view h' s = Some (GameState_init gv) \<and>
           snapshot_addrs h' s \<subseteq> {a. length h \<le> a \<and> a < length h'}"
proof -
  define fl where "fl = length h"
  define h1 where "h1 = h @ [ListO []]"
  have d1: "deref h1 fl = Some (ListO [])"
    by (simp add: h1_def fl_def deref_snoc)
  have p1: "pairs_at h1 [] = Some []"
    by simp
  have n1: "fl \<notin> set (refs [])"
    by simp
  from capture_foods_props [OF d1 p1 n1, of "occupied_spaces gv"] obtain h2 vs where r:
    "capture_foods h1 fl (occupied_spaces gv) = Inr h2" "length h1 \<le> length h2"
    "\<forall>a. a < length h1 \<and> a \<noteq> fl \<longrightarrow> deref h2 a = deref h1 a"
    "deref h2 fl = Some (ListO vs)"
    "pairs_at h2 vs = Some (map (\<lambda>t. (tile_x t, tile_y t))
                                       (filter (\<lambda>t. tile_type t = Some Food) (occupied_spaces gv)))"
    "set (refs vs) \<subseteq> {a. length h1 \<le> a \<and> a < length h2}"
    by auto
  define s where "s = length h2"
  define st where "st = GameStateO (tile_x (tile (player gv))) (tile_y (tile (player gv)))
                      (energy (player gv)) (food_eaten (player gv)) (score (player gv)) fl"
  define h3 where "h3 = h2 @ [st]"
  have len1: "length h1 = Suc (length h)"
    by (simp add: h1_def)
  have g: "GameState_new h g = Inr (s, h3)"
    by (simp add: GameState_new_def assms alloc_def r(1) [unfolded h1_def fl_def] s_def h3_def st_def fl_def)
  have fls: "fl < length h2" "fl \<noteq> s"
    using r(2) len1 by (simp_all add: fl_def s_def)
  have ds: "deref h3 s = Some st"
    by (simp add: h3_def s_def deref_snoc)
  have dfl: "deref h3 fl = Some (ListO vs)"
    using fls r(4) by (simp add: h3_def deref_snoc s_def)
  have "pairs_at h3 vs = pairs_at h2 vs"
  proof (rule pairs_at_cong)
    fix a assume "a \<in> set (refs vs)"
    with r(6) have "a < length h2"
      by auto
    then show "deref h3 a = deref h2 a"
      by (simp add: h3_def deref_snoc)
  qed
  with r(5) have pv: "pairs_at h3 vs = Some (map (\<lambda>t. (tile_x t, tile_y t))
                                       (filter (\<lambda>t. tile_type t = Some Food) (occupied_spaces gv)))"
    by simp
  have sv: "snapshot_view h3 s = Some (GameState_init gv)"
    by (simp add: snapshot_view_def ds st_def dfl pv GameState_init_def)
  have "snapshot_addrs h3 s = insert s (insert fl (set (refs vs)))"
    by (simp add: snapshot_addrs_def ds st_def dfl)
  then have sa: "snapshot_addrs h3 s \<subseteq> {a. length h \<le> a \<and> a < length h3}"
    using r(6) r(2) len1 by (auto simp add: fl_def s_def h3_def)
  have fr: "\<forall>a. a < length h \<longrightarrow> deref h3 a = deref h a"
  proof (intro allI impI)
    fix a assume a: "a < length h"
    then have "a < length h1 \<and> a \<noteq> fl"
      by (simp add: len1 fl_def)
    with r(3) have "deref h2 a = deref h1 a"
      by blast
    moreover from a r(2) len1 have "a \<noteq> length h2"
      by simp
    ultimately show "deref h3 a = deref h a"
      using a by (simp add: h3_def h1_def deref_snoc)
  qed
  have "length h \<le> s" "s < length h3"
    using r(2) len1 by (simp_all add: s_def h3_def)
  with g fr sv sa show ?thesis
    by (intro exI [of _ h3] exI [of _ s]) simp
qed

lemma saveGameState_st_props:
  assumes "deref h (states_at m) = Some (ListO ss)"
    and "int (length ss) < MAX_SAVED_GAME_STATES"
    and "grid_view h (grid_at m) = Some gv"
  shows "\<exists>h' s. saveGameState_st h m = Inr (h', m) \<and> length h \<le> s \<and> s < length h' \<and>
           (\<forall>a. a < length h \<and> a \<noteq> states_at m \<longrightarrow> deref h' a = deref h a) \<and>
           deref h' (states_at m) = Some (ListO (ss @ [RefV s])) \<and>
           snapshot_view h' s = Some (GameState_init gv) \<and>
           snapshot_addrs h' s \<subseteq> {a. length h \<le> a \<and> a < length h'}"
proof -
  from GameState_new_props [OF assms(3)] obtain h2 s where r:
    "GameState_new h (grid_at m) = Inr (s, h2)" "length h \<le> s" "s < length h2"
    "\<forall>a. a < length h \<longrightarrow> deref h2 a = deref h a"
    "snapshot_view h2 s = Some (GameState_init gv)"
    "snapshot_addrs h2 s \<subseteq> {a. length h \<le> a \<and> a < length h2}"
    by blast
  define h3 where "h3 = h2[states_at m := ListO (ss @ [RefV s])]"
  from assms(1) have st: "states_at m < length h"
    by (rule deref_lt)
  with r(4) assms(1) have d2: "deref h2 (states_at m) = Some (ListO ss)"
    by simp
  then have st2: "states_at m < length h2"
    by (rule deref_lt)
  have la: "list_append h2 (states_at m) (RefV s) = Inr h3"
    by (simp add: list_append_def d2 h3_def)
  have sv: "saveGameState_st h m = Inr (h3, m)"
    using assms(2) by (simp add: saveGameState_st_def assms(1) r(1) la)
  have len: "length h3 = length h2"
    by (simp add: h3_def)
  have fr: "\<forall>a. a < length h \<and> a \<noteq> states_at m \<longrightarrow> deref h3 a = deref h a"
    using r(4) by (simp add: h3_def deref_update)
  have d3: "deref h3 (states_at m) = Some (ListO (ss @ [RefV s]))"
    using st2 by (simp add: h3_def deref_update)
  have "snapshot_view h3 s = snapshot_view h2 s \<and> snapshot_addrs h3 s = snapshot_addrs h2 s"
  proof (rule snapshot_view_cong)
    fix a assume "a \<in> snapshot_addrs h2 s"
    with r(6) st have "a \<noteq> states_at m"
      by auto
    then show "deref h3 a = deref h2 a"
      by (simp add: h3_def deref_update)
  qed
  with r(5,6) have "snapshot_view h3 s = Some (GameState_init gv)"
    "snapshot_addrs h3 s \<subseteq> {a. length h \<le> a \<and> a < length h3}"
    by (simp_all add: len)
  with sv r(2,3) fr d3 show ?thesis
    by (intro exI [of _ h3] exI [of _ s]) (simp add: len)
qed

text \<open>
  Restoring. \<open>reset\<close> and \<open>restorePlayer\<close> in closed form, and what one \<open>addFood\<close> at a
  given free position does: it writes to objects of the grid and allocates, and every
  object of the grid it leaves is an older object of the grid or a new one.
\<close>

lemma deref_append:
  "deref (h @ xs) a = (if a < length h then deref h a else deref xs (a - length h))"
  by (auto simp add: deref_def nth_append)

lemma deref_Cons: "deref (x # xs) a = (if a = 0 then Some x else deref xs (a - 1))"
  by (cases a) (auto simp add: deref_def)

lemma deref_Nil [simp]: "deref [] a = None"
  by (simp add: deref_def)

lemma grid_view_fields:
  assumes "deref h g = Some (GameGridO (width gv) (height gv) sm oc ls pl)"
    "deref h sm = Some (FloatArrayO (smell_grid gv))"
    "deref h oc = Some (IntArrayO (occupied_grid gv))"
    "deref h ls = Some (ListO vs)"
    "tiles_at h vs = Some (occupied_spaces gv)"
    "deref h pl = Some (PlayerO t (food_eaten (player gv)) (max_energy (player gv))
       (energy (player gv)) (alive (player gv)) psm (score (player gv)))"
    "deref h t = Some (GridSpaceO (tile (player gv)))"
    "deref h psm = Some (FloatArrayO (smell_matrix (player gv)))"
  shows "grid_view h g = Some gv"
    and "grid_addrs h g = {g, sm, oc, ls, pl} \<union> set (refs vs) \<union> {t, psm}"
  using grid_view_build [OF assms] by simp_all

lemma grid_view_addrs_lt:
  assumes "grid_view h g = Some gv" and "a \<in> grid_addrs h g"
  shows "a < length h"
proof -
  from assms(1) obtain sm oc ls pl vs t psm where p:
    "deref h g = Some (GameGridO (width gv) (height gv) sm oc ls pl)"
    "deref h sm = Some (FloatArrayO (smell_grid gv))"
    "deref h oc = Some (IntArrayO (occupied_grid gv))"
    "deref h ls = Some (ListO vs)"
    "tiles_at h vs = Some (occupied_spaces gv)"
    "deref h pl = Some (PlayerO t (food_eaten (player gv)) (max_energy (player gv))
       (energy (player gv)) (alive (player gv)) psm (score (player gv)))"
    "deref h t = Some (GridSpaceO (tile (player gv)))"
    "deref h psm = Some (FloatArrayO (smell_matrix (player gv)))"
    by (rule grid_view_parts)
  from grid_view_fields(2) [OF p] assms(2)
  have "a \<in> {g, sm, oc, ls, pl, t, psm} \<or> a \<in> set (refs vs)"
    by auto
  then show ?thesis
  proof
    assume "a \<in> {g, sm, oc, ls, pl, t, psm}"
    with p(1,2,3,4,6,7,8) show ?thesis
      by (auto dest: deref_lt)
  next
    assume "a \<in> set (refs vs)"
    with p(5) obtain tv where "deref h a = Some (GridSpaceO tv)"
      using tiles_at_refs by blast
    then show ?thesis
      by (rule deref_lt)
  qed
qed

lemma Player_new_eq:
  "Player_new h x y =
     (length h + 2,
      h @ [GridSpaceO (setPlayer (GridSpace_init x y)), FloatArrayO (np_zeros 3 3),
           PlayerO (length h) 0 MAX_ENERGY MAX_ENERGY True (length h + 1) 0])"
  by (simp add: Player_new_def alloc_def Let_def)

lemma reset_st_eq:
  assumes "deref h g = Some (GameGridO w ht a0 b0 c0 d0)"
  shows "reset_st h g =
     Inr ((h @ [FloatArrayO (np_zeros (nat w) (nat ht)), IntArrayO (np_zeros (nat w) (nat ht)),
                ListO [], GridSpaceO (setPlayer (GridSpace_init 0 0)), FloatArrayO (np_zeros 3 3),
                PlayerO (length h + 3) 0 MAX_ENERGY MAX_ENERGY True (length h + 4) 0])
            [g := GameGridO w ht (length h) (length h + 1) (length h + 2) (length h + 5)])"
  using deref_lt [OF assms]
  by (simp add: reset_st_def assms Player_new_eq alloc_def Let_def list_update_append1 eval_nat_numeral)

lemma restorePlayer_st_eq:
  assumes "deref h s = Some (GameStateO x y e fe sc fl)"
  shows "restorePlayer_st h s =
     Inr (length h + 2,
          h @ [GridSpaceO (setPlayer (GridSpace_init x y)), FloatArrayO (np_zeros 3 3),
               PlayerO (length h) fe MAX_ENERGY e True (length h + 1) sc])"
  by (simp add: restorePlayer_st_def assms Player_new_eq deref_append deref_Cons list_update_append)

text \<open>One food tile placed at a given free position of the grid.\<close>

lemma addFood_st_given:
  assumes gv: "grid_view h g = Some gv"
    and shape: "grid_shape (occupied_grid gv)"
    and len: "int (length (occupied_spaces gv)) < NUM_SPACES"
    and valid: "checkValidTile x y"
  shows "\<exists>h'. addFood_st h g x y rnd = Inr (h', rnd) \<and>
           grid_view h' g = Some (calcSmellMatrix
             (gv\<lparr>occupied_spaces := occupied_spaces gv @ [setFood (GridSpace_init x y)],
                 occupied_grid := set2 (occupied_grid gv) (nat x) (nat y) 1\<rparr>)) \<and>
           length h \<le> length h' \<and>
           (\<forall>a. a < length h \<and> a \<notin> grid_addrs h g \<longrightarrow> deref h' a = deref h a) \<and>
           grid_addrs h' g \<subseteq> grid_addrs h g \<union> {a. length h \<le> a}"
proof -
  from gv obtain sm oc ls pl vs t psm where p:
    "deref h g = Some (GameGridO (width gv) (height gv) sm oc ls pl)"
    "deref h sm = Some (FloatArrayO (smell_grid gv))"
    "deref h oc = Some (IntArrayO (occupied_grid gv))"
    "deref h ls = Some (ListO vs)"
    "tiles_at h vs = Some (occupied_spaces gv)"
    "deref h pl = Some (PlayerO t (food_eaten (player gv)) (max_energy (player gv))
       (energy (player gv)) (alive (player gv)) psm (score (player gv)))"
    "deref h t = Some (GridSpaceO (tile (player gv)))"
    "deref h psm = Some (FloatArrayO (smell_matrix (player gv)))"
    by (rule grid_view_parts)
  note ad = grid_view_fields(2) [OF p]
  define tf where "tf = setFood (GridSpace_init x y)"
  define gv4 where "gv4 = gv\<lparr>occupied_spaces := occupied_spaces gv @ [tf],
                 occupied_grid := set2 (occupied_grid gv) (nat x) (nat y) 1\<rparr>"
  define a where "a = length h"
  define h2 where "h2 = h @ [GridSpaceO tf]"
  define h3 where "h3 = h2[ls := ListO (vs @ [RefV a])]"
  define h4 where "h4 = h3[oc := IntArrayO (occupied_grid gv4)]"
  define n4 where "n4 = length h4"
  define h5 where "h5 = h4 @ [FloatArrayO (smell_grid (calcSmellMatrix gv4))]"
  define h6 where "h6 = h5[g := GameGridO (width gv) (height gv) n4 oc ls pl]"
  have lt: "g < length h" "sm < length h" "oc < length h" "ls < length h" "pl < length h"
    "t < length h" "psm < length h"
    using p(1,2,3,4,6,7,8) by (auto dest: deref_lt)
  have ne: "ls \<noteq> oc" "ls \<noteq> g" "oc \<noteq> g" "sm \<noteq> ls" "sm \<noteq> oc" "sm \<noteq> g"
    "pl \<noteq> ls" "pl \<noteq> oc" "pl \<noteq> g" "t \<noteq> ls" "t \<noteq> oc" "t \<noteq> g"
    "psm \<noteq> ls" "psm \<noteq> oc" "psm \<noteq> g"
    using p(1,2,3,4,6,7,8) by auto
  have tl: "b < length h \<and> b \<noteq> ls \<and> b \<noteq> oc \<and> b \<noteq> g" if "b \<in> set (refs vs)" for b
  proof -
    from tiles_at_refs [OF p(5) that] obtain tv where "deref h b = Some (GridSpaceO tv)"
      by blast
    with p(1,3,4) show ?thesis
      by (auto dest: deref_lt)
  qed
  have len4: "length h4 = Suc (length h)" "length h3 = Suc (length h)" "length h2 = Suc (length h)"
    by (simp_all add: h4_def h3_def h2_def)
  have k4: "deref h4 b = deref h b" if "b < length h" "b \<noteq> ls" "b \<noteq> oc" for b
    using that by (simp add: h4_def h3_def h2_def deref_update deref_snoc)
  have gt: "genTile gv x y rnd = Inr (Some (GridSpace_init x y), rnd)"
    using len valid by (rule genTile_given)
  have x: "0 \<le> x" "x < GAME_GRID_WIDTH" and y: "0 \<le> y" "y < GAME_GRID_HEIGHT"
    using valid by (simp_all add: checkValidTile_def split: if_splits)
  from x shape have r: "np_index (length (occupied_grid gv)) x = Some (nat x)"
    by (simp add: np_index_in_range grid_shape_def)
  from x have "nat x < nat GAME_GRID_WIDTH" by simp
  with shape have "length (occupied_grid gv ! nat x) = nat GAME_GRID_HEIGHT"
    by (rule grid_shape_row)
  with y have c: "np_index (length (occupied_grid gv ! nat x)) y = Some (nat y)"
    by (simp add: np_index_in_range)
  have d2g: "deref h2 g = Some (GameGridO (width gv) (height gv) sm oc ls pl)"
    using lt p(1) by (simp add: h2_def deref_snoc)
  have d2a: "deref h2 a = Some (GridSpaceO tf)"
    by (simp add: h2_def a_def deref_snoc)
  have d2l: "deref h2 ls = Some (ListO vs)"
    using lt p(4) by (simp add: h2_def deref_snoc)
  have la: "list_append h2 ls (RefV a) = Inr h3"
    by (simp add: list_append_def d2l h3_def)
  have d3o: "deref h3 oc = Some (IntArrayO (occupied_grid gv))"
    using lt ne p(3) by (simp add: h3_def h2_def deref_update deref_snoc)
  have xy: "tile_x tf = x" "tile_y tf = y"
    by (simp_all add: tf_def setFood_def GridSpace_init_def)
  have at: "addTile_st h2 g a = Inr h4"
    by (simp add: addTile_st_def d2g d2a la d3o xy r c h4_def gv4_def)
  have v4: "grid_view h4 g = Some gv4" and ad4: "grid_addrs h4 g = {g, sm, oc, ls, pl} \<union> set (refs (vs @ [RefV a])) \<union> {t, psm}"
  proof -
    have 1: "deref h4 g = Some (GameGridO (width gv4) (height gv4) sm oc ls pl)"
      using lt ne p(1) by (simp add: k4 gv4_def)
    have 2: "deref h4 sm = Some (FloatArrayO (smell_grid gv4))"
      using lt ne p(2) by (simp add: k4 gv4_def)
    have 3: "deref h4 oc = Some (IntArrayO (occupied_grid gv4))"
      using lt by (simp add: h4_def h3_def h2_def deref_update)
    have 4: "deref h4 ls = Some (ListO (vs @ [RefV a]))"
      using lt ne by (simp add: h4_def h3_def h2_def deref_update)
    have "tiles_at h4 vs = tiles_at h vs"
      by (rule tiles_at_cong) (simp add: k4 tl)
    moreover have "deref h4 a = Some (GridSpaceO tf)"
      using lt by (auto simp add: h4_def h3_def h2_def deref_update deref_snoc a_def)
    ultimately have 5: "tiles_at h4 (vs @ [RefV a]) = Some (occupied_spaces gv4)"
      using p(5) by (simp add: tiles_at_snoc gv4_def)
    have 6: "deref h4 pl = Some (PlayerO t (food_eaten (player gv4)) (max_energy (player gv4))
       (energy (player gv4)) (alive (player gv4)) psm (score (player gv4)))"
      using lt ne p(6) by (simp add: k4 gv4_def)
    have 7: "deref h4 t = Some (GridSpaceO (tile (player gv4)))"
      using lt ne p(7) by (simp add: k4 gv4_def)
    have 8: "deref h4 psm = Some (FloatArrayO (smell_matrix (player gv4)))"
      using lt ne p(8) by (simp add: k4 gv4_def)
    show "grid_view h4 g = Some gv4"
      using 1 2 3 4 5 6 7 8 by (rule grid_view_fields(1))
    show "grid_addrs h4 g = {g, sm, oc, ls, pl} \<union> set (refs (vs @ [RefV a])) \<union> {t, psm}"
      using 1 2 3 4 5 6 7 8 by (rule grid_view_fields(2))
  qed
  have d4g: "deref h4 g = Some (GameGridO (width gv) (height gv) sm oc ls pl)"
    using lt ne p(1) by (simp add: k4)
  have cs: "calcSmellMatrix_st h4 g = Inr h6"
    by (simp add: calcSmellMatrix_st_def v4 d4g alloc_def h6_def h5_def n4_def)
  have af: "addFood_st h g x y rnd = Inr (h6, rnd)"
    by (simp add: addFood_st_def gv gt alloc_def at [unfolded h2_def a_def tf_def] cs tf_def)
  have k6: "deref h6 b = deref h4 b" if "b < length h4" "b \<noteq> g" for b
    using that by (simp add: h6_def h5_def deref_update deref_snoc)
  have lt4: "g < length h4" "sm < length h4" "oc < length h4" "ls < length h4" "pl < length h4"
    "t < length h4" "psm < length h4"
    using lt by (simp_all add: len4)
  have v6: "grid_view h6 g = Some (calcSmellMatrix gv4)"
    and ad6: "grid_addrs h6 g = {g, n4, oc, ls, pl} \<union> set (refs (vs @ [RefV a])) \<union> {t, psm}"
  proof -
    let ?c = "calcSmellMatrix gv4"
    have 1: "deref h6 g = Some (GameGridO (width ?c) (height ?c) n4 oc ls pl)"
      using lt4 by (simp add: h6_def h5_def deref_update gv4_def)
    have 2: "deref h6 n4 = Some (FloatArrayO (smell_grid ?c))"
      using lt4 by (auto simp add: h6_def h5_def deref_update deref_snoc n4_def)
    have 3: "deref h6 oc = Some (IntArrayO (occupied_grid ?c))"
      using lt4 lt ne by (simp add: k6) (simp add: h4_def h3_def h2_def deref_update)
    have 4: "deref h6 ls = Some (ListO (vs @ [RefV a]))"
      using lt4 lt ne by (simp add: k6) (simp add: h4_def h3_def h2_def deref_update)
    have "tiles_at h6 (vs @ [RefV a]) = tiles_at h4 (vs @ [RefV a])"
    proof (rule tiles_at_cong)
      fix b assume "b \<in> set (refs (vs @ [RefV a]))"
      then have "b = a \<or> b \<in> set (refs vs)"
        by auto
      then have "b < length h4 \<and> b \<noteq> g"
        using tl [of b] lt by (auto simp add: len4 a_def)
      then show "deref h6 b = deref h4 b"
        by (simp add: k6)
    qed
    moreover have "tiles_at h4 (vs @ [RefV a]) = Some (occupied_spaces gv4)"
    proof -
      have "tiles_at h4 vs = tiles_at h vs"
        by (rule tiles_at_cong) (simp add: k4 tl)
      moreover have "deref h4 a = Some (GridSpaceO tf)"
        using lt by (auto simp add: h4_def h3_def h2_def deref_update deref_snoc a_def)
      ultimately show ?thesis
        using p(5) by (simp add: tiles_at_snoc gv4_def)
    qed
    ultimately have 5: "tiles_at h6 (vs @ [RefV a]) = Some (occupied_spaces ?c)"
      by simp
    have 6: "deref h6 pl = Some (PlayerO t (food_eaten (player ?c)) (max_energy (player ?c))
       (energy (player ?c)) (alive (player ?c)) psm (score (player ?c)))"
      using lt4 lt ne p(6) by (simp add: k6 k4 gv4_def)
    have 7: "deref h6 t = Some (GridSpaceO (tile (player ?c)))"
      using lt4 lt ne p(7) by (simp add: k6 k4 gv4_def)
    have 8: "deref h6 psm = Some (FloatArrayO (smell_matrix (player ?c)))"
      using lt4 lt ne p(8) by (simp add: k6 k4 gv4_def)
    show "grid_view h6 g = Some ?c"
      using 1 2 3 4 5 6 7 8 by (rule grid_view_fields(1))
    show "grid_addrs h6 g = {g, n4, oc, ls, pl} \<union> set (refs (vs @ [RefV a])) \<union> {t, psm}"
      using 1 2 3 4 5 6 7 8 by (rule grid_view_fields(2))
  qed
  have l6: "length h \<le> length h6"
    by (simp add: h6_def h5_def len4)
  have fr: "\<forall>b. b < length h \<and> b \<notin> grid_addrs h g \<longrightarrow> deref h6 b = deref h b"
  proof (intro allI impI)
    fix b assume b: "b < length h \<and> b \<notin> grid_addrs h g"
    then have "b \<noteq> g" "b \<noteq> ls" "b \<noteq> oc"
      by (auto simp add: ad)
    with b show "deref h6 b = deref h b"
      by (simp add: k6 k4 len4)
  qed
  have sub: "grid_addrs h6 g \<subseteq> grid_addrs h g \<union> {a. length h \<le> a}"
    by (auto simp add: ad6 ad n4_def len4 a_def)
  from af v6 l6 fr sub show ?thesis
    by (intro exI [of _ h6]) (simp add: gv4_def tf_def)
qed

lemma add_foods_st_given:
  assumes "grid_view h g = Some gv" and "grid_shape (occupied_grid gv)"
    and "int (length (occupied_spaces gv)) + int (length ps) \<le> NUM_SPACES"
    and "list_all (\<lambda>c. checkValidTile (fst c) (snd c)) ps"
  shows "\<exists>h' gv'. add_foods_st h g ps rnd = Inr (h', rnd) \<and> grid_view h' g = Some gv' \<and>
           occupied_spaces gv' =
             occupied_spaces gv @ map (\<lambda>c. setFood (GridSpace_init (fst c) (snd c))) ps \<and>
           player gv' = player gv \<and> length h \<le> length h' \<and>
           (\<forall>a. a < length h \<and> a \<notin> grid_addrs h g \<longrightarrow> deref h' a = deref h a) \<and>
           grid_addrs h' g \<subseteq> grid_addrs h g \<union> {a. length h \<le> a}"
  using assms
proof (induction ps arbitrary: h gv)
  case Nil
  then show ?case
    by (intro exI [of _ h] exI [of _ gv]) simp
next
  case (Cons c ps)
  let ?g1 = "calcSmellMatrix (gv\<lparr>occupied_spaces := occupied_spaces gv @ [setFood (GridSpace_init (fst c) (snd c))],
            occupied_grid := set2 (occupied_grid gv) (nat (fst c)) (nat (snd c)) 1\<rparr>)"
  from Cons.prems(3) have l0: "int (length (occupied_spaces gv)) < NUM_SPACES"
    by simp
  from Cons.prems(4) have v0: "checkValidTile (fst c) (snd c)"
    by simp
  from addFood_st_given [OF Cons.prems(1,2) l0 v0, of rnd] obtain h1 where a:
    "addFood_st h g (fst c) (snd c) rnd = Inr (h1, rnd)"
    "grid_view h1 g = Some ?g1" "length h \<le> length h1"
    "\<forall>a. a < length h \<and> a \<notin> grid_addrs h g \<longrightarrow> deref h1 a = deref h a"
    "grid_addrs h1 g \<subseteq> grid_addrs h g \<union> {a. length h \<le> a}"
    by blast
  have s: "grid_shape (occupied_grid ?g1)"
    using Cons.prems(2) by (simp add: grid_shape_set2)
  have l: "int (length (occupied_spaces ?g1)) + int (length ps) \<le> NUM_SPACES"
    using Cons.prems(3) by simp
  have v: "list_all (\<lambda>c. checkValidTile (fst c) (snd c)) ps"
    using Cons.prems(4) by simp
  from Cons.IH [OF a(2) s l v] obtain h' gv' where r:
    "add_foods_st h1 g ps rnd = Inr (h', rnd)" "grid_view h' g = Some gv'"
    "occupied_spaces gv' =
       occupied_spaces ?g1 @ map (\<lambda>c. setFood (GridSpace_init (fst c) (snd c))) ps"
    "player gv' = player ?g1" "length h1 \<le> length h'"
    "\<forall>a. a < length h1 \<and> a \<notin> grid_addrs h1 g \<longrightarrow> deref h' a = deref h1 a"
    "grid_addrs h' g \<subseteq> grid_addrs h1 g \<union> {a. length h1 \<le> a}"
    by blast
  have 1: "add_foods_st h g (c # ps) rnd = Inr (h', rnd)"
    by (simp add: a(1) r(1))
  have 2: "occupied_spaces gv' =
             occupied_spaces gv @ map (\<lambda>c. setFood (GridSpace_init (fst c) (snd c))) (c # ps)"
    by (simp add: r(3))
  have 3: "player gv' = player gv"
    by (simp add: r(4))
  have 4: "length h \<le> length h'"
    using a(3) r(5) by simp
  have 5: "\<forall>a. a < length h \<and> a \<notin> grid_addrs h g \<longrightarrow> deref h' a = deref h a"
  proof (intro allI impI)
    fix b assume b: "b < length h \<and> b \<notin> grid_addrs h g"
    with a(5) a(3) have "b < length h1 \<and> b \<notin> grid_addrs h1 g"
      by auto
    with r(6) have "deref h' b = deref h1 b"
      by blast
    with a(4) b show "deref h' b = deref h b"
      by simp
  qed
  have 6: "grid_addrs h' g \<subseteq> grid_addrs h g \<union> {a. length h \<le> a}"
    using r(7) a(5) a(3) by auto
  from 1 r(2) 2 3 4 5 6 show ?case
    by (intro exI [of _ h'] exI [of _ gv']) simp
qed

lemma snapshot_view_parts:
  assumes "snapshot_view h s = Some sv"
  obtains fl where
    "deref h s = Some (GameStateO (player_loc_x sv) (player_loc_y sv) (player_energy sv)
       (player_food_eaten sv) (player_score sv) fl)"
  using assms by (auto simp add: snapshot_view_def split: option.splits obj.splits)

lemma snapshot_addrs_self: "s \<in> snapshot_addrs h s"
  by (simp add: snapshot_addrs_def split: option.splits obj.splits)

lemma restoreGameState_st_given:
  assumes dg: "deref h (grid_at m) = Some (GameGridO GAME_GRID_WIDTH GAME_GRID_HEIGHT a0 b0 c0 d0)"
    and sv: "snapshot_view h s = Some sv"
    and sa: "grid_at m \<notin> snapshot_addrs h s" "\<forall>a\<in>snapshot_addrs h s. a < length h"
    and valid: "list_all (\<lambda>c. checkValidTile (fst c) (snd c)) (foods_loc sv)"
    and count: "int (length (foods_loc sv)) \<le> NUM_SPACES"
  shows "\<exists>h' gv'. restoreGameState_st h m s rnd = Inr ((h', m), rnd) \<and>
           grid_view h' (grid_at m) = Some gv' \<and>
           player gv' = restorePlayer sv \<and> food_positions gv' = foods_loc sv \<and>
           length h \<le> length h' \<and>
           (\<forall>a. a < length h \<and> a \<noteq> grid_at m \<longrightarrow> deref h' a = deref h a) \<and>
           grid_addrs h' (grid_at m) \<subseteq> insert (grid_at m) {a. length h \<le> a}"
proof -
  define g where "g = grid_at m"
  define W where "W = GAME_GRID_WIDTH"
  define H where "H = GAME_GRID_HEIGHT"
  define z where "z = (np_zeros (nat W) (nat H) :: real list list)"
  define zi where "zi = (np_zeros (nat W) (nat H) :: int list list)"
  define p0 where "p0 = GridSpaceO (setPlayer (GridSpace_init 0 0))"
  define w3 where "w3 = FloatArrayO (np_zeros 3 3)"
  define pt where "pt = GridSpaceO (setPlayer (GridSpace_init (player_loc_x sv) (player_loc_y sv)))"
  from dg have dg': "deref h g = Some (GameGridO W H a0 b0 c0 d0)"
    by (simp add: g_def W_def H_def)
  then have gl: "g < length h"
    by (rule deref_lt)
  from sv obtain fl where ds:
    "deref h s = Some (GameStateO (player_loc_x sv) (player_loc_y sv) (player_energy sv)
       (player_food_eaten sv) (player_score sv) fl)"
    by (rule snapshot_view_parts)
  have sg: "s \<noteq> g" "s < length h"
    using sa snapshot_addrs_self [of s h] by (auto simp add: g_def)
  define h1 where "h1 = (h @ [FloatArrayO z, IntArrayO zi, ListO [], p0, w3,
                PlayerO (length h + 3) 0 MAX_ENERGY MAX_ENERGY True (length h + 4) 0])
            [g := GameGridO W H (length h) (length h + 1) (length h + 2) (length h + 5)]"
  have r1: "reset_st h g = Inr h1"
    by (simp add: reset_st_eq [OF dg'] h1_def z_def zi_def p0_def w3_def)
  have len1: "length h1 = length h + 6"
    by (simp add: h1_def)
  have ds1: "deref h1 s = Some (GameStateO (player_loc_x sv) (player_loc_y sv) (player_energy sv)
       (player_food_eaten sv) (player_score sv) fl)"
    using sg ds by (simp add: h1_def deref_update deref_append)
  define h2 where "h2 = h1 @ [pt, w3,
               PlayerO (length h + 6) (player_food_eaten sv) MAX_ENERGY (player_energy sv) True
                 (length h + 7) (player_score sv)]"
  have r2: "restorePlayer_st h1 s = Inr (length h + 8, h2)"
    by (simp add: restorePlayer_st_eq [OF ds1] len1 h2_def pt_def w3_def)
  have dg2: "deref h2 g = Some (GameGridO W H (length h) (length h + 1) (length h + 2) (length h + 5))"
    using gl by (simp add: h2_def h1_def deref_append deref_update)
  define h3 where "h3 = h2[g := GameGridO W H (length h) (length h + 1) (length h + 2) (length h + 8)]"
  have len3: "length h3 = length h + 9"
    by (simp add: h3_def h2_def len1)
  have k3: "deref h3 a = deref h a" if "a < length h" "a \<noteq> g" for a
    using that by (simp add: h3_def h2_def h1_def deref_update deref_append)
  define gv3 where "gv3 = \<lparr>width = W, height = H, smell_grid = z, occupied_grid = zi,
           occupied_spaces = [],
           player = \<lparr>tile = setPlayer (GridSpace_init (player_loc_x sv) (player_loc_y sv)),
                     food_eaten = player_food_eaten sv, max_energy = MAX_ENERGY,
                     energy = player_energy sv, alive = True,
                     smell_matrix = np_zeros 3 3, score = player_score sv\<rparr>\<rparr>"
  have e1: "deref h3 g = Some (GameGridO W H (length h) (length h + 1) (length h + 2) (length h + 8))"
    using gl by (simp add: h3_def h2_def h1_def deref_update)
  have e2: "deref h3 (length h) = Some (FloatArrayO z)"
    using gl by (simp add: h3_def h2_def h1_def deref_update deref_append deref_Cons)
  have e3: "deref h3 (length h + 1) = Some (IntArrayO zi)"
    using gl by (simp add: h3_def h2_def h1_def deref_update deref_append deref_Cons)
  have e4: "deref h3 (length h + 2) = Some (ListO [])"
    using gl by (simp add: h3_def h2_def h1_def deref_update deref_append deref_Cons)
  have e5: "tiles_at h3 [] = Some []"
    by simp
  have e6: "deref h3 (length h + 8) = Some (PlayerO (length h + 6) (player_food_eaten sv) MAX_ENERGY
              (player_energy sv) True (length h + 7) (player_score sv))"
    using gl by (simp add: h3_def h2_def h1_def deref_update deref_append deref_Cons)
  have e7: "deref h3 (length h + 6) = Some pt"
    using gl by (simp add: h3_def h2_def h1_def deref_update deref_append deref_Cons)
  have e8: "deref h3 (length h + 7) = Some w3"
    using gl by (simp add: h3_def h2_def h1_def deref_update deref_append deref_Cons)
  have v3: "grid_view h3 g = Some gv3"
    unfolding gv3_def
    by (rule grid_view_build(1) [OF e1 e2 e3 e4 e5 e6 e7 [unfolded pt_def] e8 [unfolded w3_def]])
  have ad3: "grid_addrs h3 g = {g, length h, length h + 1, length h + 2, length h + 8} \<union>
               set (refs []) \<union> {length h + 6, length h + 7}"
    by (rule grid_view_build(2) [OF e1 e2 e3 e4 e5 e6 e7 [unfolded pt_def] e8 [unfolded w3_def]])
  have "snapshot_view h3 s = snapshot_view h s \<and> snapshot_addrs h3 s = snapshot_addrs h s"
  proof (rule snapshot_view_cong)
    fix a assume "a \<in> snapshot_addrs h s"
    with sa have "a < length h" "a \<noteq> g"
      by (auto simp add: g_def)
    then show "deref h3 a = deref h a"
      by (rule k3)
  qed
  with sv have sv3: "snapshot_view h3 s = Some sv"
    by simp
  have sh: "grid_shape (occupied_grid gv3)"
    by (simp add: gv3_def zi_def W_def H_def grid_shape_zeros)
  have cn: "int (length (occupied_spaces gv3)) + int (length (foods_loc sv)) \<le> NUM_SPACES"
    using count by (simp add: gv3_def)
  from add_foods_st_given [OF v3 sh cn valid, of rnd] obtain h' gv' where r:
    "add_foods_st h3 g (foods_loc sv) rnd = Inr (h', rnd)" "grid_view h' g = Some gv'"
    "occupied_spaces gv' =
       occupied_spaces gv3 @ map (\<lambda>c. setFood (GridSpace_init (fst c) (snd c))) (foods_loc sv)"
    "player gv' = player gv3" "length h3 \<le> length h'"
    "\<forall>a. a < length h3 \<and> a \<notin> grid_addrs h3 g \<longrightarrow> deref h' a = deref h3 a"
    "grid_addrs h' g \<subseteq> grid_addrs h3 g \<union> {a. length h3 \<le> a}"
    by blast
  have "restoreGameState_st h m s rnd =
          (case snapshot_view h3 s of
             None \<Rightarrow> Inl IllFormed
           | Some sv \<Rightarrow> bindF (add_foods_st h3 g (foods_loc sv) rnd)
                         (\<lambda>(h4, rnd'). Inr ((h4, m), rnd')))"
    by (simp add: restoreGameState_st_def r1 [unfolded g_def] r2 dg2 [unfolded g_def]
        h3_def g_def Let_def cong: option.case_cong)
  then have 1: "restoreGameState_st h m s rnd = Inr ((h', m), rnd)"
    by (simp add: sv3 r(1))
  have 2: "player gv' = restorePlayer sv"
    by (simp add: r(4) gv3_def restorePlayer_def Player_init_def)
  have "occupied_spaces gv' = map (\<lambda>c. setFood (GridSpace_init (fst c) (snd c))) (foods_loc sv)"
    by (simp add: r(3) gv3_def)
  then have 3: "food_positions gv' = foods_loc sv"
    by (rule food_positions_of_foods)
  have 4: "length h \<le> length h'"
    using r(5) len3 by simp
  have 5: "\<forall>a. a < length h \<and> a \<noteq> g \<longrightarrow> deref h' a = deref h a"
  proof (intro allI impI)
    fix a assume a: "a < length h \<and> a \<noteq> g"
    then have "a < length h3 \<and> a \<notin> grid_addrs h3 g"
      by (auto simp add: len3 ad3)
    with r(6) have "deref h' a = deref h3 a"
      by blast
    with a show "deref h' a = deref h a"
      by (simp add: k3)
  qed
  have 6: "grid_addrs h' g \<subseteq> insert g {a. length h \<le> a}"
    using r(7) by (auto simp add: ad3 len3)
  from 1 r(2) 2 3 4 5 6 show ?thesis
    by (intro exI [of _ h'] exI [of _ gv']) (simp add: g_def)
qed

text \<open>
  Whatever can be reached from a grid, or from a snapshot, is one of its objects.
\<close>

lemma pairs_at_objects:
  "pairs_at h vs = Some ps \<Longrightarrow> a \<in> set (refs vs) \<Longrightarrow>
   \<exists>x y. deref h a = Some (ListO [IntV x, IntV y])"
  by (induction h vs arbitrary: ps rule: pairs_at.induct)
    (auto split: option.splits obj.splits list.splits val.splits)

lemma reaches_grid_addrs:
  assumes "grid_view h g = Some gv" and "reaches h g c"
  shows "c \<in> grid_addrs h g"
proof -
  from assms(1) obtain sm oc ls pl vs t psm where p:
    "deref h g = Some (GameGridO (width gv) (height gv) sm oc ls pl)"
    "deref h sm = Some (FloatArrayO (smell_grid gv))"
    "deref h oc = Some (IntArrayO (occupied_grid gv))"
    "deref h ls = Some (ListO vs)"
    "tiles_at h vs = Some (occupied_spaces gv)"
    "deref h pl = Some (PlayerO t (food_eaten (player gv)) (max_energy (player gv))
       (energy (player gv)) (alive (player gv)) psm (score (player gv)))"
    "deref h t = Some (GridSpaceO (tile (player gv)))"
    "deref h psm = Some (FloatArrayO (smell_matrix (player gv)))"
    by (rule grid_view_parts)
  note ad = grid_view_fields(2) [OF p]
  from assms(2) show ?thesis
  proof (induction rule: reaches.induct)
    case here
    show ?case by (simp add: ad)
  next
    case (follow b v c)
    from follow.IH have "b \<in> {g, sm, oc, ls, pl, t, psm} \<or> b \<in> set (refs vs)"
      by (auto simp add: ad)
    then show ?case
    proof
      assume "b \<in> {g, sm, oc, ls, pl, t, psm}"
      with follow.hyps(2,3) p(1,2,3,4,6,7,8) show ?thesis
        by (auto simp add: ad object_refs_def)
    next
      assume "b \<in> set (refs vs)"
      with p(5) obtain tv where "deref h b = Some (GridSpaceO tv)"
        using tiles_at_refs by blast
      with follow.hyps(2,3) show ?thesis
        by (auto simp add: object_refs_def)
    qed
  qed
qed

lemma reaches_snapshot_addrs:
  assumes "snapshot_view h s = Some sv" and "reaches h s c"
  shows "c \<in> snapshot_addrs h s"
proof -
  from assms(1) obtain x y e fe sc fl vs where p:
    "deref h s = Some (GameStateO x y e fe sc fl)" "deref h fl = Some (ListO vs)"
    "pairs_at h vs = Some (foods_loc sv)"
    by (auto simp add: snapshot_view_def split: option.splits obj.splits)
  have ad: "snapshot_addrs h s = insert s (insert fl (set (refs vs)))"
    by (simp add: snapshot_addrs_def p)
  from assms(2) show ?thesis
  proof (induction rule: reaches.induct)
    case here
    show ?case by (simp add: ad)
  next
    case (follow b v c)
    from follow.IH have "b \<in> {s, fl} \<or> b \<in> set (refs vs)"
      by (auto simp add: ad)
    then show ?case
    proof
      assume "b \<in> {s, fl}"
      with follow.hyps(2,3) p(1,2) show ?thesis
        by (auto simp add: ad object_refs_def)
    next
      assume "b \<in> set (refs vs)"
      with p(3) obtain x y where "deref h b = Some (ListO [IntV x, IntV y])"
        using pairs_at_objects by blast
      with follow.hyps(2,3) show ?thesis
        by (auto simp add: object_refs_def)
    qed
  qed
qed

text \<open>
  The live grid put in place before a save reads back as that grid and leaves the
  older objects but the GameGrid as they were.
\<close>

lemma alloc_tiles_props:
  "alloc_tiles h ts = (vs, h') \<Longrightarrow>
   length h \<le> length h' \<and> (\<forall>a. a < length h \<longrightarrow> deref h' a = deref h a) \<and>
   tiles_at h' vs = Some ts \<and> set (refs vs) \<subseteq> {a. length h \<le> a \<and> a < length h'}"
proof (induction ts arbitrary: h vs h')
  case Nil
  then show ?case by auto
next
  case (Cons t ts)
  obtain vs1 h2 where a: "alloc_tiles (h @ [GridSpaceO t]) ts = (vs1, h2)"
    by (cases "alloc_tiles (h @ [GridSpaceO t]) ts")
  with Cons.prems have e: "vs = RefV (length h) # vs1" "h' = h2"
    by (simp_all add: alloc_def)
  from Cons.IH [OF a] have r: "length (h @ [GridSpaceO t]) \<le> length h2"
    "\<forall>a. a < length (h @ [GridSpaceO t]) \<longrightarrow> deref h2 a = deref (h @ [GridSpaceO t]) a"
    "tiles_at h2 vs1 = Some ts"
    "set (refs vs1) \<subseteq> {a. length (h @ [GridSpaceO t]) \<le> a \<and> a < length h2}"
    by simp_all
  from r(2) have "deref h2 (length h) = Some (GridSpaceO t)"
    by (simp add: deref_snoc)
  moreover from r(2) have "\<forall>a. a < length h \<longrightarrow> deref h2 a = deref h a"
    by (simp add: deref_snoc)
  ultimately show ?case
    using r(1,3,4) by (auto simp add: e)
qed

lemma install_grid_props:
  assumes "g < length h"
  shows "grid_view (install_grid h g gv) g = Some gv"
    and "length h \<le> length (install_grid h g gv)"
    and "\<forall>a. a < length h \<and> a \<noteq> g \<longrightarrow> deref (install_grid h g gv) a = deref h a"
proof -
  obtain vs h1 where a: "alloc_tiles h (occupied_spaces gv) = (vs, h1)"
    by (cases "alloc_tiles h (occupied_spaces gv)")
  from alloc_tiles_props [OF a] have r: "length h \<le> length h1"
    "\<forall>a. a < length h \<longrightarrow> deref h1 a = deref h a"
    "tiles_at h1 vs = Some (occupied_spaces gv)"
    "set (refs vs) \<subseteq> {a. length h \<le> a \<and> a < length h1}"
    by simp_all
  define pv where "pv = PlayerO (length h1 + 3) (food_eaten (player gv)) (max_energy (player gv))
                       (energy (player gv)) (alive (player gv)) (length h1 + 4) (score (player gv))"
  define h7 where "h7 = h1 @ [ListO vs, FloatArrayO (smell_grid gv), IntArrayO (occupied_grid gv),
                         GridSpaceO (tile (player gv)), FloatArrayO (smell_matrix (player gv)), pv]"
  define gg where "gg = GameGridO (width gv) (height gv) (length h1 + 1) (length h1 + 2) (length h1)
                          (length h1 + 5)"
  have eq: "install_grid h g gv = h7[g := gg]"
    by (simp add: install_grid_def a alloc_def Let_def h7_def pv_def gg_def eval_nat_numeral)
  have gl: "g < length h1"
    using assms r(1) by simp
  have 1: "deref (h7[g := gg]) g = Some (GameGridO (width gv) (height gv) (length h1 + 1)
             (length h1 + 2) (length h1) (length h1 + 5))"
    using gl by (simp add: h7_def deref_update gg_def)
  have 2: "deref (h7[g := gg]) (length h1 + 1) = Some (FloatArrayO (smell_grid gv))"
    using gl by (simp add: h7_def deref_update deref_append deref_Cons)
  have 3: "deref (h7[g := gg]) (length h1 + 2) = Some (IntArrayO (occupied_grid gv))"
    using gl by (simp add: h7_def deref_update deref_append deref_Cons)
  have 4: "deref (h7[g := gg]) (length h1) = Some (ListO vs)"
    using gl by (simp add: h7_def deref_update deref_append deref_Cons)
  have "tiles_at (h7[g := gg]) vs = tiles_at h1 vs"
  proof (rule tiles_at_cong)
    fix b assume "b \<in> set (refs vs)"
    with r(4) assms have "b < length h1" "b \<noteq> g"
      by auto
    then show "deref (h7[g := gg]) b = deref h1 b"
      by (simp add: h7_def deref_update deref_append)
  qed
  with r(3) have 5: "tiles_at (h7[g := gg]) vs = Some (occupied_spaces gv)"
    by simp
  have 6: "deref (h7[g := gg]) (length h1 + 5) =
      Some (PlayerO (length h1 + 3) (food_eaten (player gv)) (max_energy (player gv))
                       (energy (player gv)) (alive (player gv)) (length h1 + 4) (score (player gv)))"
    using gl by (simp add: h7_def deref_update deref_append deref_Cons pv_def)
  have 7: "deref (h7[g := gg]) (length h1 + 3) = Some (GridSpaceO (tile (player gv)))"
    using gl by (simp add: h7_def deref_update deref_append deref_Cons)
  have 8: "deref (h7[g := gg]) (length h1 + 4) = Some (FloatArrayO (smell_matrix (player gv)))"
    using gl by (simp add: h7_def deref_update deref_append deref_Cons)
  show "grid_view (install_grid h g gv) g = Some gv"
    unfolding eq using 1 2 3 4 5 6 7 8 by (rule grid_view_fields(1))
  show "length h \<le> length (install_grid h g gv)"
    using r(1) by (simp add: eq h7_def)
  show "\<forall>a. a < length h \<and> a \<noteq> g \<longrightarrow> deref (install_grid h g gv) a = deref h a"
    using r(1,2) by (simp add: eq h7_def deref_update deref_append)
qed

text \<open>
  One save, the saves after the first, which leave the first snapshot as it is, and
  the rewind to the first snapshot.
\<close>

lemma push_step:
  assumes st: "deref h (states_at m) = Some (ListO ss)"
    and lt: "int (length ss) < MAX_SAVED_GAME_STATES"
    and gl: "grid_at m < length h" and ne: "grid_at m \<noteq> states_at m"
  shows "\<exists>h' s sm oc ls pl. saveGameState_st (install_grid h (grid_at m) gv) m = Inr (h', m) \<and>
           length h \<le> s \<and> s < length h' \<and>
           (\<forall>a. a < length h \<and> a \<noteq> states_at m \<and> a \<noteq> grid_at m \<longrightarrow> deref h' a = deref h a) \<and>
           deref h' (states_at m) = Some (ListO (ss @ [RefV s])) \<and>
           snapshot_view h' s = Some (GameState_init gv) \<and>
           snapshot_addrs h' s \<subseteq> {a. length h \<le> a \<and> a < length h'} \<and>
           deref h' (grid_at m) = Some (GameGridO (width gv) (height gv) sm oc ls pl)"
proof -
  define hi where "hi = install_grid h (grid_at m) gv"
  note i = install_grid_props [OF gl, of gv, folded hi_def]
  from st have sl: "states_at m < length h"
    by (rule deref_lt)
  with i(3) st ne have sti: "deref hi (states_at m) = Some (ListO ss)"
    by simp
  from saveGameState_st_props [OF sti lt i(1)] obtain h' s where r:
    "saveGameState_st hi m = Inr (h', m)" "length hi \<le> s" "s < length h'"
    "\<forall>a. a < length hi \<and> a \<noteq> states_at m \<longrightarrow> deref h' a = deref hi a"
    "deref h' (states_at m) = Some (ListO (ss @ [RefV s]))"
    "snapshot_view h' s = Some (GameState_init gv)"
    "snapshot_addrs h' s \<subseteq> {a. length hi \<le> a \<and> a < length h'}"
    by blast
  from i(1) obtain sm oc ls pl where
    "deref hi (grid_at m) = Some (GameGridO (width gv) (height gv) sm oc ls pl)"
    by (rule grid_view_parts)
  moreover from gl i(2) have "grid_at m < length hi"
    by simp
  ultimately have dg: "deref h' (grid_at m) = Some (GameGridO (width gv) (height gv) sm oc ls pl)"
    using r(4) ne by simp
  have fr: "\<forall>a. a < length h \<and> a \<noteq> states_at m \<and> a \<noteq> grid_at m \<longrightarrow> deref h' a = deref h a"
  proof (intro allI impI)
    fix a assume a: "a < length h \<and> a \<noteq> states_at m \<and> a \<noteq> grid_at m"
    with i(2) r(4) have "deref h' a = deref hi a"
      by simp
    with i(3) a show "deref h' a = deref h a"
      by simp
  qed
  have "length h \<le> s"
    using i(2) r(2) by simp
  moreover have "snapshot_addrs h' s \<subseteq> {a. length h \<le> a \<and> a < length h'}"
    using r(7) i(2) by auto
  ultimately show ?thesis
    using r(1,3,5,6) fr dg
    by (intro exI [of _ h'] exI [of _ s] exI [of _ sm] exI [of _ oc] exI [of _ ls] exI [of _ pl])
      (simp add: hi_def)
qed

lemma push_more:
  assumes "deref h (states_at m) = Some (ListO (RefV s1 # vs))"
    and "int (length vs) + 1 + int (length gvs) \<le> MAX_SAVED_GAME_STATES"
    and "grid_at m < length h" and "grid_at m \<noteq> states_at m"
    and "snapshot_view h s1 = Some sv1"
    and "snapshot_addrs h s1 \<subseteq> {a. a < length h \<and> a \<noteq> grid_at m \<and> a \<noteq> states_at m}"
    and "deref h (grid_at m) = Some (GameGridO w ht sm oc ls pl)"
  shows "\<exists>h' vs' sm' oc' ls' pl'. push_snapshots_st h m gvs = Inr (h', m) \<and>
           deref h' (states_at m) = Some (ListO (RefV s1 # vs')) \<and>
           length vs' = length vs + length gvs \<and>
           snapshot_view h' s1 = Some sv1 \<and>
           snapshot_addrs h' s1 \<subseteq> {a. a < length h' \<and> a \<noteq> grid_at m \<and> a \<noteq> states_at m} \<and>
           deref h' (grid_at m) =
             Some (GameGridO (if gvs = [] then w else width (last gvs))
                     (if gvs = [] then ht else height (last gvs)) sm' oc' ls' pl')"
  using assms
proof (induction gvs arbitrary: h vs w ht sm oc ls pl)
  case Nil
  then show ?case
    by (intro exI [of _ h] exI [of _ vs] exI [of _ sm] exI [of _ oc] exI [of _ ls] exI [of _ pl])
      simp
next
  case (Cons gv gvs)
  from Cons.prems(2) have lt: "int (length (RefV s1 # vs)) < MAX_SAVED_GAME_STATES"
    by simp
  from push_step [OF Cons.prems(1) lt Cons.prems(3,4), of gv] obtain h1 s sm1 oc1 ls1 pl1 where r:
    "saveGameState_st (install_grid h (grid_at m) gv) m = Inr (h1, m)"
    "length h \<le> s" "s < length h1"
    "\<forall>a. a < length h \<and> a \<noteq> states_at m \<and> a \<noteq> grid_at m \<longrightarrow> deref h1 a = deref h a"
    "deref h1 (states_at m) = Some (ListO ((RefV s1 # vs) @ [RefV s]))"
    "deref h1 (grid_at m) = Some (GameGridO (width gv) (height gv) sm1 oc1 ls1 pl1)"
    by blast
  have le: "length h \<le> length h1"
    using r(2,3) by simp
  have "snapshot_view h1 s1 = snapshot_view h s1 \<and> snapshot_addrs h1 s1 = snapshot_addrs h s1"
  proof (rule snapshot_view_cong)
    fix a assume "a \<in> snapshot_addrs h s1"
    with Cons.prems(6) have "a < length h \<and> a \<noteq> states_at m \<and> a \<noteq> grid_at m"
      by auto
    with r(4) show "deref h1 a = deref h a"
      by blast
  qed
  with Cons.prems(5,6) le have sv: "snapshot_view h1 s1 = Some sv1"
    and sa: "snapshot_addrs h1 s1 \<subseteq> {a. a < length h1 \<and> a \<noteq> grid_at m \<and> a \<noteq> states_at m}"
    by auto
  have d1: "deref h1 (states_at m) = Some (ListO (RefV s1 # (vs @ [RefV s])))"
    using r(5) by simp
  have l1: "int (length (vs @ [RefV s])) + 1 + int (length gvs) \<le> MAX_SAVED_GAME_STATES"
    using Cons.prems(2) by simp
  have g1: "grid_at m < length h1"
    using Cons.prems(3) le by simp
  from Cons.IH [OF d1 l1 g1 Cons.prems(4) sv sa r(6)] obtain h' vs' sm' oc' ls' pl' where q:
    "push_snapshots_st h1 m gvs = Inr (h', m)"
    "deref h' (states_at m) = Some (ListO (RefV s1 # vs'))"
    "length vs' = length (vs @ [RefV s]) + length gvs"
    "snapshot_view h' s1 = Some sv1"
    "snapshot_addrs h' s1 \<subseteq> {a. a < length h' \<and> a \<noteq> grid_at m \<and> a \<noteq> states_at m}"
    "deref h' (grid_at m) =
       Some (GameGridO (if gvs = [] then width gv else width (last gvs))
               (if gvs = [] then height gv else height (last gvs)) sm' oc' ls' pl')"
    by blast
  have p: "push_snapshots_st h m (gv # gvs) = Inr (h', m)"
    by (simp add: r(1) q(1))
  have l: "length vs' = length vs + length (gv # gvs)"
    using q(3) by simp
  have d: "deref h' (grid_at m) =
       Some (GameGridO (if gv # gvs = [] then w else width (last (gv # gvs)))
               (if gv # gvs = [] then ht else height (last (gv # gvs))) sm' oc' ls' pl')"
    using q(6) by simp
  from p q(2) l q(4) q(5) d show ?case
    by (intro exI [of _ h'] exI [of _ vs'] exI [of _ sm'] exI [of _ oc'] exI [of _ ls']
        exI [of _ pl']) (intro conjI)
qed

lemma rewind_to_first:
  assumes st: "deref h (states_at m) = Some (ListO (RefV s1 # vs))" and ne: "vs \<noteq> []"
    and sv: "snapshot_view h s1 = Some sv1"
    and sa: "snapshot_addrs h s1 \<subseteq> {a. a < length h \<and> a \<noteq> grid_at m \<and> a \<noteq> states_at m}"
    and dg: "deref h (grid_at m) = Some (GameGridO GAME_GRID_WIDTH GAME_GRID_HEIGHT sm oc ls pl)"
    and valid: "list_all (\<lambda>c. checkValidTile (fst c) (snd c)) (foods_loc sv1)"
    and count: "int (length (foods_loc sv1)) \<le> NUM_SPACES"
  shows "\<exists>h' m' gv'. rewindGameState_st h m (int (length vs)) rnd = Inr ((h', m'), rnd) \<and>
           grid_at m' = grid_at m \<and>
           deref h' (states_at m') = Some (ListO [RefV s1]) \<and>
           snapshot_view h' s1 = Some sv1 \<and>
           grid_view h' (grid_at m') = Some gv' \<and>
           player gv' = restorePlayer sv1 \<and> food_positions gv' = foods_loc sv1 \<and>
           grid_addrs h' (grid_at m') \<inter> snapshot_addrs h' s1 = {}"
proof -
  define h1 where "h1 = h @ [ListO [RefV s1]]"
  define m1 where "m1 = m\<lparr>states_at := length h\<rparr>"
  have g1: "grid_at m1 = grid_at m" "states_at m1 = length h"
    by (simp_all add: m1_def)
  from dg have gl: "grid_at m < length h"
    by (rule deref_lt)
  have sl: "py_slice (RefV s1 # vs) 0 (- int (length vs)) = [RefV s1]"
    using py_slice_all_but_first [of "RefV s1 # vs"] ne by (cases vs) simp_all
  have rw: "rewindGameState_st h m (int (length vs)) rnd = restoreGameState_st h1 m1 s1 rnd"
    using ne by (simp add: rewindGameState_st_def st Let_def sl alloc_def h1_def m1_def)
  have k1: "deref h1 a = deref h a" if "a < length h" for a
    using that by (simp add: h1_def deref_snoc)
  have dg1: "deref h1 (grid_at m1) = Some (GameGridO GAME_GRID_WIDTH GAME_GRID_HEIGHT sm oc ls pl)"
    using dg gl by (simp add: g1 k1)
  have c1: "snapshot_view h1 s1 = snapshot_view h s1 \<and> snapshot_addrs h1 s1 = snapshot_addrs h s1"
  proof (rule snapshot_view_cong)
    fix a assume "a \<in> snapshot_addrs h s1"
    with sa have "a < length h"
      by auto
    then show "deref h1 a = deref h a"
      by (rule k1)
  qed
  with sv have sv1: "snapshot_view h1 s1 = Some sv1"
    by simp
  have sa1: "grid_at m1 \<notin> snapshot_addrs h1 s1" "\<forall>a\<in>snapshot_addrs h1 s1. a < length h1"
    using c1 sa by (auto simp add: g1 h1_def)
  from restoreGameState_st_given [OF dg1 sv1 sa1 valid count, of rnd] obtain h' gv' where r:
    "restoreGameState_st h1 m1 s1 rnd = Inr ((h', m1), rnd)"
    "grid_view h' (grid_at m1) = Some gv'"
    "player gv' = restorePlayer sv1" "food_positions gv' = foods_loc sv1"
    "length h1 \<le> length h'"
    "\<forall>a. a < length h1 \<and> a \<noteq> grid_at m1 \<longrightarrow> deref h' a = deref h1 a"
    "grid_addrs h' (grid_at m1) \<subseteq> insert (grid_at m1) {a. length h1 \<le> a}"
    by blast
  have "deref h' (length h) = deref h1 (length h)"
    using r(6) gl by (simp add: g1 h1_def)
  then have hist: "deref h' (states_at m1) = Some (ListO [RefV s1])"
    by (simp add: g1 h1_def deref_snoc)
  have c2: "snapshot_view h' s1 = snapshot_view h1 s1 \<and> snapshot_addrs h' s1 = snapshot_addrs h1 s1"
  proof (rule snapshot_view_cong)
    fix a assume "a \<in> snapshot_addrs h1 s1"
    with sa1 have "a < length h1 \<and> a \<noteq> grid_at m1"
      by auto
    with r(6) show "deref h' a = deref h1 a"
      by blast
  qed
  with sv1 have sv2: "snapshot_view h' s1 = Some sv1"
    by simp
  have dis: "grid_addrs h' (grid_at m1) \<inter> snapshot_addrs h' s1 = {}"
  proof -
    have b: "snapshot_addrs h' s1 \<subseteq> {a. a < length h1 \<and> a \<noteq> grid_at m1}"
      using c2 sa1 by auto
    have False if x: "x \<in> grid_addrs h' (grid_at m1)" "x \<in> snapshot_addrs h' s1" for x
    proof -
      from x(1) r(7) have "x = grid_at m1 \<or> length h1 \<le> x"
        by auto
      moreover from x(2) b have "x < length h1 \<and> x \<noteq> grid_at m1"
        by auto
      ultimately show False
        by auto
    qed
    then show ?thesis
      by auto
  qed
  from rw r(1,2,3,4) hist sv2 dis g1(1) show ?thesis
    by (intro exI [of _ h'] exI [of _ m1] exI [of _ gv']) simp
qed

lemma disjoint_not_shares:
  assumes "grid_view h g = Some gv" and "snapshot_view h s = Some sv"
    and "grid_addrs h g \<inter> snapshot_addrs h s = {}"
  shows "\<not> shares h g s"
proof
  assume "shares h g s"
  then obtain c where "reaches h g c" "reaches h s c"
    by (auto simp add: shares_def)
  with assms(1,2) have "c \<in> grid_addrs h g" "c \<in> snapshot_addrs h s"
    by (auto intro: reaches_grid_addrs reaches_snapshot_addrs)
  with assms(3) show False
    by auto
qed

text \<open>
  Sharing is not excluded by the shape of the store: a grid whose tile list were the
  \<open>foods_loc\<close> list of a snapshot would share it.
\<close>

lemma shares_when_aliased:
  assumes "deref h g = Some (GameGridO w ht sm oc fl pl)"
    and "deref h s = Some (GameStateO x y e fe sc fl)"
  shows "shares h g s"
proof -
  have "reaches h g fl"
    using reaches.here [of h g] assms(1) by (rule reaches.follow) (simp add: object_refs_def)
  moreover have "reaches h s fl"
    using reaches.here [of h s] assms(2) by (rule reaches.follow) (simp add: object_refs_def)
  ultimately show ?thesis
    by (auto simp add: shares_def)
qed

text \<open>
  C9. Start from a store whose history list is empty and save N snapshots,
  2 \<le> N \<le> MAX_SAVED_GAME_STATES, the first of them of a grid whose food tiles lie on
  the grid (as every tile the program places does), the live grid having the
  configured size. The history then holds N snapshots, the first saved one first, and
  \<open>rewindGameState(N - 1)\<close> returns without a random draw: the history is a list of that
  first snapshot alone, the snapshot still holds the values captured when it was
  saved, the agent's position, energy, score and food_eaten and the food positions of
  the live grid are these values, and no object can be reached both from the live
  grid and from the snapshot, so the restored state shares no mutable structure with
  it.
\<close>

theorem rewind_restores_first_snapshot:
  assumes "deref h0 (states_at m0) = Some (ListO [])"
    and "grid_at m0 < length h0" and "grid_at m0 \<noteq> states_at m0"
    and "2 \<le> length gs" and "int (length gs) \<le> MAX_SAVED_GAME_STATES"
    and "foods_on_grid (hd gs)"
    and "width (last gs) = GAME_GRID_WIDTH" and "height (last gs) = GAME_GRID_HEIGHT"
  shows "\<exists>h m h' m' s vs gv.
           push_snapshots_st h0 m0 gs = Inr (h, m) \<and>
           deref h (states_at m) = Some (ListO (RefV s # vs)) \<and> Suc (length vs) = length gs \<and>
           rewindGameState_st h m (int (length gs) - 1) rnd = Inr ((h', m'), rnd) \<and>
           deref h' (states_at m') = Some (ListO [RefV s]) \<and>
           snapshot_view h s = Some (GameState_init (hd gs)) \<and>
           snapshot_view h' s = Some (GameState_init (hd gs)) \<and>
           grid_view h' (grid_at m') = Some gv \<and>
           tile_x (tile (player gv)) = tile_x (tile (player (hd gs))) \<and>
           tile_y (tile (player gv)) = tile_y (tile (player (hd gs))) \<and>
           energy (player gv) = energy (player (hd gs)) \<and>
           score (player gv) = score (player (hd gs)) \<and>
           food_eaten (player gv) = food_eaten (player (hd gs)) \<and>
           food_positions gv = food_positions (hd gs) \<and>
           \<not> shares h' (grid_at m') s"
proof -
  from assms(4) obtain g1 rest where gs: "gs = g1 # rest" and rest: "rest \<noteq> []"
    by (cases gs) (auto simp add: Suc_le_eq)
  define sv1 where "sv1 = GameState_init g1"
  have lt: "int (length ([] :: val list)) < MAX_SAVED_GAME_STATES"
    by (simp add: config_defs)
  from push_step [OF assms(1) lt assms(2,3), of g1] obtain h1 s sm oc ls pl where r:
    "saveGameState_st (install_grid h0 (grid_at m0) g1) m0 = Inr (h1, m0)"
    "length h0 \<le> s" "s < length h1"
    "deref h1 (states_at m0) = Some (ListO ([] @ [RefV s]))"
    "snapshot_view h1 s = Some sv1"
    "snapshot_addrs h1 s \<subseteq> {a. length h0 \<le> a \<and> a < length h1}"
    "deref h1 (grid_at m0) = Some (GameGridO (width g1) (height g1) sm oc ls pl)"
    unfolding sv1_def by blast
  from assms(1) have sl: "states_at m0 < length h0"
    by (rule deref_lt)
  have d1: "deref h1 (states_at m0) = Some (ListO (RefV s # []))"
    using r(4) by simp
  have l1: "int (length ([] :: val list)) + 1 + int (length rest) \<le> MAX_SAVED_GAME_STATES"
    using assms(5) by (simp add: gs)
  have gl1: "grid_at m0 < length h1"
    using assms(2) r(2,3) by simp
  have sa1: "snapshot_addrs h1 s \<subseteq> {a. a < length h1 \<and> a \<noteq> grid_at m0 \<and> a \<noteq> states_at m0}"
    using r(6) assms(2) sl by auto
  from push_more [OF d1 l1 gl1 assms(3) r(5) sa1 r(7)] obtain h vs sm' oc' ls' pl' where q:
    "push_snapshots_st h1 m0 rest = Inr (h, m0)"
    "deref h (states_at m0) = Some (ListO (RefV s # vs))"
    "length vs = length ([] :: val list) + length rest"
    "snapshot_view h s = Some sv1"
    "snapshot_addrs h s \<subseteq> {a. a < length h \<and> a \<noteq> grid_at m0 \<and> a \<noteq> states_at m0}"
    "deref h (grid_at m0) =
       Some (GameGridO (if rest = [] then width g1 else width (last rest))
               (if rest = [] then height g1 else height (last rest)) sm' oc' ls' pl')"
    by blast
  have p: "push_snapshots_st h0 m0 gs = Inr (h, m0)"
    by (simp add: gs r(1) q(1))
  have vs: "vs \<noteq> []" "int (length vs) = int (length gs) - 1"
    using q(3) rest by (auto simp add: gs)
  have ln: "Suc (length vs) = length gs"
    using q(3) by (simp add: gs)
  have dg: "deref h (grid_at m0) = Some (GameGridO GAME_GRID_WIDTH GAME_GRID_HEIGHT sm' oc' ls' pl')"
    using q(6) rest assms(7,8) by (simp add: gs)
  have fl: "foods_loc sv1 = food_positions g1"
    by (simp add: sv1_def GameState_init_def food_positions_def)
  from assms(6) have valid: "list_all (\<lambda>c. checkValidTile (fst c) (snd c)) (foods_loc sv1)"
    and count: "int (length (foods_loc sv1)) \<le> NUM_SPACES"
    by (simp_all add: foods_on_grid_def fl gs)
  from rewind_to_first [OF q(2) vs(1) q(4) q(5) dg valid count, of rnd]
  obtain h' m' gv where w:
    "rewindGameState_st h m0 (int (length vs)) rnd = Inr ((h', m'), rnd)"
    "deref h' (states_at m') = Some (ListO [RefV s])"
    "snapshot_view h' s = Some sv1"
    "grid_view h' (grid_at m') = Some gv"
    "player gv = restorePlayer sv1" "food_positions gv = foods_loc sv1"
    "grid_addrs h' (grid_at m') \<inter> snapshot_addrs h' s = {}"
    by blast
  have ns: "\<not> shares h' (grid_at m') s"
    using w(4,3,7) by (rule disjoint_not_shares)
  have pl: "tile_x (tile (player gv)) = tile_x (tile (player g1))"
    "tile_y (tile (player gv)) = tile_y (tile (player g1))"
    "energy (player gv) = energy (player g1)"
    "score (player gv) = score (player g1)"
    "food_eaten (player gv) = food_eaten (player g1)"
    by (simp_all add: w(5) sv1_def restorePlayer_def GameState_init_def Player_init_def
        setPlayer_def GridSpace_init_def)
  have fp: "food_positions gv = food_positions g1"
    by (simp add: w(6) fl)
  have hd: "hd gs = g1"
    by (simp add: gs)
  from p q(2) ln w(1) [unfolded vs(2)] w(2) q(4) w(3) w(4) pl fp ns show ?thesis
    unfolding hd sv1_def
    by (intro exI [of _ h] exI [of _ m0] exI [of _ h'] exI [of _ m'] exI [of _ s] exI [of _ vs]
        exI [of _ gv]) (intro conjI)
qed

theorem rewind_restores_first_snapshot_witness:
  "deref start_store (states_at start_manager) = Some (ListO []) \<and>
   grid_at start_manager < length start_store \<and>
   grid_at start_manager \<noteq> states_at start_manager \<and>
   2 \<le> length [fed_grid, starving_grid] \<and>
   int (length [fed_grid, starving_grid]) \<le> MAX_SAVED_GAME_STATES \<and>
   foods_on_grid (hd [fed_grid, starving_grid]) \<and>
   width (last [fed_grid, starving_grid]) = GAME_GRID_WIDTH \<and>
   height (last [fed_grid, starving_grid]) = GAME_GRID_HEIGHT \<and>
   (\<exists>h m h' m' s vs gv.
      push_snapshots_st start_store start_manager [fed_grid, starving_grid] = Inr (h, m) \<and>
      deref h (states_at m) = Some (ListO (RefV s # vs)) \<and> length vs = 1 \<and>
      rewindGameState_st h m 1 [] = Inr ((h', m'), []) \<and>
      deref h' (states_at m') = Some (ListO [RefV s]) \<and>
      snapshot_view h s = Some (GameState_init fed_grid) \<and>
      snapshot_view h' s = Some (GameState_init fed_grid) \<and>
      grid_view h' (grid_at m') = Some gv \<and>
      tile_x (tile (player gv)) = 5 \<and>
      tile_y (tile (player gv)) = 5 \<and>
      energy (player gv) = 57 \<and>
      score (player gv) = 30 \<and>
      food_eaten (player gv) = 2 \<and>
      food_positions gv = [(5, 4)] \<and>
      \<not> shares h' (grid_at m') s)"
proof -
  have h1: "deref start_store (states_at start_manager) = Some (ListO [])"
    by (simp add: start_store_def start_manager_def deref_def)
  have h2: "grid_at start_manager < length start_store"
    by (simp add: start_store_def start_manager_def)
  have h3: "grid_at start_manager \<noteq> states_at start_manager"
    by (simp add: start_manager_def)
  have h4: "2 \<le> length [fed_grid, starving_grid]"
    by simp
  have h5: "int (length [fed_grid, starving_grid]) \<le> MAX_SAVED_GAME_STATES"
    by (simp add: config_defs)
  have fp: "food_positions fed_grid = [(5, 4)]"
    by (simp add: food_positions_def fed_grid_def north_food_grid_def setFood_def GridSpace_init_def)
  have h6: "foods_on_grid (hd [fed_grid, starving_grid])"
    by (simp add: foods_on_grid_def fp checkValidTile_def config_defs)
  have h7: "width (last [fed_grid, starving_grid]) = GAME_GRID_WIDTH"
    by (simp add: starving_grid_def GameGrid_init_def reset_def)
  have h8: "height (last [fed_grid, starving_grid]) = GAME_GRID_HEIGHT"
    by (simp add: starving_grid_def GameGrid_init_def reset_def)
  have pl: "tile_x (tile (player fed_grid)) = 5" "tile_y (tile (player fed_grid)) = 5"
    "energy (player fed_grid) = 57" "score (player fed_grid) = 30"
    "food_eaten (player fed_grid) = 2"
    by (simp_all add: fed_grid_def Player_init_def setPlayer_def GridSpace_init_def)
  from rewind_restores_first_snapshot [OF h1 h2 h3 h4 h5 h6 h7 h8, of "[]"]
  have "\<exists>h m h' m' s vs gv.
      push_snapshots_st start_store start_manager [fed_grid, starving_grid] = Inr (h, m) \<and>
      deref h (states_at m) = Some (ListO (RefV s # vs)) \<and> length vs = 1 \<and>
      rewindGameState_st h m 1 [] = Inr ((h', m'), []) \<and>
      deref h' (states_at m') = Some (ListO [RefV s]) \<and>
      snapshot_view h s = Some (GameState_init fed_grid) \<and>
      snapshot_view h' s = Some (GameState_init fed_grid) \<and>
      grid_view h' (grid_at m') = Some gv \<and>
      tile_x (tile (player gv)) = 5 \<and>
      tile_y (tile (player gv)) = 5 \<and>
      energy (player gv) = 57 \<and>
      score (player gv) = 30 \<and>
      food_eaten (player gv) = 2 \<and>
      food_positions gv = [(5, 4)] \<and>
      \<not> shares h' (grid_at m') s"
    by (simp add: pl fp)
  with h1 h2 h3 h4 h5 h6 h7 h8 show ?thesis
    by blast
qed

section \<open>Placement, removal and the one-tile-per-position invariant\<close>

lemma set_grid_cells: "set (grid_cells h w) = {(i, j). i < h \<and> j < w}"
  by (auto simp add: grid_cells_def)

lemma marks_agree_iff:
  "marks_agree g \<longleftrightarrow>
     (\<forall>a < nat GAME_GRID_WIDTH. \<forall>b < nat GAME_GRID_HEIGHT.
        occupied_grid g ! a ! b =
          (if (int a, int b) \<in> set (positions (occupied_spaces g)) then 1 else 0))"
  by (auto simp add: marks_agree_def list_all_iff set_grid_cells)

lemma checkValidTile_iff:
  "checkValidTile x y \<longleftrightarrow> 0 \<le> x \<and> x < GAME_GRID_WIDTH \<and> 0 \<le> y \<and> y < GAME_GRID_HEIGHT"
  by (auto simp add: checkValidTile_def)

lemma valid_grid_mark:
  assumes "valid_grid g" and "checkValidTile x y"
  shows "occupied_grid g ! nat x ! nat y = (if (x, y) \<in> set (positions (occupied_spaces g)) then 1 else 0)"
proof -
  from assms(2) have "nat x < nat GAME_GRID_WIDTH" "nat y < nat GAME_GRID_HEIGHT" "0 \<le> x" "0 \<le> y"
    by (simp_all add: checkValidTile_iff)
  with assms(1) show ?thesis
    by (auto simp add: valid_grid_def marks_agree_iff)
qed

lemma valid_grid_position_on_grid:
  "valid_grid g \<Longrightarrow> (x, y) \<in> set (positions (occupied_spaces g)) \<Longrightarrow> checkValidTile x y"
  by (auto simp add: valid_grid_def positions_def list_all_iff)

lemma checkOccupied_iff:
  assumes "valid_grid g"
  shows "checkOccupied g x y \<longleftrightarrow> (x, y) \<in> set (positions (occupied_spaces g))"
proof (cases "checkValidTile x y")
  case True
  with valid_grid_mark [OF assms True] show ?thesis
    by (simp add: checkOccupied_def)
next
  case False
  with valid_grid_position_on_grid [OF assms] show ?thesis
    by (auto simp add: checkOccupied_def)
qed

lemma nth_set2:
  "r < length a \<Longrightarrow> c < length (a ! r) \<Longrightarrow>
   set2 a r c v ! i ! j = (if i = r \<and> j = c then v else a ! i ! j)"
  by (auto simp add: set2_def nth_list_update)

lemma valid_grid_calcSmellMatrix [simp]: "valid_grid (calcSmellMatrix g) = valid_grid g"
  by (simp add: valid_grid_def marks_agree_def)

lemma valid_grid_addTile:
  assumes "valid_grid g" and "checkValidTile (tile_x t) (tile_y t)"
    and "\<not> checkOccupied g (tile_x t) (tile_y t)"
  shows "\<exists>g'. addTile g t = Inr g' \<and> valid_grid g' \<and> occupied_spaces g' = occupied_spaces g @ [t] \<and>
           player g' = player g"
proof -
  let ?g' = "g\<lparr>occupied_spaces := occupied_spaces g @ [t],
            occupied_grid := set2 (occupied_grid g) (nat (tile_x t)) (nat (tile_y t)) 1\<rparr>"
  from assms(1) have sh: "grid_shape (occupied_grid g)"
    by (simp add: valid_grid_def)
  from addTile_on_grid [OF sh assms(2)] have a: "addTile g t = Inr ?g'" .
  from assms(2) have x: "nat (tile_x t) < nat GAME_GRID_WIDTH" "0 \<le> tile_x t"
    and y: "nat (tile_y t) < nat GAME_GRID_HEIGHT" "0 \<le> tile_y t"
    by (simp_all add: checkValidTile_iff)
  from sh x have lr: "nat (tile_x t) < length (occupied_grid g)"
    by (simp add: grid_shape_def)
  from grid_shape_row [OF sh x(1)] y have lc: "nat (tile_y t) < length (occupied_grid g ! nat (tile_x t))"
    by simp
  from assms(1,3) have new: "(tile_x t, tile_y t) \<notin> set (positions (occupied_spaces g))"
    by (simp add: checkOccupied_iff)
  have "marks_agree ?g'"
    unfolding marks_agree_iff
  proof (intro allI impI)
    fix a b assume ab: "a < nat GAME_GRID_WIDTH" "b < nat GAME_GRID_HEIGHT"
    from assms(1) ab have old: "occupied_grid g ! a ! b =
        (if (int a, int b) \<in> set (positions (occupied_spaces g)) then 1 else 0)"
      by (simp add: valid_grid_def marks_agree_iff)
    have "(a = nat (tile_x t) \<and> b = nat (tile_y t)) \<longleftrightarrow> (int a, int b) = (tile_x t, tile_y t)"
      using x y by auto
    with old new show "occupied_grid ?g' ! a ! b =
        (if (int a, int b) \<in> set (positions (occupied_spaces ?g')) then 1 else 0)"
      by (auto simp add: nth_set2 [OF lr lc] positions_def)
  qed
  with assms(1,2) new have "valid_grid ?g'"
    by (simp add: valid_grid_def grid_shape_set2 positions_def)
  with a show ?thesis by simp
qed

lemma randint_range: "a \<le> b \<Longrightarrow> a \<le> randint a b r \<and> randint a b r \<le> b"
proof -
  assume ab: "a \<le> b"
  then have "r mod nat (b - a + 1) < nat (b - a + 1)" by simp
  then have "int (r mod nat (b - a + 1)) < b - a + 1" using ab by linarith
  then show ?thesis by (simp add: randint_def)
qed

lemma rejection_empty:
  "rejection og rnd = Inr ((x, y), rnd') \<Longrightarrow> checkValidTile x y \<and> og ! nat x ! nat y = 0"
proof (induction og rnd rule: rejection.induct)
  case (1 og rx ry rs)
  let ?x = "randint 0 (GAME_GRID_WIDTH - 1) rx"
  let ?y = "randint 0 (GAME_GRID_HEIGHT - 1) ry"
  show ?case
  proof (cases "og ! nat ?x ! nat ?y = 0")
    case True
    with "1.prems" have e: "x = ?x" "y = ?y"
      by (simp_all add: Let_def)
    have "0 \<le> ?x \<and> ?x \<le> GAME_GRID_WIDTH - 1" "0 \<le> ?y \<and> ?y \<le> GAME_GRID_HEIGHT - 1"
      by (rule randint_range, simp add: config_defs)+
    with True e show ?thesis
      by (simp add: checkValidTile_iff)
  next
    case False
    with "1.prems" have "rejection og rs = Inr ((x, y), rnd')"
      by (simp add: Let_def)
    with False "1.IH" show ?thesis
      by simp
  qed
qed simp_all

lemma scan_found:
  "scan og chosen cells count = Inl (x, y) \<Longrightarrow>
   \<exists>i j. (i, j) \<in> set cells \<and> x = int i \<and> y = int j \<and> og ! i ! j = 0"
proof (induction og chosen cells count rule: scan.induct)
  case (1 og chosen count)
  then show ?case by simp
next
  case (2 og chosen i j cells count)
  then show ?case
    by (auto split: if_splits)
qed

lemma randEmptySpace_empty:
  assumes "width g = GAME_GRID_WIDTH" and "height g = GAME_GRID_HEIGHT"
    and "randEmptySpace g rnd = Inr ((x, y), rnd')"
  shows "checkValidTile x y \<and> occupied_grid g ! nat x ! nat y = 0"
proof (cases "2 * int (length (occupied_spaces g)) < NUM_SPACES")
  case True
  with assms(3) have "rejection (occupied_grid g) rnd = Inr ((x, y), rnd')"
    by (simp add: randEmptySpace_def)
  then show ?thesis by (rule rejection_empty)
next
  case False
  let ?cells = "grid_cells (nat (height g)) (nat (width g))"
  from False assms(3) obtain chosen count where
    "scan (occupied_grid g) chosen ?cells count = Inl (x, y)"
    by (auto simp add: randEmptySpace_def Let_def split: if_splits list.splits sum.splits)
  from scan_found [OF this] obtain i j where
    ij: "(i, j) \<in> set ?cells" "x = int i" "y = int j" "occupied_grid g ! i ! j = 0"
    by blast
  from ij(1) assms(1,2) have "i < nat GAME_GRID_HEIGHT" "j < nat GAME_GRID_WIDTH"
    by (simp_all add: set_grid_cells)
  with ij show ?thesis
    by (simp add: checkValidTile_iff config_defs)
qed

lemma np_index_Some_nonneg: "0 \<le> i \<Longrightarrow> np_index n i = Some k \<Longrightarrow> i < int n \<and> k = nat i"
  by (auto simp add: np_index_def split: if_splits)

lemma addTile_returns_on_grid:
  assumes "grid_shape (occupied_grid g)" and "0 \<le> tile_x t" and "0 \<le> tile_y t"
    and "addTile g t = Inr g'"
  shows "checkValidTile (tile_x t) (tile_y t)"
proof -
  from assms(4) obtain r c where r: "np_index (length (occupied_grid g)) (tile_x t) = Some r"
    and c: "np_index (length (occupied_grid g ! r)) (tile_y t) = Some c"
    by (auto simp add: addTile_def Let_def split: option.splits)
  from np_index_Some_nonneg [OF assms(2) r] assms(1)
  have x: "tile_x t < GAME_GRID_WIDTH" "r = nat (tile_x t)"
    by (simp_all add: grid_shape_def config_defs)
  with assms(2) have "r < nat GAME_GRID_WIDTH" by simp
  from grid_shape_row [OF assms(1) this] np_index_Some_nonneg [OF assms(3) c]
  have "tile_y t < GAME_GRID_HEIGHT" by (simp add: config_defs)
  with x assms(2,3) show ?thesis
    by (simp add: checkValidTile_iff)
qed

lemma place_tile_valid:
  assumes v: "valid_grid g" and free: "\<not> checkOccupied g x y"
    and gen: "genTile g x y rnd = Inr (Some t, rnd')"
    and add: "addTile g (m t) = Inr g'"
    and m: "tile_x (m t) = tile_x t" "tile_y (m t) = tile_y t"
  shows "valid_grid g' \<and> occupied_spaces g' = occupied_spaces g @ [m t] \<and> player g' = player g \<and>
         checkValidTile (tile_x t) (tile_y t) \<and> \<not> checkOccupied g (tile_x t) (tile_y t) \<and>
         (checkValidTile x y \<longrightarrow> tile_x t = x \<and> tile_y t = y)"
proof -
  from v have dims: "width g = GAME_GRID_WIDTH" "height g = GAME_GRID_HEIGHT"
    and sh: "grid_shape (occupied_grid g)"
    by (simp_all add: valid_grid_def)
  have t: "checkValidTile (tile_x t) (tile_y t) \<and> \<not> checkOccupied g (tile_x t) (tile_y t) \<and>
         (checkValidTile x y \<longrightarrow> tile_x t = x \<and> tile_y t = y)"
  proof (cases "x < 0 \<or> x > GAME_GRID_WIDTH \<or> y < 0 \<or> y > GAME_GRID_HEIGHT")
    case True
    with gen obtain c where r: "randEmptySpace g rnd = Inr (c, rnd')"
      and tc: "t = GridSpace_init (fst c) (snd c)"
      by (auto simp add: genTile_def bindE_eq_Inr split: if_splits)
    from randEmptySpace_empty [OF dims, of rnd "fst c" "snd c" rnd'] r
    have "checkValidTile (fst c) (snd c) \<and> occupied_grid g ! nat (fst c) ! nat (snd c) = 0"
      by simp
    moreover from True have "\<not> checkValidTile x y"
      by (auto simp add: checkValidTile_iff)
    ultimately show ?thesis
      by (simp add: tc GridSpace_init_def checkOccupied_def)
  next
    case False
    with gen have tc: "t = GridSpace_init x y"
      by (auto simp add: genTile_def split: if_splits)
    then have tx: "tile_x t = x" "tile_y t = y"
      by (simp_all add: GridSpace_init_def)
    from False have "0 \<le> tile_x (m t)" "0 \<le> tile_y (m t)"
      by (simp_all add: m tx)
    from addTile_returns_on_grid [OF sh this add] free show ?thesis
      by (simp add: m tx)
  qed
  then have "checkValidTile (tile_x (m t)) (tile_y (m t))" "\<not> checkOccupied g (tile_x (m t)) (tile_y (m t))"
    by (simp_all add: m)
  from valid_grid_addTile [OF v this] add t show ?thesis
    by auto
qed

lemma genTile_None:
  "genTile g x y rnd = Inr (None, rnd') \<longleftrightarrow>
     NUM_SPACES \<le> int (length (occupied_spaces g)) \<and> rnd' = rnd"
  by (auto simp add: genTile_def bindE_eq_Inr split: if_splits)

lemma genTile_Some_not_full:
  "genTile g x y rnd = Inr (Some t, rnd') \<Longrightarrow> \<not> NUM_SPACES \<le> int (length (occupied_spaces g))"
  by (auto simp add: genTile_def split: if_splits)

lemma addFood_valid:
  assumes v: "valid_grid g" and free: "\<not> checkOccupied g x y"
    and add: "addFood g x y rnd = Inr (g', rnd')"
  shows "valid_grid g' \<and> player g' = player g \<and>
     (if NUM_SPACES \<le> int (length (occupied_spaces g))
      then occupied_spaces g' = occupied_spaces g
      else \<exists>t. occupied_spaces g' = occupied_spaces g @ [setFood t] \<and>
             checkValidTile (tile_x t) (tile_y t) \<and> \<not> checkOccupied g (tile_x t) (tile_y t) \<and>
             (checkValidTile x y \<longrightarrow> tile_x t = x \<and> tile_y t = y))"
proof -
  from add obtain tt rnd1 where gen: "genTile g x y rnd = Inr (tt, rnd1)"
    and rest: "(case tt of None \<Rightarrow> Inr (calcSmellMatrix g, rnd1)
                | Some t \<Rightarrow> bindE (addTile g (setFood t)) (\<lambda>g'. Inr (calcSmellMatrix g', rnd1)))
               = Inr (g', rnd')"
    by (auto simp add: addFood_def bindE_eq_Inr)
  show ?thesis
  proof (cases tt)
    case None
    with gen rest v show ?thesis
      by (auto simp add: genTile_None)
  next
    case (Some t)
    with rest obtain g1 where a: "addTile g (setFood t) = Inr g1" and g': "g' = calcSmellMatrix g1"
      by (auto simp add: bindE_eq_Inr)
    from gen Some have gen': "genTile g x y rnd = Inr (Some t, rnd1)" by simp
    have m: "tile_x (setFood t) = tile_x t" "tile_y (setFood t) = tile_y t"
      by (simp_all add: setFood_def)
    from place_tile_valid [where m = setFood, OF v free gen' a m]
      genTile_Some_not_full [OF gen'] rest Some show ?thesis
      by (auto simp add: g' a)
  qed
qed

lemma addPlayer_valid:
  assumes v: "valid_grid g" and free: "\<not> checkOccupied g x y"
    and add: "addPlayer g x y rnd = Inr (g', rnd')"
  shows "valid_grid g' \<and> player g' = player g \<and>
     (if NUM_SPACES \<le> int (length (occupied_spaces g))
      then occupied_spaces g' = occupied_spaces g
      else \<exists>t. occupied_spaces g' = occupied_spaces g @ [setPlayer t] \<and>
             checkValidTile (tile_x t) (tile_y t) \<and> \<not> checkOccupied g (tile_x t) (tile_y t) \<and>
             (checkValidTile x y \<longrightarrow> tile_x t = x \<and> tile_y t = y))"
proof -
  from add obtain tt rnd1 where gen: "genTile g x y rnd = Inr (tt, rnd1)"
    and rest: "(case tt of None \<Rightarrow> Inr (g, rnd1)
                | Some t \<Rightarrow> bindE (addTile g (setPlayer t)) (\<lambda>g'. Inr (g', rnd1)))
               = Inr (g', rnd')"
    by (auto simp add: addPlayer_def bindE_eq_Inr)
  show ?thesis
  proof (cases tt)
    case None
    with gen rest v show ?thesis
      by (auto simp add: genTile_None)
  next
    case (Some t)
    with rest have a: "addTile g (setPlayer t) = Inr g'"
      by (auto simp add: bindE_eq_Inr)
    from gen Some have gen': "genTile g x y rnd = Inr (Some t, rnd1)" by simp
    have m: "tile_x (setPlayer t) = tile_x t" "tile_y (setPlayer t) = tile_y t"
      by (simp_all add: setPlayer_def)
    from place_tile_valid [where m = setPlayer, OF v free gen' a m]
      genTile_Some_not_full [OF gen'] show ?thesis
      by auto
  qed
qed

lemma remove_loop_no_match:
  "(x, y) \<notin> set (positions ts) \<Longrightarrow> remove_loop x y ts tt = (ts, tt)"
  by (induction x y ts tt rule: remove_loop.induct) (auto simp add: positions_def)

lemma remove_loop_distinct:
  "distinct (positions ts) \<Longrightarrow>
   fst (remove_loop x y ts tt) = filter (\<lambda>t. (tile_x t, tile_y t) \<noteq> (x, y)) ts"
proof (induction x y ts tt rule: remove_loop.induct)
  case (1 x y tt)
  then show ?case by simp
next
  case (2 x y t tt)
  then show ?case by simp
next
  case (3 x y t u us tt)
  show ?case
  proof (cases "tile_x t = x \<and> tile_y t = y")
    case True
    with "3.prems" have "(x, y) \<notin> set (positions (u # us))"
      by (auto simp add: positions_def)
    then have n: "(tile_x u, tile_y u) \<noteq> (x, y)" "(x, y) \<notin> set (positions us)"
      by (auto simp add: positions_def)
    from n(2) have f: "filter (\<lambda>t. (tile_x t, tile_y t) \<noteq> (x, y)) us = us"
      by (auto simp add: positions_def filter_id_conv)
    from True n f show ?thesis
      by (simp add: remove_loop_no_match [OF n(2)] Let_def)
  next
    case False
    from "3.prems" have "distinct (positions (u # us))"
      by (simp add: positions_def)
    with False "3.IH"(2) show ?thesis
      by (auto simp add: Let_def)
  qed
qed

lemma remove_loop_type:
  "distinct (positions ts) \<Longrightarrow> (x, y) \<in> set (positions ts) \<Longrightarrow>
   \<exists>t \<in> set ts. tile_x t = x \<and> tile_y t = y \<and> snd (remove_loop x y ts tt) = tile_type t"
proof (induction x y ts tt rule: remove_loop.induct)
  case (1 x y tt)
  then show ?case by (simp add: positions_def)
next
  case (2 x y t tt)
  then show ?case by (auto simp add: positions_def)
next
  case (3 x y t u us tt)
  show ?case
  proof (cases "tile_x t = x \<and> tile_y t = y")
    case True
    with "3.prems" have "(x, y) \<notin> set (positions us)"
      by (auto simp add: positions_def)
    with True show ?thesis
      by (simp add: remove_loop_no_match Let_def)
  next
    case False
    from "3.prems" False have "distinct (positions (u # us))" "(x, y) \<in> set (positions (u # us))"
      by (auto simp add: positions_def)
    from "3.IH"(2) [OF False this] False show ?thesis
      by (auto simp add: Let_def)
  qed
qed

lemma np_zeros_nth: "a < w \<Longrightarrow> b < h \<Longrightarrow> np_zeros w h ! a ! b = 0"
  by (simp add: np_zeros_def)

lemma valid_grid_reset:
  assumes "width g = GAME_GRID_WIDTH" and "height g = GAME_GRID_HEIGHT"
  shows "valid_grid (reset g)"
proof -
  have "marks_agree (reset g)"
    using assms by (simp add: marks_agree_iff reset_def positions_def np_zeros_nth)
  with assms show ?thesis
    by (simp add: valid_grid_def) (simp add: reset_def grid_shape_zeros positions_def)
qed

lemma valid_grid_init: "valid_grid (GameGrid_init GAME_GRID_WIDTH GAME_GRID_HEIGHT)"
  unfolding GameGrid_init_def by (rule valid_grid_reset) simp_all

lemma removeTile_valid:
  assumes v: "valid_grid g"
  shows "valid_grid (fst (removeTile g x y)) \<and>
         occupied_spaces (fst (removeTile g x y))
           = filter (\<lambda>t. (tile_x t, tile_y t) \<noteq> (x, y)) (occupied_spaces g) \<and>
         player (fst (removeTile g x y)) = player g \<and>
         \<not> checkOccupied (fst (removeTile g x y)) x y"
proof -
  define ts where "ts = filter (\<lambda>t. (tile_x t, tile_y t) \<noteq> (x, y)) (occupied_spaces g)"
  have pos: "set (positions ts) = set (positions (occupied_spaces g)) - {(x, y)}"
    by (auto simp add: ts_def positions_def)
  from v have d: "distinct (positions (occupied_spaces g))"
    and sh: "grid_shape (occupied_grid g)"
    by (simp_all add: valid_grid_def)
  have dts: "distinct (positions ts)"
    using d by (simp add: ts_def positions_def distinct_map_filter)
  have vts: "list_all (\<lambda>t. checkValidTile (tile_x t) (tile_y t)) ts"
    using v by (simp add: ts_def valid_grid_def list_all_iff)
  have main: "valid_grid (fst (removeTile g x y)) \<and> occupied_spaces (fst (removeTile g x y)) = ts \<and>
         player (fst (removeTile g x y)) = player g"
  proof (cases "checkOccupied g x y")
    case True
    then have cv: "checkValidTile x y"
      by (simp add: checkOccupied_def split: if_splits)
    then have x: "nat x < nat GAME_GRID_WIDTH" "0 \<le> x" and y: "nat y < nat GAME_GRID_HEIGHT" "0 \<le> y"
      by (simp_all add: checkValidTile_iff)
    from sh x have lr: "nat x < length (occupied_grid g)"
      by (simp add: grid_shape_def)
    from grid_shape_row [OF sh x(1)] y have lc: "nat y < length (occupied_grid g ! nat x)"
      by simp
    define g' where "g' = g\<lparr>occupied_grid := set2 (occupied_grid g) (nat x) (nat y) 0,
        occupied_spaces := ts\<rparr>"
    from True have r: "fst (removeTile g x y) = g'"
      unfolding g'_def ts_def
      by (simp add: removeTile_def Let_def remove_loop_distinct [OF d])
    have "marks_agree g'"
      unfolding marks_agree_iff
    proof (intro allI impI)
      fix a b assume ab: "a < nat GAME_GRID_WIDTH" "b < nat GAME_GRID_HEIGHT"
      from v ab have old: "occupied_grid g ! a ! b =
          (if (int a, int b) \<in> set (positions (occupied_spaces g)) then 1 else 0)"
        by (simp add: valid_grid_def marks_agree_iff)
      have "(a = nat x \<and> b = nat y) \<longleftrightarrow> (int a, int b) = (x, y)"
        using x y by auto
      with old show "occupied_grid g' ! a ! b =
          (if (int a, int b) \<in> set (positions (occupied_spaces g')) then 1 else 0)"
        by (auto simp add: g'_def nth_set2 [OF lr lc] pos)
    qed
    with dts vts v have "valid_grid g'"
      by (simp add: valid_grid_def) (simp add: g'_def grid_shape_set2)
    with r show ?thesis by (simp add: g'_def)
  next
    case False
    with v have "(x, y) \<notin> set (positions (occupied_spaces g))"
      by (simp add: checkOccupied_iff)
    then have "ts = occupied_spaces g"
      by (auto simp add: ts_def positions_def filter_id_conv)
    with False v show ?thesis
      by (simp add: removeTile_def)
  qed
  then have "\<not> checkOccupied (fst (removeTile g x y)) x y"
    by (simp add: checkOccupied_iff pos)
  with main show ?thesis by (simp add: ts_def)
qed

text \<open>
  C4, amended. \<open>genTile\<close> draws a random empty cell only when a requested coordinate
  is negative or greater than the grid size; a requested position on the grid is used
  as given, and nothing looks at whether it is occupied. On a grid with one tile per
  position: a placement (\<open>addFood\<close>, \<open>addPlayer\<close>) that is not aimed at an occupied
  cell and returns leaves one tile per position, and unless the grid is full it adds
  one tile, on the grid, on a cell that was empty, at the requested position when
  that is on the grid; a removal leaves one tile per position as well.
\<close>

theorem placement_keeps_positions_distinct:
  assumes "valid_grid g" and "\<not> checkOccupied g x y"
  shows "(addFood g x y rnd = Inr (g', rnd') \<longrightarrow>
           valid_grid g' \<and> distinct (positions (occupied_spaces g')) \<and>
           (if NUM_SPACES \<le> int (length (occupied_spaces g))
            then occupied_spaces g' = occupied_spaces g
            else \<exists>t. occupied_spaces g' = occupied_spaces g @ [setFood t] \<and>
                   checkValidTile (tile_x t) (tile_y t) \<and>
                   \<not> checkOccupied g (tile_x t) (tile_y t) \<and>
                   (checkValidTile x y \<longrightarrow> tile_x t = x \<and> tile_y t = y))) \<and>
         (addPlayer g x y rnd = Inr (p', rnd'') \<longrightarrow>
           valid_grid p' \<and> distinct (positions (occupied_spaces p')) \<and>
           (if NUM_SPACES \<le> int (length (occupied_spaces g))
            then occupied_spaces p' = occupied_spaces g
            else \<exists>t. occupied_spaces p' = occupied_spaces g @ [setPlayer t] \<and>
                   checkValidTile (tile_x t) (tile_y t) \<and>
                   \<not> checkOccupied g (tile_x t) (tile_y t) \<and>
                   (checkValidTile x y \<longrightarrow> tile_x t = x \<and> tile_y t = y))) \<and>
         valid_grid (fst (removeTile g u v)) \<and>
         distinct (positions (occupied_spaces (fst (removeTile g u v))))"
proof (intro conjI impI)
  assume a: "addFood g x y rnd = Inr (g', rnd')"
  from addFood_valid [OF assms a] show "valid_grid g'" by simp
  then show "distinct (positions (occupied_spaces g'))" by (simp add: valid_grid_def)
  from addFood_valid [OF assms a]
  show "if NUM_SPACES \<le> int (length (occupied_spaces g))
        then occupied_spaces g' = occupied_spaces g
        else \<exists>t. occupied_spaces g' = occupied_spaces g @ [setFood t] \<and>
               checkValidTile (tile_x t) (tile_y t) \<and>
               \<not> checkOccupied g (tile_x t) (tile_y t) \<and>
               (checkValidTile x y \<longrightarrow> tile_x t = x \<and> tile_y t = y)"
    by simp
next
  assume a: "addPlayer g x y rnd = Inr (p', rnd'')"
  from addPlayer_valid [OF assms a] show "valid_grid p'" by simp
  then show "distinct (positions (occupied_spaces p'))" by (simp add: valid_grid_def)
  from addPlayer_valid [OF assms a]
  show "if NUM_SPACES \<le> int (length (occupied_spaces g))
        then occupied_spaces p' = occupied_spaces g
        else \<exists>t. occupied_spaces p' = occupied_spaces g @ [setPlayer t] \<and>
               checkValidTile (tile_x t) (tile_y t) \<and>
               \<not> checkOccupied g (tile_x t) (tile_y t) \<and>
               (checkValidTile x y \<longrightarrow> tile_x t = x \<and> tile_y t = y)"
    by simp
next
  from removeTile_valid [OF assms(1), of u v] show "valid_grid (fst (removeTile g u v))" by simp
  then show "distinct (positions (occupied_spaces (fst (removeTile g u v))))"
    by (simp add: valid_grid_def)
qed

lemma north_food_grid_valid: "valid_grid north_food_grid"
proof -
  have "marks_agree north_food_grid"
    by (simp add: marks_agree_def north_food_grid_def positions_def grid_cells_def upt_10
        config_defs setFood_def GridSpace_init_def set2_def np_zeros_def eval_nat_numeral)
  then show ?thesis
    by (simp add: valid_grid_def north_food_grid_def positions_def GameGrid_init_def reset_def
        grid_shape_set2 grid_shape_zeros [unfolded config_defs, simplified] checkValidTile_def
        setFood_def GridSpace_init_def config_defs)
qed

text \<open>
  C4, as stated, fails: \<open>addFood(3, 3)\<close> twice on the empty grid. The second call
  finds (3, 3) occupied and places its tile there all the same; \<open>occupied_spaces\<close>
  then holds two tiles at (3, 3).
\<close>

theorem explicit_placement_on_occupied_cell:
  "bindE (addFood (GameGrid_init GAME_GRID_WIDTH GAME_GRID_HEIGHT) 3 3 [])
     (\<lambda>r1. bindE (addFood (fst r1) 3 3 (snd r1))
        (\<lambda>r2. Inr (checkOccupied (fst r1) 3 3, positions (occupied_spaces (fst r2)))))
   = Inr (True, [(3, 3), (3, 3)])"
proof -
  define g0 where "g0 = GameGrid_init GAME_GRID_WIDTH GAME_GRID_HEIGHT"
  define g1 where "g1 = calcSmellMatrix
    (g0\<lparr>occupied_spaces := occupied_spaces g0 @ [setFood (GridSpace_init 3 3)],
        occupied_grid := set2 (occupied_grid g0) (nat 3) (nat 3) 1\<rparr>)"
  define g2 where "g2 = calcSmellMatrix
    (g1\<lparr>occupied_spaces := occupied_spaces g1 @ [setFood (GridSpace_init 3 3)],
        occupied_grid := set2 (occupied_grid g1) (nat 3) (nat 3) 1\<rparr>)"
  have v: "checkValidTile 3 3"
    by (simp add: checkValidTile_def config_defs)
  have s0: "grid_shape (occupied_grid g0)"
    using valid_grid_init by (simp add: valid_grid_def g0_def)
  have l0: "int (length (occupied_spaces g0)) < NUM_SPACES"
    by (simp add: g0_def GameGrid_init_def reset_def config_defs)
  have a1: "addFood g0 3 3 [] = Inr (g1, [])"
    unfolding g1_def by (rule addFood_given [OF s0 l0 v])
  have s1: "grid_shape (occupied_grid g1)"
    using s0 by (simp add: g1_def grid_shape_set2)
  have l1: "int (length (occupied_spaces g1)) < NUM_SPACES"
    by (simp add: g1_def g0_def GameGrid_init_def reset_def config_defs)
  have a2: "addFood g1 3 3 [] = Inr (g2, [])"
    unfolding g2_def by (rule addFood_given [OF s1 l1 v])
  have o: "checkOccupied g1 3 3"
    by (simp add: checkOccupied_def v g1_def g0_def GameGrid_init_def reset_def set2_def
        np_zeros_def config_defs eval_nat_numeral)
  have p: "positions (occupied_spaces g2) = [(3, 3), (3, 3)]"
    by (simp add: g2_def g1_def g0_def positions_def GameGrid_init_def reset_def setFood_def
        GridSpace_init_def)
  show ?thesis
    unfolding g0_def [symmetric] by (simp add: a1 a2 o p)
qed

theorem placement_keeps_positions_distinct_witness:
  "valid_grid north_food_grid \<and> \<not> checkOccupied north_food_grid (- 1) (- 1) \<and>
   addFood north_food_grid (- 1) (- 1) [3, 4]
     = Inr (calcSmellMatrix (north_food_grid
         \<lparr>occupied_spaces := [setFood (GridSpace_init 5 4), setFood (GridSpace_init 3 4)],
          occupied_grid := set2 (occupied_grid north_food_grid) 3 4 1\<rparr>), []) \<and>
   valid_grid (calcSmellMatrix (north_food_grid
         \<lparr>occupied_spaces := [setFood (GridSpace_init 5 4), setFood (GridSpace_init 3 4)],
          occupied_grid := set2 (occupied_grid north_food_grid) 3 4 1\<rparr>)) \<and>
   addPlayer north_food_grid (- 1) (- 1) [3, 4]
     = Inr (north_food_grid
         \<lparr>occupied_spaces := [setFood (GridSpace_init 5 4), setPlayer (GridSpace_init 3 4)],
          occupied_grid := set2 (occupied_grid north_food_grid) 3 4 1\<rparr>, []) \<and>
   valid_grid (north_food_grid
         \<lparr>occupied_spaces := [setFood (GridSpace_init 5 4), setPlayer (GridSpace_init 3 4)],
          occupied_grid := set2 (occupied_grid north_food_grid) 3 4 1\<rparr>) \<and>
   valid_grid (fst (removeTile north_food_grid 5 4))"
proof -
  define gf where "gf = calcSmellMatrix (north_food_grid
         \<lparr>occupied_spaces := [setFood (GridSpace_init 5 4), setFood (GridSpace_init 3 4)],
          occupied_grid := set2 (occupied_grid north_food_grid) 3 4 1\<rparr>)"
  define gp where "gp = north_food_grid
         \<lparr>occupied_spaces := [setFood (GridSpace_init 5 4), setPlayer (GridSpace_init 3 4)],
          occupied_grid := set2 (occupied_grid north_food_grid) 3 4 1\<rparr>"
  have v: "valid_grid north_food_grid"
    by (rule north_food_grid_valid)
  have f: "\<not> checkOccupied north_food_grid (- 1) (- 1)"
    by (simp add: checkOccupied_def checkValidTile_def)
  have ri: "randint 0 9 3 = 3" "randint 0 9 4 = 4"
    by (simp_all add: randint_def)
  have e: "occupied_grid north_food_grid ! 3 ! 4 = 0"
    by (simp add: north_food_grid_def set2_def np_zeros_def eval_nat_numeral)
  have os: "occupied_spaces north_food_grid = [setFood (GridSpace_init 5 4)]"
    by (simp add: north_food_grid_def)
  have r: "randEmptySpace north_food_grid [3, 4] = Inr ((3, 4), [])"
    by (simp add: randEmptySpace_def os ri e NUM_SPACES_def GAME_GRID_WIDTH_def
        GAME_GRID_HEIGHT_def Let_def)
  have g: "genTile north_food_grid (- 1) (- 1) [3, 4] = Inr (Some (GridSpace_init 3 4), [])"
    by (simp add: genTile_def r os NUM_SPACES_def GAME_GRID_WIDTH_def GAME_GRID_HEIGHT_def)
  have sh: "grid_shape (occupied_grid north_food_grid)"
    using v by (simp add: valid_grid_def)
  have cv: "checkValidTile 3 4"
    by (simp add: checkValidTile_def config_defs)
  have tf: "addTile north_food_grid (setFood (GridSpace_init 3 4))
      = Inr (north_food_grid
         \<lparr>occupied_spaces := [setFood (GridSpace_init 5 4), setFood (GridSpace_init 3 4)],
          occupied_grid := set2 (occupied_grid north_food_grid) 3 4 1\<rparr>)"
    using addTile_on_grid [OF sh, of "setFood (GridSpace_init 3 4)"] cv
    by (simp add: setFood_def GridSpace_init_def os)
  have tp: "addTile north_food_grid (setPlayer (GridSpace_init 3 4)) = Inr gp"
    using addTile_on_grid [OF sh, of "setPlayer (GridSpace_init 3 4)"] cv
    by (simp add: setPlayer_def setFood_def GridSpace_init_def os gp_def)
  have af: "addFood north_food_grid (- 1) (- 1) [3, 4] = Inr (gf, [])"
    by (simp add: addFood_def g tf gf_def)
  have ap: "addPlayer north_food_grid (- 1) (- 1) [3, 4] = Inr (gp, [])"
    by (simp add: addPlayer_def g tp)
  from placement_keeps_positions_distinct [OF v f, of "[3, 4]" gf "[]" gp "[]" 5 4] af ap
  have "valid_grid gf" "valid_grid gp" "valid_grid (fst (removeTile north_food_grid 5 4))"
    by simp_all
  with v f af ap show ?thesis
    unfolding gf_def gp_def by blast
qed

section \<open>What every tick preserves\<close>

lemma valid_grid_player_update [simp]: "valid_grid (g\<lparr>player := p\<rparr>) = valid_grid g"
  by (simp add: valid_grid_def marks_agree_def)

lemma checkOccupied_player_update [simp]: "checkOccupied (g\<lparr>player := p\<rparr>) x y = checkOccupied g x y"
  by (simp add: checkOccupied_def)

lemma checkOccupied_calcSmellMatrix [simp]: "checkOccupied (calcSmellMatrix g) x y = checkOccupied g x y"
  by (simp add: checkOccupied_def)

lemma calcPlayerSense_fields [simp]:
  "occupied_spaces (calcPlayerSense g) = occupied_spaces g"
  "occupied_grid (calcPlayerSense g) = occupied_grid g"
  "width (calcPlayerSense g) = width g"
  "height (calcPlayerSense g) = height g"
  "tile (player (calcPlayerSense g)) = tile (player g)"
  "energy (player (calcPlayerSense g)) = energy (player g)"
  "max_energy (player (calcPlayerSense g)) = max_energy (player g)"
  "alive (player (calcPlayerSense g)) = alive (player g)"
  "score (player (calcPlayerSense g)) = score (player g)"
  "food_eaten (player (calcPlayerSense g)) = food_eaten (player g)"
  by (simp_all add: calcPlayerSense_def Let_def)

lemma valid_grid_calcPlayerSense [simp]: "valid_grid (calcPlayerSense g) = valid_grid g"
  by (simp add: valid_grid_def marks_agree_def)

lemma agent_ok_calcPlayerSense [simp]: "agent_ok (player (calcPlayerSense g)) = agent_ok (player g)"
  by (simp add: agent_ok_def)

lemma step_tile_on_grid:
  "checkValidTile (tile_x t) (tile_y t) \<Longrightarrow>
   checkValidTile (tile_x (step_tile t d)) (tile_y (step_tile t d))"
  by (auto simp add: step_tile_def checkValidTile_iff)

lemma move_alive:
  assumes "agent_ok p" and "checkValidTile (tile_x (tile p)) (tile_y (tile p))"
  shows "fst (snd (move p d 1)) = tile_x (tile (fst (move p d 1))) \<and>
         snd (snd (move p d 1)) = tile_y (tile (fst (move p d 1))) \<and>
         checkValidTile (tile_x (tile (fst (move p d 1)))) (tile_y (tile (fst (move p d 1)))) \<and>
         energy (fst (move p d 1)) = energy p - 1 \<and>
         alive (fst (move p d 1)) = (0 \<le> energy p - 1) \<and>
         max_energy (fst (move p d 1)) = max_energy p \<and>
         score (fst (move p d 1)) = score p \<and>
         food_eaten (fst (move p d 1)) = food_eaten p"
  using assms step_tile_on_grid [OF assms(2), of d]
  by (simp add: move_def useEnergy_def die_def agent_ok_def Let_def)

lemma eatFood_fields:
  "tile (eatFood p) = tile p" "alive (eatFood p) = alive p" "max_energy (eatFood p) = max_energy p"
  "food_eaten (eatFood p) = food_eaten p + 1" "score (eatFood p) = score p + energy p"
  "energy (eatFood p) = min (energy p + ENERGY_PER_FOOD) (max_energy p)"
  by (simp_all add: eatFood_def Let_def min_def)

lemma movePlayer_props:
  assumes v: "valid_grid g"
    and f: "list_all (\<lambda>t. tile_type t = Some Food) (occupied_spaces g)"
    and on: "checkValidTile (tile_x (tile (player g))) (tile_y (tile (player g)))"
    and ok: "agent_ok (player g)"
  shows "valid_grid (movePlayer g d) \<and>
         list_all (\<lambda>t. tile_type t = Some Food) (occupied_spaces (movePlayer g d)) \<and>
         length (occupied_spaces (movePlayer g d)) \<le> length (occupied_spaces g) \<and>
         checkValidTile (tile_x (tile (player (movePlayer g d))))
           (tile_y (tile (player (movePlayer g d)))) \<and>
         \<not> checkOccupied (movePlayer g d) (tile_x (tile (player (movePlayer g d))))
           (tile_y (tile (player (movePlayer g d)))) \<and>
         (alive (player (movePlayer g d)) \<longrightarrow> agent_ok (player (movePlayer g d))) \<and>
         (energy (player (movePlayer g d)) < 0 \<longrightarrow> \<not> alive (player (movePlayer g d)))"
proof -
  define p1 where "p1 = fst (move (player g) d 1)"
  define x where "x = tile_x (tile p1)"
  define y where "y = tile_y (tile p1)"
  define g1 where "g1 = g\<lparr>player := p1\<rparr>"
  define r where "r = removeTile g1 x y"
  from move_alive [OF ok on, of d]
  have m: "snd (move (player g) d 1) = (x, y)" "checkValidTile x y"
    "energy p1 = energy (player g) - 1" "alive p1 = (0 \<le> energy (player g) - 1)"
    "max_energy p1 = max_energy (player g)" "score p1 = score (player g)"
    "food_eaten p1 = food_eaten (player g)"
    by (simp_all add: p1_def x_def y_def prod_eq_iff)
  have v1: "valid_grid g1"
    using v by (simp add: g1_def)
  from removeTile_valid [OF v1, of x y]
  have rv: "valid_grid (fst r)"
    "occupied_spaces (fst r) = filter (\<lambda>t. (tile_x t, tile_y t) \<noteq> (x, y)) (occupied_spaces g)"
    "player (fst r) = p1" "\<not> checkOccupied (fst r) x y"
    by (simp_all add: r_def g1_def)
  have mp: "movePlayer g d = (if snd r = Some Food
      then calcSmellMatrix ((fst r)\<lparr>player := eatFood p1\<rparr>) else fst r)"
    by (simp add: movePlayer_def Let_def p1_def [symmetric] m(1) g1_def [symmetric]
        r_def [symmetric] rv(3))
  have tiles: "occupied_spaces (movePlayer g d) = occupied_spaces (fst r)"
    by (simp add: mp)
  have pl: "player (movePlayer g d) = (if snd r = Some Food then eatFood p1 else p1)"
    by (simp add: mp rv(3))
  have pos: "tile (player (movePlayer g d)) = tile p1"
    by (simp add: pl eatFood_fields)
  have occ: "checkOccupied (movePlayer g d) x y = checkOccupied (fst r) x y"
    by (simp add: mp)
  have "valid_grid (movePlayer g d)"
    using rv(1) by (simp add: mp)
  moreover have "list_all (\<lambda>t. tile_type t = Some Food) (occupied_spaces (movePlayer g d))"
    using f by (simp add: tiles rv(2) list_all_iff)
  moreover have "length (occupied_spaces (movePlayer g d)) \<le> length (occupied_spaces g)"
    by (simp add: tiles rv(2))
  moreover have "checkValidTile (tile_x (tile (player (movePlayer g d))))
           (tile_y (tile (player (movePlayer g d))))"
    using m(2) by (simp add: pos x_def y_def)
  moreover have "\<not> checkOccupied (movePlayer g d) (tile_x (tile (player (movePlayer g d))))
           (tile_y (tile (player (movePlayer g d))))"
    using rv(4) occ by (simp add: pos x_def y_def)
  moreover have "alive (player (movePlayer g d)) \<longrightarrow> agent_ok (player (movePlayer g d))"
    using ok m by (auto simp add: pl agent_ok_def eatFood_fields config_defs)
  moreover have "energy (player (movePlayer g d)) < 0 \<longrightarrow> \<not> alive (player (movePlayer g d))"
    using ok m by (auto simp add: pl agent_ok_def eatFood_fields config_defs)
  ultimately show ?thesis by blast
qed

lemma not_occupied_off_grid: "\<not> checkOccupied g (- 1) (- 1)"
  by (simp add: checkOccupied_def checkValidTile_def)

lemma addFood_random_props:
  assumes v: "valid_grid g"
    and f: "list_all (\<lambda>t. tile_type t = Some Food) (occupied_spaces g)"
    and a: "addFood g (- 1) (- 1) rnd = Inr (g', rnd')"
  shows "valid_grid g' \<and> list_all (\<lambda>t. tile_type t = Some Food) (occupied_spaces g') \<and>
         length (occupied_spaces g') \<le> Suc (length (occupied_spaces g)) \<and> player g' = player g"
  using addFood_valid [OF v not_occupied_off_grid a] f
  by (auto simp add: setFood_def split: if_splits)

lemma replenish_props:
  assumes "valid_grid g"
    and "list_all (\<lambda>t. tile_type t = Some Food) (occupied_spaces g)"
    and "replenish k g rnd = Inr (g', rnd')"
  shows "valid_grid g' \<and> list_all (\<lambda>t. tile_type t = Some Food) (occupied_spaces g') \<and>
         length (occupied_spaces g') \<le> length (occupied_spaces g) + k \<and> player g' = player g"
  using assms
proof (induction k arbitrary: g rnd)
  case 0
  then show ?case by simp
next
  case (Suc k)
  from Suc.prems(3) obtain g1 rnd1 where a: "addFood g (- 1) (- 1) rnd = Inr (g1, rnd1)"
    and r: "replenish k g1 rnd1 = Inr (g', rnd')"
    by (auto simp add: bindE_eq_Inr)
  from addFood_random_props [OF Suc.prems(1,2) a]
  have g1: "valid_grid g1" "list_all (\<lambda>t. tile_type t = Some Food) (occupied_spaces g1)"
    "length (occupied_spaces g1) \<le> Suc (length (occupied_spaces g))" "player g1 = player g"
    by simp_all
  from Suc.IH [OF g1(1,2) r] g1(3,4) show ?case
    by simp
qed

lemma tick_inv_reset:
  assumes "width g = GAME_GRID_WIDTH" and "height g = GAME_GRID_HEIGHT"
    and gm: "game_grid gm = reset g"
  shows "tick_inv gm \<and>
     \<not> checkOccupied (game_grid gm) (tile_x (tile (player (game_grid gm))))
         (tile_y (tile (player (game_grid gm))))"
proof -
  have v: "valid_grid (reset g)"
    using assms(1,2) by (rule valid_grid_reset)
  have p: "player (reset g) = Player_init 0 0" "occupied_spaces (reset g) = []"
    by (simp_all add: reset_def)
  have ok: "agent_ok (Player_init 0 0)"
    by (simp add: agent_ok_def Player_init_def config_defs)
  have on: "checkValidTile (tile_x (tile (Player_init 0 0))) (tile_y (tile (Player_init 0 0)))"
    by (simp add: Player_init_def setPlayer_def GridSpace_init_def checkValidTile_def config_defs)
  from v p ok on have "tick_inv gm"
    by (simp add: tick_inv_def gm)
  moreover from v p have "\<not> checkOccupied (reset g) (tile_x (tile (player (reset g))))
      (tile_y (tile (player (reset g))))"
    by (simp add: checkOccupied_iff positions_def)
  ultimately show ?thesis by (simp add: gm)
qed

lemma endRound_grid:
  "game_grid (endRound gm) = reset (game_grid gm)"
  by (simp add: endRound_def GameManager_reset_def Let_def)

lemma checkEndStates_cases:
  "game_grid (checkEndStates gm) = game_grid gm \<and> alive (player (game_grid gm)) \<or>
   (\<exists>g. game_grid (checkEndStates gm) = reset g \<and> width g = width (game_grid gm) \<and>
        height g = height (game_grid gm))"
  by (auto simp add: checkEndStates_def endRound_grid)

lemma logicTick_inv:
  assumes inv: "tick_inv gm" and t: "logicTick gm rnd = Inr (gm', rnd')"
  shows "tick_inv gm' \<and>
         \<not> checkOccupied (game_grid gm') (tile_x (tile (player (game_grid gm'))))
             (tile_y (tile (player (game_grid gm'))))"
proof -
  from t obtain g1 rnd1 movement where
    rep: "(if occupied_spaces (game_grid gm) = []
            then replenish MAX_NUM_FOOD_ON_GRID (game_grid gm) rnd
            else Inr (game_grid gm, rnd)) = Inr (g1, rnd1)"
    and gm': "gm' = saveGameState (checkEndStates
        (gm\<lparr>game_grid := movePlayer (calcPlayerSense (calcSmellMatrix g1)) movement\<rparr>))"
    by (auto simp add: logicTick_def bindE_eq_Inr Let_def)
  define g3 where "g3 = calcPlayerSense (calcSmellMatrix g1)"
  define g4 where "g4 = movePlayer g3 movement"
  from inv have v: "valid_grid (game_grid gm)"
    and f: "list_all (\<lambda>t. tile_type t = Some Food) (occupied_spaces (game_grid gm))"
    and n: "length (occupied_spaces (game_grid gm)) \<le> MAX_NUM_FOOD_ON_GRID"
    and on: "checkValidTile (tile_x (tile (player (game_grid gm)))) (tile_y (tile (player (game_grid gm))))"
    and ok: "agent_ok (player (game_grid gm))"
    by (simp_all add: tick_inv_def)
  have g1: "valid_grid g1 \<and> list_all (\<lambda>t. tile_type t = Some Food) (occupied_spaces g1) \<and>
         length (occupied_spaces g1) \<le> MAX_NUM_FOOD_ON_GRID \<and> player g1 = player (game_grid gm)"
  proof (cases "occupied_spaces (game_grid gm) = []")
    case True
    with rep have "replenish MAX_NUM_FOOD_ON_GRID (game_grid gm) rnd = Inr (g1, rnd1)"
      by simp
    from replenish_props [OF v f this] True show ?thesis
      by simp
  next
    case False
    with rep v f n show ?thesis by simp
  qed
  then have g3: "valid_grid g3" "list_all (\<lambda>t. tile_type t = Some Food) (occupied_spaces g3)"
    "length (occupied_spaces g3) \<le> MAX_NUM_FOOD_ON_GRID"
    "checkValidTile (tile_x (tile (player g3))) (tile_y (tile (player g3)))"
    "agent_ok (player g3)"
    using on ok by (simp_all add: g3_def)
  from movePlayer_props [OF g3(1,2,4,5), of movement] g3(3)
  have g4: "valid_grid g4" "list_all (\<lambda>t. tile_type t = Some Food) (occupied_spaces g4)"
    "length (occupied_spaces g4) \<le> MAX_NUM_FOOD_ON_GRID"
    "checkValidTile (tile_x (tile (player g4))) (tile_y (tile (player g4)))"
    "\<not> checkOccupied g4 (tile_x (tile (player g4))) (tile_y (tile (player g4)))"
    "alive (player g4) \<longrightarrow> agent_ok (player g4)"
    by (simp_all add: g4_def)
  define gm1 where "gm1 = gm\<lparr>game_grid := g4\<rparr>"
  have gg: "game_grid gm' = game_grid (checkEndStates gm1)"
    by (simp add: gm' gm1_def g4_def g3_def)
  from checkEndStates_cases [of gm1]
  show ?thesis
  proof
    assume "game_grid (checkEndStates gm1) = game_grid gm1 \<and> alive (player (game_grid gm1))"
    then have "game_grid gm' = g4" "alive (player g4)"
      by (simp_all add: gg gm1_def)
    with g4 show ?thesis
      by (simp add: tick_inv_def)
  next
    assume "\<exists>g. game_grid (checkEndStates gm1) = reset g \<and> width g = width (game_grid gm1) \<and>
        height g = height (game_grid gm1)"
    then obtain g where g: "game_grid gm' = reset g" "width g = width g4" "height g = height g4"
      by (auto simp add: gg gm1_def)
    from g4(1) g(2,3) have d: "width g = GAME_GRID_WIDTH" "height g = GAME_GRID_HEIGHT"
      by (simp_all add: valid_grid_def)
    from tick_inv_reset [OF d g(1)] show ?thesis .
  qed
qed

lemma GameManager_init_inv:
  assumes "GameManager_init GAME_GRID_WIDTH GAME_GRID_HEIGHT rnd = Inr (gm, rnd')"
  shows "tick_inv gm"
proof -
  let ?g0 = "GameGrid_init GAME_GRID_HEIGHT GAME_GRID_WIDTH"
  from assms obtain g where a: "addFood ?g0 (- 1) (- 1) rnd = Inr (g, rnd')"
    and gm: "game_grid gm = g"
    by (auto simp add: GameManager_init_def bindE_eq_Inr)
  have v: "valid_grid ?g0"
    using valid_grid_init by (simp add: GAME_GRID_HEIGHT_def)
  have e: "occupied_spaces ?g0 = []" "player ?g0 = Player_init 0 0"
    by (simp_all add: GameGrid_init_def reset_def)
  from addFood_random_props [OF v _ a] e
  have "valid_grid g" "list_all (\<lambda>t. tile_type t = Some Food) (occupied_spaces g)"
    "length (occupied_spaces g) \<le> Suc 0" "player g = Player_init 0 0"
    by simp_all
  then show ?thesis
    by (simp add: tick_inv_def gm agent_ok_def Player_init_def setPlayer_def GridSpace_init_def
        checkValidTile_def config_defs)
qed

lemma reachable_inv: "reachable gm \<Longrightarrow> tick_inv gm"
proof (induction rule: reachable.induct)
  case (fresh rnd gm rnd')
  then show ?case by (rule GameManager_init_inv)
next
  case (tick gm rnd gm' rnd')
  from logicTick_inv [OF tick.IH tick.hyps(2)] show ?case by simp
qed

text \<open>
  C8. In every state a run reaches between two ticks the agent is alive, its energy
  lies between 0 and MAX_ENERGY, and its score and food_eaten are not negative. Inside
  the next tick energy is lowered by \<open>Player.move\<close> alone, and after that step the
  energy is negative exactly when the agent has been turned Dead.
\<close>

theorem reachable_agent_invariants:
  assumes "reachable gm"
  shows "alive (player (game_grid gm)) \<and>
         0 \<le> energy (player (game_grid gm)) \<and> energy (player (game_grid gm)) \<le> MAX_ENERGY \<and>
         0 \<le> score (player (game_grid gm)) \<and> 0 \<le> food_eaten (player (game_grid gm)) \<and>
         (energy (fst (move (player (game_grid gm)) d 1)) < 0)
           = (\<not> alive (fst (move (player (game_grid gm)) d 1)))"
proof -
  from assms have "tick_inv gm" by (rule reachable_inv)
  then have ok: "agent_ok (player (game_grid gm))"
    and on: "checkValidTile (tile_x (tile (player (game_grid gm)))) (tile_y (tile (player (game_grid gm))))"
    by (simp_all add: tick_inv_def)
  from move_alive [OF ok on, of d] ok show ?thesis
    by (auto simp add: agent_ok_def)
qed

lemma randint_id: "0 \<le> x \<Longrightarrow> x \<le> b \<Longrightarrow> randint 0 b (nat x) = x"
  by (simp add: randint_def)

text \<open>
  C10, amended. No reachable state holds a Player tile in \<open>occupied_spaces\<close>: the
  agent is never recorded there or in \<open>occupied_grid\<close>. After every tick the agent's
  cell is not marked in \<open>occupied_grid\<close> and no tile of \<open>occupied_spaces\<close> lies on it,
  so empty-cell sampling returns that cell for the matching draws and \<open>addFood\<close> then
  places a food tile on the cell the agent stands on.
\<close>

theorem agent_cell_free_after_tick:
  assumes "reachable gm" and "logicTick gm rnd = Inr (gm', rnd')"
  shows "list_all (\<lambda>t. tile_type t = Some Food) (occupied_spaces (game_grid gm)) \<and>
     (let g = game_grid gm'; x = tile_x (tile (player g)); y = tile_y (tile (player g))
      in occupied_grid g ! nat x ! nat y = 0 \<and>
         (x, y) \<notin> set (positions (occupied_spaces g)) \<and>
         list_all (\<lambda>t. tile_type t = Some Food) (occupied_spaces g) \<and>
         randEmptySpace g (nat x # nat y # rs) = Inr ((x, y), rs) \<and>
         (\<exists>g'. addFood g (- 1) (- 1) (nat x # nat y # rs) = Inr (g', rs) \<and>
               occupied_spaces g' = occupied_spaces g @ [setFood (GridSpace_init x y)]))"
proof -
  define g where "g = game_grid gm'"
  define x where "x = tile_x (tile (player g))"
  define y where "y = tile_y (tile (player g))"
  from assms(1) have i0: "tick_inv gm" by (rule reachable_inv)
  from logicTick_inv [OF i0 assms(2)]
  have inv: "tick_inv gm'" and free: "\<not> checkOccupied g x y"
    by (simp_all add: g_def x_def y_def)
  from inv have v: "valid_grid g"
    and f: "list_all (\<lambda>t. tile_type t = Some Food) (occupied_spaces g)"
    and n: "length (occupied_spaces g) \<le> MAX_NUM_FOOD_ON_GRID"
    and on: "checkValidTile x y"
    by (simp_all add: tick_inv_def g_def x_def y_def)
  from v free have notin: "(x, y) \<notin> set (positions (occupied_spaces g))"
    by (simp add: checkOccupied_iff)
  with valid_grid_mark [OF v on] have zero: "occupied_grid g ! nat x ! nat y = 0"
    by simp
  from on have r: "randint 0 (GAME_GRID_WIDTH - 1) (nat x) = x"
    "randint 0 (GAME_GRID_HEIGHT - 1) (nat y) = y"
    by (simp_all add: checkValidTile_iff randint_id)
  from n have few: "2 * int (length (occupied_spaces g)) < NUM_SPACES"
    "\<not> NUM_SPACES \<le> int (length (occupied_spaces g))"
    by (simp_all add: config_defs)
  have re: "randEmptySpace g (nat x # nat y # rs) = Inr ((x, y), rs)"
    by (simp add: randEmptySpace_def few r zero Let_def)
  have gen: "genTile g (- 1) (- 1) (nat x # nat y # rs) = Inr (Some (GridSpace_init x y), rs)"
    by (simp add: genTile_def few re)
  from v have sh: "grid_shape (occupied_grid g)"
    by (simp add: valid_grid_def)
  from on have "checkValidTile (tile_x (setFood (GridSpace_init x y))) (tile_y (setFood (GridSpace_init x y)))"
    by (simp add: setFood_def GridSpace_init_def)
  from addTile_on_grid [OF sh this]
  have "\<exists>g'. addFood g (- 1) (- 1) (nat x # nat y # rs) = Inr (g', rs) \<and>
               occupied_spaces g' = occupied_spaces g @ [setFood (GridSpace_init x y)]"
    by (simp add: addFood_def gen)
  with zero notin f re have "occupied_grid g ! nat x ! nat y = 0 \<and>
         (x, y) \<notin> set (positions (occupied_spaces g)) \<and>
         list_all (\<lambda>t. tile_type t = Some Food) (occupied_spaces g) \<and>
         randEmptySpace g (nat x # nat y # rs) = Inr ((x, y), rs) \<and>
         (\<exists>g'. addFood g (- 1) (- 1) (nat x # nat y # rs) = Inr (g', rs) \<and>
               occupied_spaces g' = occupied_spaces g @ [setFood (GridSpace_init x y)])"
    by blast
  moreover from i0 have "list_all (\<lambda>t. tile_type t = Some Food) (occupied_spaces (game_grid gm))"
    by (simp add: tick_inv_def)
  ultimately show ?thesis
    unfolding Let_def g_def [symmetric] x_def [symmetric] y_def [symmetric] by blast
qed

lemma fresh_with_food_init:
  assumes "checkValidTile x y"
  shows "GameManager_init GAME_GRID_WIDTH GAME_GRID_HEIGHT [nat x, nat y] = Inr (fresh_with_food x y, [])"
proof -
  let ?g0 = "GameGrid_init GAME_GRID_HEIGHT GAME_GRID_WIDTH"
  from assms have "nat x < nat GAME_GRID_HEIGHT" "nat y < nat GAME_GRID_WIDTH"
    by (auto simp add: checkValidTile_iff config_defs)
  then have e: "occupied_spaces ?g0 = []" "occupied_grid ?g0 ! nat x ! nat y = 0"
    by (simp_all add: GameGrid_init_def reset_def np_zeros_nth)
  from assms have r: "randint 0 (GAME_GRID_WIDTH - 1) (nat x) = x"
    "randint 0 (GAME_GRID_HEIGHT - 1) (nat y) = y"
    by (simp_all add: checkValidTile_iff randint_id)
  have re: "randEmptySpace ?g0 [nat x, nat y] = Inr ((x, y), [])"
    by (simp add: randEmptySpace_def e r Let_def) (simp add: config_defs)
  have gen: "genTile ?g0 (- 1) (- 1) [nat x, nat y] = Inr (Some (GridSpace_init x y), [])"
    by (simp add: genTile_def e re) (simp add: config_defs)
  have sh: "grid_shape (occupied_grid ?g0)"
    using valid_grid_init by (simp add: valid_grid_def GAME_GRID_HEIGHT_def)
  from assms have "checkValidTile (tile_x (setFood (GridSpace_init x y))) (tile_y (setFood (GridSpace_init x y)))"
    by (simp add: setFood_def GridSpace_init_def)
  from addTile_on_grid [OF sh this]
  have "addFood ?g0 (- 1) (- 1) [nat x, nat y]
     = Inr (calcSmellMatrix (?g0\<lparr>occupied_spaces := [setFood (GridSpace_init x y)],
         occupied_grid := set2 (occupied_grid ?g0) (nat x) (nat y) 1\<rparr>), [])"
    by (simp add: addFood_def gen e setFood_def GridSpace_init_def)
  then show ?thesis
    by (simp add: GameManager_init_def fresh_with_food_def)
qed

lemma fresh_with_food_reachable: "checkValidTile x y \<Longrightarrow> reachable (fresh_with_food x y)"
  by (rule reachable.fresh [OF fresh_with_food_init])

lemma valid_00: "checkValidTile 0 0" and valid_01: "checkValidTile 0 1"
  by (simp_all add: checkValidTile_def config_defs)

text \<open>
  C10, as stated, fails in the state \<open>GameManager.__init__\<close> leaves when its food
  lands on (0, 0): the agent stands on (0, 0) and that cell is marked in
  \<open>occupied_grid\<close> and present in \<open>occupied_spaces\<close>, by the food tile.
\<close>

theorem fresh_food_under_agent:
  "reachable (fresh_with_food 0 0) \<and>
   tile_x (tile (player (game_grid (fresh_with_food 0 0)))) = 0 \<and>
   tile_y (tile (player (game_grid (fresh_with_food 0 0)))) = 0 \<and>
   occupied_grid (game_grid (fresh_with_food 0 0)) ! 0 ! 0 = 1 \<and>
   (0, 0) \<in> set (positions (occupied_spaces (game_grid (fresh_with_food 0 0))))"
proof -
  have "reachable (fresh_with_food 0 0)"
    using valid_00 by (rule fresh_with_food_reachable)
  moreover have "tile_x (tile (player (game_grid (fresh_with_food 0 0)))) = 0"
    "tile_y (tile (player (game_grid (fresh_with_food 0 0)))) = 0"
    by (simp_all add: fresh_with_food_def GameGrid_init_def reset_def Player_init_def
        setPlayer_def GridSpace_init_def)
  moreover have "occupied_grid (game_grid (fresh_with_food 0 0)) ! 0 ! 0 = 1"
    by (simp add: fresh_with_food_def GameGrid_init_def reset_def set2_def np_zeros_def
        config_defs eval_nat_numeral)
  moreover have "(0, 0) \<in> set (positions (occupied_spaces (game_grid (fresh_with_food 0 0))))"
    by (simp add: fresh_with_food_def positions_def setFood_def GridSpace_init_def)
  ultimately show ?thesis by blast
qed

lemma fresh_south_grid:
  "occupied_spaces (game_grid (fresh_with_food 0 1)) = [setFood (GridSpace_init 0 1)]"
  "occupied_grid (game_grid (fresh_with_food 0 1)) = set2 (np_zeros 10 10) 0 1 1"
  "player (game_grid (fresh_with_food 0 1)) = Player_init 0 0"
  by (simp_all add: fresh_with_food_def GameGrid_init_def reset_def config_defs)

lemma forced_south:
  assumes "isPlayerNext2Food g = Some [SOUTH]" and "r = 1"
  shows "smart_mouse g m [r] = Inr (SOUTH, [])"
  using assms
  by (cases "np_any m") (simp_all add: smart_mouse_def simple_mouse_def choice_def SOUTH_def Let_def)

lemma sensed_next2food:
  "isPlayerNext2Food (calcPlayerSense (calcSmellMatrix (game_grid (fresh_with_food 0 1))))
     = Some [SOUTH]"
proof -
  define g where "g = calcPlayerSense (calcSmellMatrix (game_grid (fresh_with_food 0 1)))"
  have t: "tile_x (tile (player g)) = 0" "tile_y (tile (player g)) = 0"
    by (simp_all add: g_def fresh_south_grid Player_init_def setPlayer_def GridSpace_init_def)
  have c: "\<not> checkForFood g (- 1) 0" "\<not> checkForFood g 1 0" "\<not> checkForFood g 0 (- 1)"
    "checkForFood g 0 1"
    by (simp_all add: g_def checkForFood_def checkOccupied_def checkValidTile_def getTile_def
        fresh_south_grid setFood_def GridSpace_init_def set2_def np_zeros_def config_defs
        eval_nat_numeral)
  have "isPlayerNext2Food g = Some [SOUTH]"
    by (simp add: isPlayerNext2Food_def t c Let_def)
  then show ?thesis by (simp only: g_def)
qed

lemma first_tick:
  "logicTick (fresh_with_food 0 1) [1] = Inr (after_one_tick, [])"
proof -
  have "smart_mouse (calcPlayerSense (calcSmellMatrix (game_grid (fresh_with_food 0 1))))
      (smell_matrix (player (calcPlayerSense (calcSmellMatrix (game_grid (fresh_with_food 0 1))))))
      [Suc 0] = Inr (SOUTH, [])"
    by (rule forced_south [OF sensed_next2food]) simp
  then show ?thesis
    by (simp add: logicTick_def fresh_south_grid Let_def after_one_tick_def)
qed

lemma after_one_tick_agent:
  "tile_x (tile (player (game_grid after_one_tick))) = 0"
  "tile_y (tile (player (game_grid after_one_tick))) = 1"
  "alive (player (game_grid after_one_tick))"
  "energy (player (game_grid after_one_tick)) = 100"
  "score (player (game_grid after_one_tick)) = 99"
  "food_eaten (player (game_grid after_one_tick)) = 1"
  "occupied_spaces (game_grid after_one_tick) = []"
proof -
  define g where "g = calcPlayerSense (calcSmellMatrix (game_grid (fresh_with_food 0 1)))"
  define p1 where "p1 = (player g)\<lparr>tile := (setPlayer (GridSpace_init 0 0))\<lparr>tile_y := 1\<rparr>, energy := 99\<rparr>"
  have gf: "occupied_spaces g = [setFood (GridSpace_init 0 1)]"
    "occupied_grid g = set2 (np_zeros 10 10) 0 1 1"
    "tile (player g) = setPlayer (GridSpace_init 0 0)"
    "alive (player g)" "score (player g) = 0" "food_eaten (player g) = 0"
    "max_energy (player g) = 100" "energy (player g) = 100"
    by (simp_all add: g_def fresh_south_grid Player_init_def MAX_ENERGY_def)
  have m: "move (player g) SOUTH 1 = (p1, (0, 1))"
    by (simp add: move_def useEnergy_def step_tile_def gf p1_def
        setPlayer_def GridSpace_init_def SOUTH_def GAME_GRID_HEIGHT_def GAME_GRID_WIDTH_def Let_def)
  have r: "snd (removeTile (g\<lparr>player := p1\<rparr>) 0 1) = Some Food"
    "occupied_spaces (fst (removeTile (g\<lparr>player := p1\<rparr>) 0 1)) = []"
    "player (fst (removeTile (g\<lparr>player := p1\<rparr>) 0 1)) = p1"
    by (simp_all add: removeTile_def checkOccupied_def checkValidTile_def gf
        setFood_def GridSpace_init_def set2_def np_zeros_def GAME_GRID_HEIGHT_def
        GAME_GRID_WIDTH_def Let_def eval_nat_numeral)
  have p: "player (movePlayer g SOUTH) = eatFood p1"
    "occupied_spaces (movePlayer g SOUTH) = []"
    by (simp_all add: movePlayer_def m r Let_def)
  have q: "alive p1" "score p1 = 0" "food_eaten p1 = 0" "max_energy p1 = 100" "energy p1 = 99"
    "tile_x (tile p1) = 0" "tile_y (tile p1) = 1"
    by (simp_all add: p1_def gf setPlayer_def GridSpace_init_def)
  have e: "game_grid after_one_tick = movePlayer g SOUTH"
    by (simp add: after_one_tick_def g_def [symmetric] checkEndStates_def p q eatFood_fields
        FOOD_PER_ROUND_def)
  show "tile_x (tile (player (game_grid after_one_tick))) = 0"
    "tile_y (tile (player (game_grid after_one_tick))) = 1"
    "alive (player (game_grid after_one_tick))"
    "energy (player (game_grid after_one_tick)) = 100"
    "score (player (game_grid after_one_tick)) = 99"
    "food_eaten (player (game_grid after_one_tick)) = 1"
    "occupied_spaces (game_grid after_one_tick) = []"
    by (simp_all add: e p q eatFood_fields ENERGY_PER_FOOD_def)
qed

lemma after_one_tick_reachable: "reachable after_one_tick"
  by (rule reachable.tick [OF fresh_with_food_reachable [OF valid_01] first_tick])

theorem reachable_agent_invariants_witness:
  "reachable after_one_tick \<and>
   alive (player (game_grid after_one_tick)) \<and>
   energy (player (game_grid after_one_tick)) = 100 \<and>
   0 \<le> energy (player (game_grid after_one_tick)) \<and>
   energy (player (game_grid after_one_tick)) \<le> MAX_ENERGY \<and>
   0 \<le> score (player (game_grid after_one_tick)) \<and>
   0 \<le> food_eaten (player (game_grid after_one_tick)) \<and>
   (energy (fst (move (player (game_grid after_one_tick)) NORTH 1)) < 0)
     = (\<not> alive (fst (move (player (game_grid after_one_tick)) NORTH 1)))"
  using reachable_agent_invariants [OF after_one_tick_reachable, of NORTH]
    after_one_tick_reachable after_one_tick_agent(4)
  by blast

theorem agent_cell_free_after_tick_witness:
  "reachable (fresh_with_food 0 1) \<and>
   logicTick (fresh_with_food 0 1) [1] = Inr (after_one_tick, []) \<and>
   tile_x (tile (player (game_grid after_one_tick))) = 0 \<and>
   tile_y (tile (player (game_grid after_one_tick))) = 1 \<and>
   occupied_grid (game_grid after_one_tick) ! 0 ! 1 = 0 \<and>
   (0, 1) \<notin> set (positions (occupied_spaces (game_grid after_one_tick))) \<and>
   randEmptySpace (game_grid after_one_tick) [0, 1] = Inr ((0, 1), []) \<and>
   (\<exists>g'. addFood (game_grid after_one_tick) (- 1) (- 1) [0, 1] = Inr (g', []) \<and>
      occupied_spaces g' = occupied_spaces (game_grid after_one_tick) @ [setFood (GridSpace_init 0 1)])"
proof -
  have r: "reachable (fresh_with_food 0 1)"
    using valid_01 by (rule fresh_with_food_reachable)
  from agent_cell_free_after_tick [OF r first_tick, of "[]"]
  have "occupied_grid (game_grid after_one_tick) ! 0 ! 1 = 0 \<and>
   (0, 1) \<notin> set (positions (occupied_spaces (game_grid after_one_tick))) \<and>
   randEmptySpace (game_grid after_one_tick) [0, 1] = Inr ((0, 1), []) \<and>
   (\<exists>g'. addFood (game_grid after_one_tick) (- 1) (- 1) [0, 1] = Inr (g', []) \<and>
      occupied_spaces g' = occupied_spaces (game_grid after_one_tick) @ [setFood (GridSpace_init 0 1)])"
    by (simp add: Let_def after_one_tick_agent)
  with r first_tick after_one_tick_agent(1,2) show ?thesis
    by blast
qed

section \<open>The scent field at a food cell\<close>

lemma shaped_set2: "shaped w h a \<Longrightarrow> shaped w h (set2 a r c v)"
proof (cases "r < length a")
  case True
  assume "shaped w h a"
  with True show ?thesis
    unfolding shaped_def set2_def list_all_length
    by (simp add: nth_list_update)
next
  case False
  assume "shaped w h a"
  with False show ?thesis
    by (simp add: set2_def list_update_beyond)
qed

lemma shaped_nth_set2:
  assumes "shaped w h sg" and "r < w" and "c < h"
  shows "set2 sg r c v ! a ! b = (if a = r \<and> b = c then v else sg ! a ! b)"
proof -
  from assms have "r < length sg" "c < length (sg ! r)"
    by (simp_all add: shaped_def list_all_length)
  then show ?thesis by (rule nth_set2)
qed

lemma shaped_zeros: "shaped w h (np_zeros w h)"
  by (simp add: shaped_def np_zeros_def list_all_iff)

lemma smell_cell_stacking:
  "smell_cell True t sg i j = set2 sg j i (stack_step t (sg ! j ! i) j i)"
  by (simp add: smell_cell_def stack_step_def scent_def Let_def)

lemma inner_loop:
  assumes sh: "shaped w h sg" and i: "i < h" and k: "k \<le> w"
  shows "shaped w h (foldl (\<lambda>sg j. smell_cell True t sg i j) sg [0..<k]) \<and>
         (\<forall>a<w. \<forall>b<h. foldl (\<lambda>sg j. smell_cell True t sg i j) sg [0..<k] ! a ! b =
            (if b = i \<and> a < k then stack_step t (sg ! a ! b) a b else sg ! a ! b))"
  using k
proof (induction k)
  case 0
  with sh show ?case by simp
next
  case (Suc k)
  define sg' where "sg' = foldl (\<lambda>sg j. smell_cell True t sg i j) sg [0..<k]"
  from Suc have ih: "shaped w h sg'"
    "\<And>a b. a < w \<Longrightarrow> b < h \<Longrightarrow> sg' ! a ! b =
        (if b = i \<and> a < k then stack_step t (sg ! a ! b) a b else sg ! a ! b)"
    and kw: "k < w"
    by (simp_all add: sg'_def)
  have step: "foldl (\<lambda>sg j. smell_cell True t sg i j) sg [0..<Suc k]
      = set2 sg' k i (stack_step t (sg' ! k ! i) k i)"
    by (simp add: sg'_def smell_cell_stacking)
  from ih(2) [OF kw i] have old: "sg' ! k ! i = sg ! k ! i"
    by simp
  show ?case
    unfolding step
  proof (intro conjI allI impI)
    show "shaped w h (set2 sg' k i (stack_step t (sg' ! k ! i) k i))"
      using ih(1) by (rule shaped_set2)
  next
    fix a b assume ab: "a < w" "b < h"
    show "set2 sg' k i (stack_step t (sg' ! k ! i) k i) ! a ! b =
        (if b = i \<and> a < Suc k then stack_step t (sg ! a ! b) a b else sg ! a ! b)"
      using ih(2) [OF ab] old
      by (auto simp add: shaped_nth_set2 [OF ih(1) kw i] less_Suc_eq)
  qed
qed

lemma outer_loop:
  assumes sh: "shaped w h sg" and m: "m \<le> h"
  shows "shaped w h (foldl (\<lambda>sg i. foldl (\<lambda>sg j. smell_cell True t sg i j) sg [0..<w]) sg [0..<m]) \<and>
         (\<forall>a<w. \<forall>b<h.
            foldl (\<lambda>sg i. foldl (\<lambda>sg j. smell_cell True t sg i j) sg [0..<w]) sg [0..<m] ! a ! b =
            (if b < m then stack_step t (sg ! a ! b) a b else sg ! a ! b))"
  using m
proof (induction m)
  case 0
  with sh show ?case by simp
next
  case (Suc m)
  define sg' where
    "sg' = foldl (\<lambda>sg i. foldl (\<lambda>sg j. smell_cell True t sg i j) sg [0..<w]) sg [0..<m]"
  from Suc have ih: "shaped w h sg'"
    "\<And>a b. a < w \<Longrightarrow> b < h \<Longrightarrow> sg' ! a ! b =
        (if b < m then stack_step t (sg ! a ! b) a b else sg ! a ! b)"
    and mh: "m < h"
    by (simp_all add: sg'_def)
  have step: "foldl (\<lambda>sg i. foldl (\<lambda>sg j. smell_cell True t sg i j) sg [0..<w]) sg [0..<Suc m]
      = foldl (\<lambda>sg j. smell_cell True t sg m j) sg' [0..<w]"
    by (simp add: sg'_def)
  from inner_loop [OF ih(1) mh, of w t]
  have inner: "shaped w h (foldl (\<lambda>sg j. smell_cell True t sg m j) sg' [0..<w])"
    "\<And>a b. a < w \<Longrightarrow> b < h \<Longrightarrow> foldl (\<lambda>sg j. smell_cell True t sg m j) sg' [0..<w] ! a ! b =
        (if b = m \<and> a < w then stack_step t (sg' ! a ! b) a b else sg' ! a ! b)"
    by simp_all
  show ?case
    unfolding step
  proof (intro conjI allI impI)
    show "shaped w h (foldl (\<lambda>sg j. smell_cell True t sg m j) sg' [0..<w])"
      by (rule inner(1))
  next
    fix a b assume ab: "a < w" "b < h"
    show "foldl (\<lambda>sg j. smell_cell True t sg m j) sg' [0..<w] ! a ! b =
        (if b < Suc m then stack_step t (sg ! a ! b) a b else sg ! a ! b)"
      using inner(2) [OF ab] ih(2) [OF ab] ab
      by (auto simp add: less_Suc_eq)
  qed
qed

lemma smell_tile_cell:
  assumes sh: "shaped w h sg"
    and t: "0 \<le> tile_x t" "tile_x t < int w" "0 \<le> tile_y t" "tile_y t < int h"
    and ab: "a < w" "b < h"
  shows "shaped w h (smell_tile True w h sg t)"
    and "smell_tile True w h sg t ! a ! b = stack_step t (sg ! a ! b) a b"
proof -
  define sg0 where "sg0 = set2 sg (nat (tile_x t)) (nat (tile_y t)) 1"
  have sh0: "shaped w h sg0"
    unfolding sg0_def using sh by (rule shaped_set2)
  from t have r: "nat (tile_x t) < w" "nat (tile_y t) < h" by simp_all
  have e: "smell_tile True w h sg t
      = foldl (\<lambda>sg i. foldl (\<lambda>sg j. smell_cell True t sg i j) sg [0..<w]) sg0 [0..<h]"
    by (simp add: smell_tile_def sg0_def)
  from outer_loop [OF sh0, of h t] show "shaped w h (smell_tile True w h sg t)"
    by (simp add: e)
  from outer_loop [OF sh0, of h t] ab
  have v: "smell_tile True w h sg t ! a ! b = stack_step t (sg0 ! a ! b) a b"
    by (simp add: e)
  have "(a = nat (tile_x t) \<and> b = nat (tile_y t)) \<longleftrightarrow> (int a = tile_x t \<and> int b = tile_y t)"
    using t by auto
  then have "stack_step t (sg0 ! a ! b) a b = stack_step t (sg ! a ! b) a b"
    by (auto simp add: sg0_def shaped_nth_set2 [OF sh r] stack_step_def)
  with v show "smell_tile True w h sg t ! a ! b = stack_step t (sg ! a ! b) a b"
    by simp
qed

lemma smell_fold_cell:
  assumes "shaped w h sg"
    and "list_all (\<lambda>t. 0 \<le> tile_x t \<and> tile_x t < int w \<and> 0 \<le> tile_y t \<and> tile_y t < int h) ts"
    and "a < w" and "b < h"
  shows "foldl (smell_tile True w h) sg ts ! a ! b = stack_cell (sg ! a ! b) ts a b"
  using assms(1,2)
proof (induction ts arbitrary: sg)
  case Nil
  then show ?case by simp
next
  case (Cons t ts)
  from Cons.prems(2) have t: "0 \<le> tile_x t" "tile_x t < int w" "0 \<le> tile_y t" "tile_y t < int h"
    and ts: "list_all (\<lambda>t. 0 \<le> tile_x t \<and> tile_x t < int w \<and> 0 \<le> tile_y t \<and> tile_y t < int h) ts"
    by simp_all
  from smell_tile_cell [OF Cons.prems(1) t assms(3,4)]
  have "shaped w h (smell_tile True w h sg t)"
    "smell_tile True w h sg t ! a ! b = stack_step t (sg ! a ! b) a b"
    by simp_all
  with Cons.IH [OF _ ts, of "smell_tile True w h sg t"] show ?case
    by simp
qed

lemma stack_cell_append:
  "stack_cell v (ts @ us) a b = stack_cell (stack_cell v ts a b) us a b"
  by (induction ts arbitrary: v) simp_all

lemma stack_cell_others:
  "(int a, int b) \<notin> set (positions ts) \<Longrightarrow>
   stack_cell v ts a b = v + sum_list (map (\<lambda>t. scent t b a) ts)"
  by (induction ts arbitrary: v) (auto simp add: positions_def stack_step_def)

lemma py_round_one: "py_round 1 5 = 1"
  by (simp add: py_round_def round_half_even_def)

lemma scent_self_diagonal:
  assumes "int a = tile_x t" and "int b = tile_y t" and "tile_x t = tile_y t"
  shows "scent t b a = 1"
proof -
  from assms have e: "tile_x t = int a" "tile_y t = int a" "b = a"
    by simp_all
  show ?thesis
    unfolding e scent_def euclidean_def
    by (simp add: py_round_one)
qed

lemma calcSmellMatrix_cell:
  assumes "list_all (\<lambda>t. checkValidTile (tile_x t) (tile_y t)) (occupied_spaces g)"
    and "width g = GAME_GRID_WIDTH" and "height g = GAME_GRID_HEIGHT"
    and "a < nat GAME_GRID_WIDTH" and "b < nat GAME_GRID_HEIGHT"
  shows "smell_grid (calcSmellMatrix g) ! a ! b = stack_cell 0 (occupied_spaces g) a b"
proof -
  let ?w = "nat GAME_GRID_WIDTH" and ?h = "nat GAME_GRID_HEIGHT"
  from assms(1) have "list_all (\<lambda>t. 0 \<le> tile_x t \<and> tile_x t < int ?w \<and> 0 \<le> tile_y t \<and> tile_y t < int ?h)
      (occupied_spaces g)"
    by (simp add: list_all_iff checkValidTile_iff config_defs)
  from smell_fold_cell [OF shaped_zeros this assms(4,5)] assms(2-5) show ?thesis
    by (simp add: calcSmellMatrix_def smell_field_def SCENT_STACKING_def np_zeros_nth)
qed

text \<open>
  C3, amended. In stacking mode, with every tile on the grid, the scent field at the
  cell of a food source at a position (x, x) is 1 plus the rounded contributions of
  the sources that \<open>calcSmellMatrix\<close> processes after it: the source's own term is
  assigned and wipes what earlier sources added, and every later source adds to it.
  For the source processed last the value is exactly 1.
\<close>

theorem scent_at_food_cell:
  assumes "list_all (\<lambda>t. checkValidTile (tile_x t) (tile_y t)) (occupied_spaces g)"
    and "width g = GAME_GRID_WIDTH" and "height g = GAME_GRID_HEIGHT"
    and "occupied_spaces g = before @ f # after"
    and "tile_x f = tile_y f"
    and "(tile_x f, tile_y f) \<notin> set (positions after)"
  shows "smell_grid (calcSmellMatrix g) ! nat (tile_x f) ! nat (tile_y f)
           = 1 + sum_list (map (\<lambda>t. scent t (nat (tile_y f)) (nat (tile_x f))) after)"
proof -
  define a where "a = nat (tile_x f)"
  define b where "b = nat (tile_y f)"
  from assms(1,4) have "checkValidTile (tile_x f) (tile_y f)"
    by simp
  then have ab: "a < nat GAME_GRID_WIDTH" "b < nat GAME_GRID_HEIGHT"
    "int a = tile_x f" "int b = tile_y f"
    by (simp_all add: a_def b_def checkValidTile_iff)
  from calcSmellMatrix_cell [OF assms(1-3) ab(1,2)]
  have "smell_grid (calcSmellMatrix g) ! a ! b = stack_cell 0 (before @ f # after) a b"
    by (simp add: assms(4))
  also have "\<dots> = stack_cell (scent f b a) after a b"
    by (simp add: stack_cell_append stack_step_def ab)
  also have "\<dots> = stack_cell 1 after a b"
    using scent_self_diagonal [OF ab(3,4) assms(5)] by simp
  also have "\<dots> = 1 + sum_list (map (\<lambda>t. scent t b a) after)"
    using assms(6) by (intro stack_cell_others) (simp add: ab)
  finally show ?thesis
    by (simp add: a_def b_def)
qed

lemma grid_with_foods_fields:
  "occupied_spaces (grid_with_foods ps) = map (\<lambda>c. setFood (GridSpace_init (fst c) (snd c))) ps"
  "width (grid_with_foods ps) = GAME_GRID_WIDTH"
  "height (grid_with_foods ps) = GAME_GRID_HEIGHT"
  by (simp_all add: grid_with_foods_def GameGrid_init_def reset_def)

lemma grid_with_foods_on_grid:
  "list_all (\<lambda>c. checkValidTile (fst c) (snd c)) ps \<Longrightarrow>
   list_all (\<lambda>t. checkValidTile (tile_x t) (tile_y t)) (occupied_spaces (grid_with_foods ps))"
  by (simp add: grid_with_foods_fields list_all_iff setFood_def GridSpace_init_def)

lemma sqrt_9: "sqrt 9 = 3"
  by (rule real_sqrt_unique) simp_all

lemma py_round_quarter: "py_round (1 / 4) 5 = 1 / 4"
  by (simp add: py_round_def round_half_even_def)

lemma scent_3_0_at_origin: "scent (setFood (GridSpace_init 3 0)) 0 0 = 1 / 4"
  by (simp add: scent_def euclidean_def setFood_def GridSpace_init_def sqrt_9 py_round_quarter)

lemma scent_0_0_at_origin: "scent (setFood (GridSpace_init 0 0)) 0 0 = 1"
  by (simp add: scent_def euclidean_def setFood_def GridSpace_init_def py_round_one)

text \<open>
  C3, as stated, fails. With food at (0, 0) and then at (3, 0) the field at the food
  cell (0, 0) is 1 + 1/4: the second source is at distance 3 and adds round(1/4, 5).
  With the same two sources in the other order the value at (0, 0) is 1.
\<close>

theorem scent_at_food_cell_depends_on_later_food:
  "SCENT_STACKING \<and>
   smell_grid (calcSmellMatrix (grid_with_foods [(0, 0), (3, 0)])) ! 0 ! 0 = 5 / 4 \<and>
   smell_grid (calcSmellMatrix (grid_with_foods [(3, 0), (0, 0)])) ! 0 ! 0 = 1"
proof -
  have v: "list_all (\<lambda>c. checkValidTile (fst c) (snd c)) [(0, 0), (3, 0)]"
    "list_all (\<lambda>c. checkValidTile (fst c) (snd c)) [(3, 0), (0, 0)]"
    by (simp_all add: checkValidTile_def config_defs)
  have z: "(0::nat) < nat GAME_GRID_WIDTH" "(0::nat) < nat GAME_GRID_HEIGHT"
    by (simp_all add: config_defs)
  have "smell_grid (calcSmellMatrix (grid_with_foods [(0, 0), (3, 0)])) ! 0 ! 0 = 5 / 4"
    using calcSmellMatrix_cell [OF grid_with_foods_on_grid [OF v(1)] grid_with_foods_fields(2,3) z]
    by (simp add: grid_with_foods_fields stack_step_def scent_3_0_at_origin scent_0_0_at_origin)
       (simp add: setFood_def GridSpace_init_def)
  moreover have "smell_grid (calcSmellMatrix (grid_with_foods [(3, 0), (0, 0)])) ! 0 ! 0 = 1"
    using calcSmellMatrix_cell [OF grid_with_foods_on_grid [OF v(2)] grid_with_foods_fields(2,3) z]
    by (simp add: grid_with_foods_fields stack_step_def scent_3_0_at_origin scent_0_0_at_origin)
       (simp add: setFood_def GridSpace_init_def)
  ultimately show ?thesis
    by (simp add: SCENT_STACKING_def)
qed

theorem scent_at_food_cell_witness:
  "list_all (\<lambda>t. checkValidTile (tile_x t) (tile_y t)) (occupied_spaces (grid_with_foods [(2, 2), (5, 5)])) \<and>
   width (grid_with_foods [(2, 2), (5, 5)]) = GAME_GRID_WIDTH \<and>
   height (grid_with_foods [(2, 2), (5, 5)]) = GAME_GRID_HEIGHT \<and>
   occupied_spaces (grid_with_foods [(2, 2), (5, 5)])
     = [] @ setFood (GridSpace_init 2 2) # [setFood (GridSpace_init 5 5)] \<and>
   tile_x (setFood (GridSpace_init 2 2)) = tile_y (setFood (GridSpace_init 2 2)) \<and>
   (tile_x (setFood (GridSpace_init 2 2)), tile_y (setFood (GridSpace_init 2 2)))
     \<notin> set (positions [setFood (GridSpace_init 5 5)]) \<and>
   smell_grid (calcSmellMatrix (grid_with_foods [(2, 2), (5, 5)])) ! 2 ! 2
     = 1 + scent (setFood (GridSpace_init 5 5)) 2 2"
proof -
  have h1: "list_all (\<lambda>t. checkValidTile (tile_x t) (tile_y t))
      (occupied_spaces (grid_with_foods [(2, 2), (5, 5)]))"
    by (rule grid_with_foods_on_grid) (simp add: checkValidTile_def config_defs)
  have h4: "occupied_spaces (grid_with_foods [(2, 2), (5, 5)])
     = [] @ setFood (GridSpace_init 2 2) # [setFood (GridSpace_init 5 5)]"
    by (simp add: grid_with_foods_fields)
  have h5: "tile_x (setFood (GridSpace_init 2 2)) = tile_y (setFood (GridSpace_init 2 2))"
    by (simp add: setFood_def GridSpace_init_def)
  have h6: "(tile_x (setFood (GridSpace_init 2 2)), tile_y (setFood (GridSpace_init 2 2)))
     \<notin> set (positions [setFood (GridSpace_init 5 5)])"
    by (simp add: positions_def setFood_def GridSpace_init_def)
  have t: "tile_x (setFood (GridSpace_init 2 2)) = 2" "tile_y (setFood (GridSpace_init 2 2)) = 2"
    by (simp_all add: setFood_def GridSpace_init_def)
  from scent_at_food_cell [OF h1 grid_with_foods_fields(2,3) h4 h5 h6]
  have "smell_grid (calcSmellMatrix (grid_with_foods [(2, 2), (5, 5)])) ! 2 ! 2
     = 1 + scent (setFood (GridSpace_init 5 5)) 2 2"
    by (simp add: t)
  with h1 h4 h5 h6 grid_with_foods_fields(2,3) show ?thesis
    by blast
qed

text \<open>
  The loop measures the distance from (i, j) to (tile.x, tile.y) and writes the cell
  [j][i], so at the cell [tile.x][tile.y] of a source off the diagonal the assigned
  term is not the one of distance 0: for a single food at (0, 1) it is
  round(1 / (sqrt 2 + 1), 5), which is below 1/2.
\<close>

lemma round_half_even_le:
  assumes "v \<le> of_int n"
  shows "round_half_even v \<le> n"
proof -
  have f: "\<lfloor>v\<rfloor> \<le> n" using assms by (simp add: floor_le_iff)
  show ?thesis
  proof (cases "v - of_int \<lfloor>v\<rfloor> < 1 / 2")
    case True
    with f show ?thesis by (simp add: round_half_even_def Let_def)
  next
    case False
    then have "of_int \<lfloor>v\<rfloor> < v" by linarith
    with assms have "of_int \<lfloor>v\<rfloor> < (of_int n :: real)" by linarith
    then have "\<lfloor>v\<rfloor> < n" by simp
    then show ?thesis by (simp add: round_half_even_def Let_def)
  qed
qed

lemma py_round_le_half: "v \<le> 1 / 2 \<Longrightarrow> py_round v 5 \<le> 1 / 2"
proof -
  assume "v \<le> 1 / 2"
  then have "v * 10 ^ 5 \<le> of_int 50000" by simp
  then have "round_half_even (v * 10 ^ 5) \<le> 50000" by (rule round_half_even_le)
  then have "real_of_int (round_half_even (v * 10 ^ 5)) \<le> 50000" by linarith
  then show ?thesis by (simp add: py_round_def)
qed

lemma scent_self_off_diagonal:
  "smell_grid (calcSmellMatrix (grid_with_foods [(0, 1)])) ! 0 ! 1 \<le> 1 / 2"
proof -
  have v: "list_all (\<lambda>c. checkValidTile (fst c) (snd c)) [(0, 1)]"
    by (simp add: checkValidTile_def config_defs)
  have z: "(0::nat) < nat GAME_GRID_WIDTH" "(1::nat) < nat GAME_GRID_HEIGHT"
    by (simp_all add: config_defs)
  have "1 \<le> sqrt 2" by simp
  then have "2 \<le> sqrt 2 + 1" by simp
  then have "inverse (sqrt 2 + 1) \<le> inverse 2"
    by (rule le_imp_inverse_le) simp
  then have "1 / (sqrt 2 + 1) \<le> 1 / 2"
    by (simp only: inverse_eq_divide)
  then have "py_round (1 / (sqrt 2 + 1)) 5 \<le> 1 / 2"
    by (rule py_round_le_half)
  moreover have "scent (setFood (GridSpace_init 0 1)) 1 0 = py_round (1 / (sqrt 2 + 1)) 5"
    by (simp add: scent_def euclidean_def setFood_def GridSpace_init_def)
  moreover have "smell_grid (calcSmellMatrix (grid_with_foods [(0, 1)])) ! 0 ! 1
      = scent (setFood (GridSpace_init 0 1)) 1 0"
    using calcSmellMatrix_cell [OF grid_with_foods_on_grid [OF v] grid_with_foods_fields(2,3) z]
    by (simp add: grid_with_foods_fields stack_step_def)
  ultimately show ?thesis by simp
qed

section \<open>Feeding\<close>

text \<open>
  C6. \<open>eatFood\<close> adds one to food_eaten, adds the energy held before the call to the
  score, then adds ENERGY_PER_FOOD to the energy and caps it at max_energy; position,
  max_energy, alive and the sense window stay as they were. The equation holds for
  every agent, so in particular for every living one.
\<close>

theorem eatFood_effect:
  "eatFood p =
     p\<lparr>food_eaten := food_eaten p + 1,
       score := score p + energy p,
       energy := min (energy p + ENERGY_PER_FOOD) (max_energy p)\<rparr>"
  by (simp add: eatFood_def Let_def min_def)

end
